(* ===== verification/Prelude.thy ===== *)
theory Prelude
  imports Main "HOL-Library.Word" "HOL-Library.AList"
begin

unbundle bit_operations_syntax

text \<open>
  Vocabulary shared by every component: bytes and strings, the result type
  \<open>'e + 'a\<close> of fallible Go functions (\<open>Inl\<close> the error, \<open>Inr\<close> the value), the same with a
  state threaded through, and big-endian integers.  The lemmas here turn a successful
  or failed run of a chain of checks into the conjunction of its steps; they carry the
  proofs of the components.
\<close>

named_theorems result_simps \<open>inversion of chains of fallible steps\<close>
named_theorems byte_simps \<open>big-endian integers and byte lists\<close>

section \<open>Bytes and strings\<close>

type_synonym byte = "8 word"
type_synonym bytes = "byte list"

text \<open>
  A Go \<open>string\<close> is a sequence of bytes; here it is a HOL \<open>string\<close>, whose characters are
  bytes.  The conversions \<open>[]byte(s)\<close> and \<open>string(b)\<close> copy byte by byte.
\<close>

definition byte_of_char :: "char \<Rightarrow> byte" where
  "byte_of_char c = of_nat (of_char c)"

definition char_of_byte :: "byte \<Rightarrow> char" where
  "char_of_byte b = char_of (unat b)"

definition bytes_of_string :: "string \<Rightarrow> bytes" where
  "bytes_of_string s = map byte_of_char s"

definition string_of_bytes :: "bytes \<Rightarrow> string" where
  "string_of_bytes b = map char_of_byte b"

lemma unat_byte_less: "unat (b :: byte) < 256"
  using unsigned_less [of b] by simp

lemma char_of_byte_of_char [simp]: "char_of_byte (byte_of_char c) = c"
proof -
  have "(of_char c :: nat) < 256" by simp
  then have "unat (of_nat (of_char c) :: byte) = of_char c"
    by (simp add: unat_of_nat)
  then show ?thesis by (simp add: char_of_byte_def byte_of_char_def)
qed

lemma byte_of_char_of_byte [simp]: "byte_of_char (char_of_byte b) = b"
proof -
  have "(of_char (char_of (unat b)) :: nat) = unat b"
    using unat_byte_less [of b] by (simp add: of_char_of)
  then show ?thesis by (simp add: char_of_byte_def byte_of_char_def)
qed

lemma string_of_bytes_of_string [simp]: "string_of_bytes (bytes_of_string s) = s"
  by (simp add: string_of_bytes_def bytes_of_string_def comp_def)

lemma bytes_of_string_of_bytes [simp]: "bytes_of_string (string_of_bytes b) = b"
  by (simp add: string_of_bytes_def bytes_of_string_def comp_def)

lemma length_bytes_of_string [simp]: "length (bytes_of_string s) = length s"
  by (simp add: bytes_of_string_def)

lemma length_string_of_bytes [simp]: "length (string_of_bytes b) = length b"
  by (simp add: string_of_bytes_def)

lemma bytes_of_string_inject [simp]: "bytes_of_string s = bytes_of_string t \<longleftrightarrow> s = t"
  by (metis string_of_bytes_of_string)

section \<open>Fallible functions\<close>

text \<open>\<open>bindE m f\<close> is \<open>x, err := m; if err != nil { return err }; f(x)\<close>.\<close>

definition bindE :: "'e + 'a \<Rightarrow> ('a \<Rightarrow> 'e + 'b) \<Rightarrow> 'e + 'b" where
  "bindE m f = (case m of Inl e \<Rightarrow> Inl e | Inr x \<Rightarrow> f x)"

text \<open>\<open>failIf c e\<close> is the early return \<open>if c { return e }\<close>.\<close>

definition failIf :: "bool \<Rightarrow> 'e \<Rightarrow> 'e + unit" where
  "failIf c e = (if c then Inl e else Inr ())"

text \<open>\<open>someOr x e\<close> is the lookup \<open>v, ok := x; if !ok { return e }\<close>.\<close>

definition someOr :: "'a option \<Rightarrow> 'e \<Rightarrow> 'e + 'a" where
  "someOr x e = (case x of None \<Rightarrow> Inl e | Some v \<Rightarrow> Inr v)"

text \<open>\<open>wrapE f m\<close> re-labels the error of a call, as \<open>fmt.Errorf("%w: ...")\<close> does.\<close>

definition wrapE :: "('d \<Rightarrow> 'e) \<Rightarrow> 'd + 'a \<Rightarrow> 'e + 'a" where
  "wrapE f m = (case m of Inl e \<Rightarrow> Inl (f e) | Inr x \<Rightarrow> Inr x)"

lemma bindE_simps [simp]: "bindE (Inl e) f = Inl e" "bindE (Inr x) f = f x"
  by (simp_all add: bindE_def)

lemma failIf_simps [simp]: "failIf True e = Inl e" "failIf False e = Inr ()"
  by (simp_all add: failIf_def)

lemma someOr_simps [simp]: "someOr None e = Inl e" "someOr (Some x) e = Inr x"
  by (simp_all add: someOr_def)

lemma wrapE_simps [simp]: "wrapE f (Inl e) = Inl (f e)" "wrapE f (Inr x) = Inr x"
  by (simp_all add: wrapE_def)

lemma bindE_Inr_iff [result_simps]: "bindE m f = Inr y \<longleftrightarrow> (\<exists>x. m = Inr x \<and> f x = Inr y)"
  by (cases m) auto

lemma bindE_Inl_iff [result_simps]:
  "bindE m f = Inl e \<longleftrightarrow> m = Inl e \<or> (\<exists>x. m = Inr x \<and> f x = Inl e)"
  by (cases m) auto

lemma failIf_Inr_iff [result_simps]: "failIf c e = Inr u \<longleftrightarrow> \<not> c"
  by (simp add: failIf_def)

lemma failIf_Inl_iff [result_simps]: "failIf c e = Inl e' \<longleftrightarrow> c \<and> e' = e"
  by (auto simp: failIf_def)

lemma someOr_Inr_iff [result_simps]: "someOr x e = Inr v \<longleftrightarrow> x = Some v"
  by (cases x) auto

lemma someOr_Inl_iff [result_simps]: "someOr x e = Inl e' \<longleftrightarrow> x = None \<and> e' = e"
  by (cases x) auto

lemma wrapE_Inr_iff [result_simps]: "wrapE f m = Inr x \<longleftrightarrow> m = Inr x"
  by (cases m) auto

lemma wrapE_Inl_iff [result_simps]: "wrapE f m = Inl e \<longleftrightarrow> (\<exists>d. m = Inl d \<and> e = f d)"
  by (cases m) auto

lemma bindE_cong [fundef_cong]:
  "m = m' \<Longrightarrow> (\<And>x. m' = Inr x \<Longrightarrow> f x = f' x) \<Longrightarrow> bindE m f = bindE m' f'"
  by (cases m') auto

section \<open>Fallible functions over a state\<close>

text \<open>
  A method that may change its receiver is a function from the state to a result and the
  next state; the state survives an error return, as a mutation does in Go.
\<close>

type_synonym ('s, 'e, 'a) op = "'s \<Rightarrow> ('e + 'a) \<times> 's"

definition returnS :: "'a \<Rightarrow> ('s, 'e, 'a) op" where
  "returnS x s = (Inr x, s)"

definition bindS :: "('s, 'e, 'a) op \<Rightarrow> ('a \<Rightarrow> ('s, 'e, 'b) op) \<Rightarrow> ('s, 'e, 'b) op" where
  "bindS m f s = (case m s of (Inl e, s') \<Rightarrow> (Inl e, s') | (Inr x, s') \<Rightarrow> f x s')"

text \<open>A step that reads no state and changes none.\<close>

definition liftS :: "'e + 'a \<Rightarrow> ('s, 'e, 'a) op" where
  "liftS m s = (m, s)"

text \<open>A step that reads the state and does not change it.\<close>

definition readS :: "('s \<Rightarrow> 'e + 'a) \<Rightarrow> ('s, 'e, 'a) op" where
  "readS f s = (f s, s)"

text \<open>A step on one field of the state, with its errors re-labelled.\<close>

definition onS ::
    "('s \<Rightarrow> 't) \<Rightarrow> ('t \<Rightarrow> 's \<Rightarrow> 's) \<Rightarrow> ('d \<Rightarrow> 'e) \<Rightarrow> ('t, 'd, 'a) op \<Rightarrow> ('s, 'e, 'a) op" where
  "onS get put err m s = (case m (get s) of (r, t) \<Rightarrow> (wrapE err r, put t s))"

lemma returnS_iff [result_simps]: "returnS x s = (r, s') \<longleftrightarrow> r = Inr x \<and> s' = s"
  by (auto simp: returnS_def)

lemma liftS_iff [result_simps]: "liftS m s = (r, s') \<longleftrightarrow> m = r \<and> s' = s"
  by (auto simp: liftS_def)

lemma readS_iff [result_simps]: "readS f s = (r, s') \<longleftrightarrow> f s = r \<and> s' = s"
  by (auto simp: readS_def)

lemma bindS_Inr_iff [result_simps]:
  "bindS m f s = (Inr y, s') \<longleftrightarrow> (\<exists>x s1. m s = (Inr x, s1) \<and> f x s1 = (Inr y, s'))"
  by (auto simp: bindS_def split: prod.splits sum.splits)

lemma bindS_Inl_iff [result_simps]:
  "bindS m f s = (Inl e, s') \<longleftrightarrow>
     m s = (Inl e, s') \<or> (\<exists>x s1. m s = (Inr x, s1) \<and> f x s1 = (Inl e, s'))"
  by (auto simp: bindS_def split: prod.splits sum.splits)

lemma onS_iff [result_simps]:
  "onS get put err m s = (r, s') \<longleftrightarrow>
     (\<exists>r' t. m (get s) = (r', t) \<and> wrapE err r' = r \<and> s' = put t s)"
  by (auto simp: onS_def split: prod.splits)

lemma snd_bindS_inv:
  assumes "P s" and "\<And>r s'. m s = (r, s') \<Longrightarrow> P s'"
    and "\<And>x s1. m s = (Inr x, s1) \<Longrightarrow> P s1 \<Longrightarrow> P (snd (f x s1))"
  shows "P (snd (bindS m f s))"
  using assms by (auto simp: bindS_def split: prod.splits sum.splits)

text \<open>A property of the state that every run of an operation keeps, failed ones included.\<close>

definition preserves :: "('s \<Rightarrow> bool) \<Rightarrow> ('s, 'e, 'a) op \<Rightarrow> bool" where
  "preserves P m \<longleftrightarrow> (\<forall>s. P s \<longrightarrow> P (snd (m s)))"

named_theorems frame_intros \<open>operations that preserve a property of the state\<close>

lemma preserves_bindS_result:
  "preserves P m \<Longrightarrow> (\<And>s x s'. m s = (Inr x, s') \<Longrightarrow> preserves P (g x)) \<Longrightarrow> preserves P (bindS m g)"
proof -
  assume m: "preserves P m" and g: "\<And>s x s'. m s = (Inr x, s') \<Longrightarrow> preserves P (g x)"
  have "P (snd (bindS m g s))" if "P s" for s
  proof (cases "m s")
    case (Pair r s1)
    have "P (snd (m s))" using m that by (simp add: preserves_def)
    then show ?thesis using g [of s _ s1] Pair by (cases r) (simp_all add: bindS_def preserves_def)
  qed
  then show "preserves P (bindS m g)" by (simp add: preserves_def)
qed

lemma preserves_bindS [frame_intros]:
  "preserves P m \<Longrightarrow> (\<And>x. preserves P (g x)) \<Longrightarrow> preserves P (bindS m g)"
  by (rule preserves_bindS_result)

lemma preserves_bind_liftS: "(\<And>x. m = Inr x \<Longrightarrow> preserves P (g x)) \<Longrightarrow> preserves P (bindS (liftS m) g)"
  by (rule preserves_bindS_result) (auto simp: preserves_def liftS_def)

lemma preserves_liftS [frame_intros]: "preserves P (liftS m)"
  by (simp add: preserves_def liftS_def)

lemma preserves_returnS [frame_intros]: "preserves P (returnS x)"
  by (simp add: preserves_def returnS_def)

lemma preserves_readS [frame_intros]: "preserves P (readS g)"
  by (simp add: preserves_def readS_def)

lemma preserves_onS [frame_intros]:
  "(\<And>s. P s \<Longrightarrow> P (put (snd (m (get s))) s)) \<Longrightarrow> preserves P (onS get put err m)"
  by (simp add: preserves_def onS_def case_prod_unfold)

lemma preserves_onS_whole [frame_intros]: "preserves P m \<Longrightarrow> preserves P (onS (\<lambda>s. s) (\<lambda>t _. t) err m)"
  by (simp add: preserves_def onS_def case_prod_unfold)

lemma preserves_if [frame_intros]: "preserves P m \<Longrightarrow> preserves P m' \<Longrightarrow> preserves P (if c then m else m')"
  by simp

lemma preservesD: "preserves P m \<Longrightarrow> m s = (r, s') \<Longrightarrow> P s \<Longrightarrow> P s'"
  unfolding preserves_def by (drule spec [of _ s]) simp

section \<open>Big-endian integers\<close>

definition be_nat :: "bytes \<Rightarrow> nat" where
  "be_nat bs = foldl (\<lambda>a b. a * 256 + unat b) 0 bs"

fun be_bytes :: "nat \<Rightarrow> nat \<Rightarrow> bytes" where
  "be_bytes 0 n = []"
| "be_bytes (Suc k) n = be_bytes k (n div 256) @ [of_nat n]"

lemma be_nat_Nil [byte_simps]: "be_nat [] = 0"
  by (simp add: be_nat_def)

lemma be_nat_snoc [byte_simps]: "be_nat (bs @ [b]) = be_nat bs * 256 + unat b"
  by (simp add: be_nat_def)

lemma be_nat_less: "be_nat bs < 256 ^ length bs"
proof (induction bs rule: rev_induct)
  case (snoc b bs)
  have "be_nat bs * 256 + unat b < (be_nat bs + 1) * 256"
    using unat_byte_less [of b] by simp
  also have "\<dots> \<le> 256 ^ length bs * 256"
    using snoc by (intro mult_right_mono) auto
  finally show ?case by (simp add: be_nat_snoc mult.commute)
qed (simp add: be_nat_Nil)

lemma length_be_bytes [simp]: "length (be_bytes k n) = k"
  by (induction k arbitrary: n) auto

lemma unat_of_nat_byte [byte_simps]: "unat (of_nat n :: byte) = n mod 256"
  by (simp add: unat_of_nat)

lemma be_nat_be_bytes_mod: "be_nat (be_bytes k n) = n mod 256 ^ k"
proof (induction k arbitrary: n)
  case (Suc k)
  have "be_nat (be_bytes (Suc k) n) = n div 256 mod 256 ^ k * 256 + n mod 256"
    by (simp add: be_nat_snoc unat_of_nat_byte Suc.IH)
  also have "\<dots> = n mod (256 * 256 ^ k)"
    by (simp add: mod_mult2_eq)
  finally show ?case by simp
qed (simp add: be_nat_Nil)

lemma be_nat_be_bytes [simp]: "n < 256 ^ k \<Longrightarrow> be_nat (be_bytes k n) = n"
  by (simp add: be_nat_be_bytes_mod)

lemma be_bytes_be_nat: "be_bytes (length bs) (be_nat bs) = bs"
proof (induction bs rule: rev_induct)
  case (snoc b bs)
  have q: "(be_nat bs * 256 + unat b) div 256 = be_nat bs"
    using unat_byte_less [of b] by simp
  have r: "(of_nat (be_nat bs * 256 + unat b) :: byte) = b"
  proof -
    have "unat (of_nat (be_nat bs * 256 + unat b) :: byte) = unat b"
      using unat_byte_less [of b] by (simp only: unat_of_nat_byte) simp
    then show ?thesis by (simp only: word_unat_eq_iff)
  qed
  show ?case by (simp add: be_nat_snoc q r snoc.IH del: of_nat_add of_nat_mult)
qed simp

lemma be_bytes_be_nat_len: "length bs = k \<Longrightarrow> be_bytes k (be_nat bs) = bs"
  using be_bytes_be_nat by blast

section \<open>Lists\<close>

lemma take_drop_append_prefix:
  "take n (drop i xs) = ys \<Longrightarrow> i + n \<le> length xs \<Longrightarrow> drop i xs = ys @ drop (i + n) xs"
  by (metis add.commute append_take_drop_id drop_drop)

lemma add_Max_le_iff:
  "n + Max (insert 0 (f ` set xs)) \<le> m \<longleftrightarrow> n \<le> m \<and> (\<forall>x \<in> set xs. n + f x \<le> m)" for m n :: nat
proof -
  have "n + Max (insert 0 (f ` set xs)) \<le> m \<longleftrightarrow> n \<le> m \<and> Max (insert 0 (f ` set xs)) \<le> m - n"
    by linarith
  also have "Max (insert 0 (f ` set xs)) \<le> m - n \<longleftrightarrow> (\<forall>x \<in> set xs. f x \<le> m - n)"
    by (subst Max_le_iff) auto
  finally show ?thesis by (auto simp: le_diff_conv2 add.commute)
qed

lemma append_eq_take_drop: "xs = ys @ zs \<Longrightarrow> length ys = n \<Longrightarrow> ys = take n xs \<and> zs = drop n xs"
  by auto

section \<open>Time\<close>

text \<open>
  A \<open>time.Time\<close> is the number of nanoseconds since the Unix epoch, a \<open>time.Duration\<close> a
  number of nanoseconds; the zero \<open>time.Time\<close> is the first instant of the year 1.
  \<open>MarshalJSON\<close> refuses an instant outside the years 0 to 9999.
\<close>

type_synonym time = int

definition second :: time where "second = 1000000000"

definition zeroTime :: time where "zeroTime = -62135596800 * second"

definition json_time_ok :: "time \<Rightarrow> bool" where
  "json_time_ok t \<longleftrightarrow> -62167219200 * second \<le> t \<and> t < 253402300800 * second"

end
