(* ===== verification/Base64.thy ===== *)
theory Base64
  imports Prelude
begin

text \<open>
  The two instances of Go's \<open>encoding/base64\<close> that the program uses:
  \<open>RawURLEncoding\<close> (URL alphabet, no padding) for everything on the wire, in both
  directions, and \<open>StdEncoding\<close> (standard alphabet, padded) for the store's keys,
  encoding only.  The decoder is the library's non-strict one: it skips carriage returns
  and newlines and ignores the unused low bits of the last character.
\<close>

section \<open>Alphabets\<close>

definition b64_common :: string where
  "b64_common = ''ABCDEFGHIJKLMNOPQRSTUVWXYZabcdefghijklmnopqrstuvwxyz0123456789''"

definition url_alphabet :: string where
  "url_alphabet = b64_common @ ''-_''"

definition std_alphabet :: string where
  "std_alphabet = b64_common @ ''+/''"

lemma length_url_alphabet [simp]: "length url_alphabet = 64"
  by (simp add: url_alphabet_def b64_common_def)

lemma length_std_alphabet [simp]: "length std_alphabet = 64"
  by (simp add: std_alphabet_def b64_common_def)

lemma distinct_url_alphabet: "distinct url_alphabet"
  by (simp add: url_alphabet_def b64_common_def)

lemma distinct_std_alphabet: "distinct std_alphabet"
  by (simp add: std_alphabet_def b64_common_def)

definition url_index :: "char \<Rightarrow> nat option" where
  "url_index c = map_of (zip url_alphabet [0..<64]) c"

lemma url_index_nth: "i < 64 \<Longrightarrow> url_index (url_alphabet ! i) = Some i"
  using map_of_zip_nth [of url_alphabet "[0..<64]" i] distinct_url_alphabet
  by (simp add: url_index_def)

lemma url_index_less: "url_index c = Some i \<Longrightarrow> i < 64"
  by (auto simp: url_index_def dest!: map_of_SomeD set_zip_rightD)

section \<open>Encoding\<close>

text \<open>The sextets of a byte string; the last group is filled with zero bits.\<close>

fun sextets :: "bytes \<Rightarrow> nat list" where
  "sextets (a # b # c # r) =
     [unat a div 4, unat a mod 4 * 16 + unat b div 16, unat b mod 16 * 4 + unat c div 64,
      unat c mod 64] @ sextets r"
| "sextets [a, b] = [unat a div 4, unat a mod 4 * 16 + unat b div 16, unat b mod 16 * 4]"
| "sextets [a] = [unat a div 4, unat a mod 4 * 16]"
| "sextets [] = []"

definition RawURLEncoding_EncodeToString :: "bytes \<Rightarrow> string" where
  "RawURLEncoding_EncodeToString b = map (nth url_alphabet) (sextets b)"

definition StdEncoding_EncodeToString :: "bytes \<Rightarrow> string" where
  "StdEncoding_EncodeToString b =
     map (nth std_alphabet) (sextets b) @ replicate ((3 - length b mod 3) mod 3) CHR ''=''"

section \<open>Decoding\<close>

fun unsextets :: "nat list \<Rightarrow> bytes option" where
  "unsextets (a # b # c # d # r) =
     map_option ((@) [of_nat (a * 4 + b div 16), of_nat (b mod 16 * 16 + c div 4),
       of_nat (c mod 4 * 64 + d)]) (unsextets r)"
| "unsextets [a, b, c] = Some [of_nat (a * 4 + b div 16), of_nat (b mod 16 * 16 + c div 4)]"
| "unsextets [a, b] = Some [of_nat (a * 4 + b div 16)]"
| "unsextets [a] = None"
| "unsextets [] = Some []"

definition url_values :: "string \<Rightarrow> nat list option" where
  "url_values s =
     (let vs = map url_index (filter (\<lambda>c. c \<noteq> CHR 0x0D \<and> c \<noteq> CHR 0x0A) s)
      in if None \<in> set vs then None else Some (map the vs))"

definition RawURLEncoding_DecodeString :: "string \<Rightarrow> bytes option" where
  "RawURLEncoding_DecodeString s = Option.bind (url_values s) unsextets"

section \<open>Round trip\<close>

lemma of_nat_unat_byte: "n = unat (b :: byte) \<Longrightarrow> of_nat n = b"
  by simp

lemma sextet_bounds_nat:
  assumes "m < 256" and "n < 256"
  shows "m div 4 < 64" "m mod 4 * 16 + n div 16 < 64" "m mod 16 * 4 + n div 64 < 64"
    "m mod 16 * 4 < 64" "m mod 4 * 16 < (64 :: nat)"
proof -
  have q: "m div 4 < 64" "n div 16 < 16" "n div 64 < 4" using assms by simp_all
  have r: "m mod 4 \<le> 3" "m mod 16 \<le> 15" by (simp_all add: less_Suc_eq_le [symmetric])
  show "m div 4 < 64" by (rule q)
  show "m mod 4 * 16 + n div 16 < 64" "m mod 16 * 4 + n div 64 < 64"
    "m mod 16 * 4 < 64" "m mod 4 * 16 < 64"
    using q r by linarith+
qed

lemma sextet_bounds:
  "unat (a :: byte) div 4 < 64" "unat (a :: byte) mod 4 * 16 + unat (b :: byte) div 16 < 64"
  "unat (a :: byte) mod 16 * 4 + unat (b :: byte) div 64 < 64"
  "unat (a :: byte) mod 16 * 4 < 64" "unat (a :: byte) mod 4 * 16 < 64"
  using sextet_bounds_nat [OF unat_byte_less [of a] unat_byte_less [of b]] by simp_all

lemma sextets_less: "list_all (\<lambda>i. i < 64) (sextets b)"
proof (induction b rule: sextets.induct)
  case (1 a b c r)
  then show ?case
    using sextet_bounds(1) [of a] sextet_bounds(2) [of a b] sextet_bounds(3) [of b c] by simp
next
  case (2 a b)
  show ?case
    using sextet_bounds(1) [of a] sextet_bounds(2) [of a b] sextet_bounds(4) [of b] by simp
next
  case (3 a)
  show ?case using sextet_bounds(1) [of a] sextet_bounds(5) [of a] by simp
qed simp

lemma regroup_2: "unat (a :: byte) div 4 * 4 + (unat a mod 4 * 16 + y) div 16 = unat a"
  if "y < 16" for y using that by simp

lemma regroup_4: "(x * 16 + unat (b :: byte) div 16) mod 16 * 16 + (unat b mod 16 * 4 + y) div 4 = unat b"
  if "y < 4" for y
proof -
  have "unat b div 16 < 16" using unat_byte_less [of b] by simp
  then show ?thesis using that by simp
qed

lemma regroup_6: "(x * 4 + unat (c :: byte) div 64) mod 4 * 64 + unat c mod 64 = unat c"
proof -
  have "unat c div 64 < 4" using unat_byte_less [of c] by simp
  then show ?thesis by simp
qed

lemma unsextets_sextets: "unsextets (sextets b) = Some b"
proof (induction b rule: sextets.induct)
  case (1 a b c r)
  have "unat b div 16 < 16" "unat c div 64 < 4"
    using unat_byte_less [of b] unat_byte_less [of c] by simp_all
  then show ?case
    using 1 by (simp add: regroup_2 regroup_4 regroup_6 of_nat_unat_byte
        del: of_nat_add of_nat_mult div_mult_self3 mod_mult_self3)
next
  case (2 a b)
  have "unat b div 16 < 16" using unat_byte_less [of b] by simp
  then show ?case
    using regroup_4 [of 0 "unat a mod 4" b]
    by (simp add: regroup_2 of_nat_unat_byte del: of_nat_add of_nat_mult)
next
  case (3 a)
  show ?case using regroup_2 [of 0 a] by (simp add: of_nat_unat_byte del: of_nat_add of_nat_mult)
qed simp

lemma url_values_map:
  "list_all (\<lambda>i. i < 64) is \<Longrightarrow> url_values (map (nth url_alphabet) is) = Some is"
proof -
  assume a: "list_all (\<lambda>i. i < 64) is"
  have "list_all (\<lambda>c. c \<noteq> CHR 0x0D \<and> c \<noteq> CHR 0x0A) url_alphabet"
    by (simp add: url_alphabet_def b64_common_def)
  then have "url_alphabet ! i \<noteq> CHR 0x0D \<and> url_alphabet ! i \<noteq> CHR 0x0A" if "i < 64" for i
    using that by (simp add: list_all_length)
  then have "filter (\<lambda>c. c \<noteq> CHR 0x0D \<and> c \<noteq> CHR 0x0A) (map (nth url_alphabet) is) =
      map (nth url_alphabet) is"
    using a by (auto simp: list_all_iff filter_id_conv)
  moreover have "map (\<lambda>i. url_index (url_alphabet ! i)) is = map Some is"
    using a by (auto simp: list_all_iff url_index_nth)
  ultimately show ?thesis
    by (auto simp: url_values_def comp_def Let_def map_idI dest: map_eq_conv [THEN iffD1])
qed

theorem RawURLEncoding_roundtrip [simp]:
  "RawURLEncoding_DecodeString (RawURLEncoding_EncodeToString b) = Some b"
  by (simp add: RawURLEncoding_DecodeString_def RawURLEncoding_EncodeToString_def
      url_values_map sextets_less unsextets_sextets)

section \<open>The padded encoding is injective\<close>

lemma std_map_inject:
  assumes "list_all (\<lambda>i. i < 64) is" and "list_all (\<lambda>i. i < 64) js"
    and "map (nth std_alphabet) is = map (nth std_alphabet) js"
  shows "is = js"
proof -
  have "inj_on (nth std_alphabet) {..<64}"
    using distinct_std_alphabet by (auto simp: inj_on_def nth_eq_iff_index_eq)
  then show ?thesis
    using assms by (intro map_inj_on [OF assms(3)]) (auto simp: inj_on_def list_all_iff)
qed

lemma StdEncoding_inject [simp]:
  "StdEncoding_EncodeToString a = StdEncoding_EncodeToString b \<longleftrightarrow> a = b"
proof
  assume eq: "StdEncoding_EncodeToString a = StdEncoding_EncodeToString b"
  have nopad: "CHR ''='' \<notin> set std_alphabet"
    by (simp add: std_alphabet_def b64_common_def)
  have strip: "filter (\<lambda>c. c \<noteq> CHR ''='') (StdEncoding_EncodeToString x) =
      map (nth std_alphabet) (sextets x)" for x
  proof -
    have "std_alphabet ! i \<noteq> CHR ''=''" if "i < 64" for i
      using nopad that nth_mem [of i std_alphabet] by (metis length_std_alphabet)
    then show ?thesis
      using sextets_less [of x]
      by (auto simp: StdEncoding_EncodeToString_def list_all_iff filter_id_conv)
  qed
  have "map (nth std_alphabet) (sextets a) = map (nth std_alphabet) (sextets b)"
    using eq by (simp flip: strip)
  then have "sextets a = sextets b"
    by (rule std_map_inject [OF sextets_less sextets_less])
  then show "a = b" using unsextets_sextets by (metis option.inject)
qed simp

end
