(* ===== verification/Utf8.thy ===== *)
theory Utf8
  imports Prelude
begin

text \<open>
  UTF-8 as \<open>unicode/utf8\<close> and \<open>encoding/json\<close> treat it: \<open>utf8.DecodeRune\<close> accepts the
  well-formed sequences of one to four bytes, and every byte that does not start one is
  replaced by U+FFFD on its own.  Both \<open>json.Marshal\<close> and \<open>json.Unmarshal\<close> coerce strings
  this way.
\<close>

definition cont :: "byte \<Rightarrow> bool" where
  "cont b \<longleftrightarrow> 0x80 \<le> b \<and> b \<le> 0xbf"

text \<open>The length of the well-formed sequence that a byte string starts with; 0 if none.\<close>

fun two :: "bytes \<Rightarrow> bool" where
  "two (a # b # _) \<longleftrightarrow> 0xc2 \<le> a \<and> a \<le> 0xdf \<and> cont b"
| "two _ \<longleftrightarrow> False"

fun three :: "bytes \<Rightarrow> bool" where
  "three (a # b # c # _) \<longleftrightarrow>
     0xe0 \<le> a \<and> a \<le> 0xef \<and> cont b \<and> cont c \<and> (a = 0xe0 \<longrightarrow> 0xa0 \<le> b) \<and> (a = 0xed \<longrightarrow> b \<le> 0x9f)"
| "three _ \<longleftrightarrow> False"

fun four :: "bytes \<Rightarrow> bool" where
  "four (a # b # c # d # _) \<longleftrightarrow>
     0xf0 \<le> a \<and> a \<le> 0xf4 \<and> cont b \<and> cont c \<and> cont d \<and>
     (a = 0xf0 \<longrightarrow> 0x90 \<le> b) \<and> (a = 0xf4 \<longrightarrow> b \<le> 0x8f)"
| "four _ \<longleftrightarrow> False"

definition utf8_len :: "bytes \<Rightarrow> nat" where
  "utf8_len b =
     (case b of
        [] \<Rightarrow> 0
      | x # _ \<Rightarrow> if x < 0x80 then 1 else if two b then 2 else if three b then 3 else if four b then 4 else 0)"

definition runeError :: bytes where
  "runeError = [0xef, 0xbf, 0xbd]"

lemma two_length: "two b \<Longrightarrow> 2 \<le> length b"
  by (cases b rule: two.cases) auto

lemma three_length: "three b \<Longrightarrow> 3 \<le> length b"
  by (cases b rule: three.cases) auto

lemma four_length: "four b \<Longrightarrow> 4 \<le> length b"
  by (cases b rule: four.cases) auto

lemma utf8_len_le: "utf8_len b \<le> length b"
  using two_length [of b] three_length [of b] four_length [of b]
  by (cases b) (auto simp: utf8_len_def)

function coerceUTF8 :: "bytes \<Rightarrow> bytes" where
  "coerceUTF8 b =
     (if b = [] then []
      else if utf8_len b = 0 then runeError @ coerceUTF8 (tl b)
      else take (utf8_len b) b @ coerceUTF8 (drop (utf8_len b) b))"
  by pat_completeness auto
termination
  by (relation "measure length") simp_all

declare coerceUTF8.simps [simp del]

definition validUTF8 :: "bytes \<Rightarrow> bool" where
  "validUTF8 b \<longleftrightarrow> coerceUTF8 b = b"

text \<open>What follows a well-formed sequence does not change its length.\<close>

lemma two_append: "two b \<Longrightarrow> two (take 2 b @ r)"
  by (cases b rule: two.cases) auto

lemma three_append: "three b \<Longrightarrow> three (take 3 b @ r)"
  by (cases b rule: three.cases) (auto simp: numeral_3_eq_3)

lemma four_append: "four b \<Longrightarrow> four (take 4 b @ r)"
  by (cases b rule: four.cases) (auto simp: numeral_eq_Suc)

lemma two_head: "two b \<Longrightarrow> 0xc2 \<le> hd b \<and> hd b \<le> 0xdf"
  by (cases b rule: two.cases) auto

lemma three_head: "three b \<Longrightarrow> 0xe0 \<le> hd b \<and> hd b \<le> 0xef"
  by (cases b rule: three.cases) auto

lemma four_head: "four b \<Longrightarrow> 0xf0 \<le> hd b \<and> hd b \<le> 0xf4"
  by (cases b rule: four.cases) auto

lemma ranges:
  "(x :: byte) \<le> 0xdf \<Longrightarrow> \<not> 0xe0 \<le> x" "(x :: byte) \<le> 0xef \<Longrightarrow> \<not> 0xf0 \<le> x"
  "(x :: byte) < 0x80 \<Longrightarrow> \<not> 0xc2 \<le> x" "(x :: byte) < 0x80 \<Longrightarrow> \<not> 0xe0 \<le> x"
  "(x :: byte) < 0x80 \<Longrightarrow> \<not> 0xf0 \<le> x" "(x :: byte) \<le> 0xdf \<Longrightarrow> \<not> 0xf0 \<le> x"
  by (simp_all add: word_le_nat_alt word_less_nat_alt)

lemma exclusive:
  "hd b < 0x80 \<Longrightarrow> \<not> two b \<and> \<not> three b \<and> \<not> four b" "three b \<Longrightarrow> \<not> two b" "four b \<Longrightarrow> \<not> two b \<and> \<not> three b"
  using two_head [of b] three_head [of b] four_head [of b] ranges [of "hd b"] by blast+

lemma utf8_len_1: "b \<noteq> [] \<Longrightarrow> hd b < 0x80 \<Longrightarrow> utf8_len b = 1"
  by (cases b) (auto simp: utf8_len_def)

lemma utf8_len_2: "two b \<Longrightarrow> utf8_len b = 2"
  using exclusive(1) [of b] by (cases b) (auto simp: utf8_len_def)

lemma utf8_len_3: "three b \<Longrightarrow> utf8_len b = 3"
  using exclusive(1,2) [of b] by (cases b) (auto simp: utf8_len_def)

lemma utf8_len_4: "four b \<Longrightarrow> utf8_len b = 4"
  using exclusive(1,3) [of b] by (cases b) (auto simp: utf8_len_def)

lemma utf8_len_cases:
  obtains (none) "utf8_len b = 0" | (one) "b \<noteq> []" "hd b < 0x80" "utf8_len b = 1"
  | (two) "two b" "utf8_len b = 2" | (three) "three b" "utf8_len b = 3" | (four) "four b" "utf8_len b = 4"
proof (cases b)
  case Nil
  then show thesis using none by (simp add: utf8_len_def)
next
  case (Cons x r)
  consider "x < 0x80" | "two b" | "three b" | "four b" | "\<not> x < 0x80" "\<not> two b" "\<not> three b" "\<not> four b"
    by blast
  then show thesis
  proof cases
    case 1
    then show thesis using one Cons by (simp add: utf8_len_1)
  next
    case 5
    then show thesis using none Cons by (simp add: utf8_len_def)
  qed (auto intro: two three four utf8_len_2 utf8_len_3 utf8_len_4)
qed

lemma utf8_len_append:
  assumes "0 < utf8_len b"
  shows "utf8_len (take (utf8_len b) b @ r) = utf8_len b"
proof (cases b rule: utf8_len_cases)
  case one
  then show ?thesis by (cases b) (auto intro: utf8_len_1 simp del: One_nat_def)
next
  case two
  then show ?thesis using utf8_len_2 [OF two_append] by simp
next
  case three
  then show ?thesis using utf8_len_3 [OF three_append] by simp
next
  case four
  then show ?thesis using utf8_len_4 [OF four_append] by simp
qed (use assms in simp)

lemma coerceUTF8_Nil [simp]: "coerceUTF8 [] = []"
  by (simp add: coerceUTF8.simps)

lemma coerceUTF8_seq:
  "0 < utf8_len b \<Longrightarrow> coerceUTF8 (take (utf8_len b) b @ r) = take (utf8_len b) b @ coerceUTF8 r"
proof -
  assume pos: "0 < utf8_len b"
  have "length (take (utf8_len b) b) = utf8_len b" using utf8_len_le [of b] by simp
  then have nonempty: "take (utf8_len b) b @ r \<noteq> []"
      and split: "take (utf8_len b) (take (utf8_len b) b @ r) = take (utf8_len b) b"
        "drop (utf8_len b) (take (utf8_len b) b @ r) = r"
    using pos by auto
  show ?thesis
    by (subst coerceUTF8.simps) (simp only: nonempty utf8_len_append [OF pos] split pos
        neq0_conv if_False less_not_refl2 simp_thms)
qed

lemma utf8_len_runeError: "utf8_len (runeError @ r) = 3"
  by (rule utf8_len_3) (simp add: runeError_def cont_def)

lemma coerceUTF8_runeError: "coerceUTF8 (runeError @ r) = runeError @ coerceUTF8 r"
  using coerceUTF8_seq [of "runeError @ r" r]
  by (simp add: utf8_len_runeError) (simp add: runeError_def)

lemma coerceUTF8_idem: "coerceUTF8 (coerceUTF8 b) = coerceUTF8 b"
proof (induction b rule: coerceUTF8.induct)
  case (1 b)
  show ?case
  proof (cases "b = []")
    case False
    show ?thesis
    proof (cases "utf8_len b = 0")
      case True
      then have "coerceUTF8 b = runeError @ coerceUTF8 (tl b)"
        using False by (subst coerceUTF8.simps) simp
      then show ?thesis using 1(1) [OF False True] by (simp add: coerceUTF8_runeError)
    next
      case nz: False
      then have "coerceUTF8 b = take (utf8_len b) b @ coerceUTF8 (drop (utf8_len b) b)"
        using False by (subst coerceUTF8.simps) simp
      then show ?thesis using 1(2) [OF False nz] nz by (simp add: coerceUTF8_seq)
    qed
  qed simp
qed

lemma validUTF8_coerce [simp]: "validUTF8 (coerceUTF8 b)"
  by (simp add: validUTF8_def coerceUTF8_idem)

lemma coerceUTF8_ascii: "(\<forall>x \<in> set b. x < 0x80) \<Longrightarrow> coerceUTF8 b = b"
proof (induction b)
  case (Cons x b)
  then show ?case using coerceUTF8_seq [of "[x]" b] utf8_len_1 [of "[x]"] by simp
qed simp

text \<open>The same on a string.\<close>

definition coerceString :: "string \<Rightarrow> string" where
  "coerceString s = string_of_bytes (coerceUTF8 (bytes_of_string s))"

lemma coerceString_idem [simp]: "coerceString (coerceString s) = coerceString s"
  by (simp add: coerceString_def coerceUTF8_idem)

lemma coerceString_ascii: "(\<forall>c \<in> set s. byte_of_char c < 0x80) \<Longrightarrow> coerceString s = s"
  by (simp add: coerceString_def coerceUTF8_ascii bytes_of_string_def string_of_bytes_def comp_def)

end
