(* ===== verification/Json.thy ===== *)
theory Json
  imports Utf8
begin

unbundle bit_operations_syntax

text \<open>
  The part of \<open>encoding/json\<close> that the program uses: the syntax that \<open>json.Unmarshal\<close> and
  \<open>Decoder.Decode\<close> accept (nesting limited to 10000 levels), how an object is stored into
  a struct of strings, booleans and times, and how \<open>json.Marshal\<close> writes strings and
  objects.  A string is kept raw in the syntax tree, as \<open>time.Time\<close> sees it; \<open>unquote\<close>
  gives the text that a \<open>string\<close> field receives.
\<close>

section \<open>Syntax\<close>

definition maxNestingDepth :: nat where "maxNestingDepth = 10000"

datatype json =
    JNull
  | JBool bool
  | JNum bytes
  | JStr bytes
  | JArr "json list"
  | JObj "(bytes \<times> json) list"

text \<open>The bytes with a meaning: quote, backslash, brackets, braces, comma and colon.\<close>

definition ch_quote :: byte where "ch_quote = 0x22"
definition ch_backslash :: byte where "ch_backslash = 0x5c"
definition ch_lbracket :: byte where "ch_lbracket = 0x5b"
definition ch_rbracket :: byte where "ch_rbracket = 0x5d"
definition ch_lbrace :: byte where "ch_lbrace = 0x7b"
definition ch_rbrace :: byte where "ch_rbrace = 0x7d"
definition ch_comma :: byte where "ch_comma = 0x2c"
definition ch_colon :: byte where "ch_colon = 0x3a"

lemmas json_chars = ch_quote_def ch_backslash_def ch_lbracket_def ch_rbracket_def ch_lbrace_def
  ch_rbrace_def ch_comma_def ch_colon_def

definition isSpace :: "byte \<Rightarrow> bool" where
  "isSpace c \<longleftrightarrow> c = 0x20 \<or> c = 0x09 \<or> c = 0x0d \<or> c = 0x0a"

definition skipSpace :: "bytes \<Rightarrow> bytes" where
  "skipSpace b = dropWhile isSpace b"

definition isDigit :: "byte \<Rightarrow> bool" where
  "isDigit c \<longleftrightarrow> 0x30 \<le> c \<and> c \<le> 0x39"

definition hexVal :: "byte \<Rightarrow> nat option" where
  "hexVal c =
     (if isDigit c then Some (unat c - 0x30)
      else if 0x61 \<le> c \<and> c \<le> 0x66 then Some (unat c - 0x61 + 10)
      else if 0x41 \<le> c \<and> c \<le> 0x46 then Some (unat c - 0x41 + 10)
      else None)"

text \<open>\<open>getu4\<close>, after the \<open>\u\<close>.\<close>

fun hex4 :: "bytes \<Rightarrow> nat option" where
  "hex4 (a # b # c # d # _) =
     (case (hexVal a, hexVal b, hexVal c, hexVal d) of
        (Some w, Some x, Some y, Some z) \<Rightarrow> Some (((w * 16 + x) * 16 + y) * 16 + z)
      | _ \<Rightarrow> None)"
| "hex4 _ = None"

text \<open>What the escapes of one letter stand for: quote, backslash, slash, b f n r t.\<close>

definition simple_escape :: "byte \<Rightarrow> byte option" where
  "simple_escape c =
     map_of [(0x22, 0x22), (0x5c, 0x5c), (0x2f, 0x2f), (0x62, 0x08), (0x66, 0x0c), (0x6e, 0x0a),
       (0x72, 0x0d), (0x74, 0x09)] c"

text \<open>The rest of a string literal after its opening quote: raw content and rest.\<close>

fun scan_string :: "bytes \<Rightarrow> (bytes \<times> bytes) option" where
  "scan_string [] = None"
| "scan_string (c # r) =
     (if c = ch_quote then Some ([], r)
      else if c = ch_backslash then
        (case r of
           [] \<Rightarrow> None
         | e # r' \<Rightarrow>
             if simple_escape e \<noteq> None then
               map_option (\<lambda>(s, t). (c # e # s, t)) (scan_string r')
             else if e = 0x75 \<and> hex4 r' \<noteq> None then
               map_option (\<lambda>(s, t). (c # e # take 4 r' @ s, t)) (scan_string (drop 4 r'))
             else None)
      else if c < 0x20 then None
      else map_option (\<lambda>(s, t). (c # s, t)) (scan_string r))"

definition scan_digits :: "bytes \<Rightarrow> (bytes \<times> bytes) option" where
  "scan_digits b =
     (if takeWhile isDigit b = [] then None else Some (takeWhile isDigit b, dropWhile isDigit b))"

text \<open>An optional fraction and an optional exponent.\<close>

definition scan_frac :: "bytes \<Rightarrow> (bytes \<times> bytes) option" where
  "scan_frac b =
     (case b of c # r \<Rightarrow> if c = 0x2e then map_option (\<lambda>(s, t). (c # s, t)) (scan_digits r) else Some ([], b)
      | [] \<Rightarrow> Some ([], b))"

definition scan_exp :: "bytes \<Rightarrow> (bytes \<times> bytes) option" where
  "scan_exp b =
     (case b of c # r \<Rightarrow>
        if c = 0x65 \<or> c = 0x45 then
          (case r of
             s # r' \<Rightarrow> if s = 0x2b \<or> s = 0x2d
               then map_option (\<lambda>(d, t). (c # s # d, t)) (scan_digits r')
               else map_option (\<lambda>(d, t). (c # d, t)) (scan_digits r)
           | [] \<Rightarrow> None)
        else Some ([], b)
      | [] \<Rightarrow> Some ([], b))"

text \<open>The integer part: one zero, or digits that do not start with zero.\<close>

definition scan_int :: "bytes \<Rightarrow> (bytes \<times> bytes) option" where
  "scan_int b =
     (case b of c # r \<Rightarrow> if c = 0x30 then Some ([c], r) else scan_digits b | [] \<Rightarrow> None)"

definition scan_number :: "bytes \<Rightarrow> (bytes \<times> bytes) option" where
  "scan_number b =
     (let (sign, b) = (case b of c # r \<Rightarrow> if c = 0x2d then ([c], r) else ([], b) | [] \<Rightarrow> ([], b)) in
      Option.bind (scan_int b) (\<lambda>(i, b).
      Option.bind (scan_frac b) (\<lambda>(f, b).
      Option.bind (scan_exp b) (\<lambda>(e, b).
      Some (sign @ i @ f @ e, b)))))"

definition strip :: "bytes \<Rightarrow> bytes \<Rightarrow> bytes option" where
  "strip p b = (if take (length p) b = p then Some (drop (length p) b) else None)"

definition lit_null :: bytes where "lit_null = [0x6e, 0x75, 0x6c, 0x6c]"
definition lit_true :: bytes where "lit_true = [0x74, 0x72, 0x75, 0x65]"
definition lit_false :: bytes where "lit_false = [0x66, 0x61, 0x6c, 0x73, 0x65]"

type_synonym 'a scanner = "bytes \<Rightarrow> ('a \<times> bytes) option"

text \<open>
  The loops over elements and members, over the scanner of one value.  Each round consumes
  a byte at least, so the length of the input is fuel enough.
\<close>

fun scan_elements :: "json scanner \<Rightarrow> nat \<Rightarrow> json list scanner" where
  "scan_elements pv 0 b = None"
| "scan_elements pv (Suc n) b =
     Option.bind (pv b) (\<lambda>(v, r).
     case skipSpace r of
       [] \<Rightarrow> None
     | c # r \<Rightarrow>
         if c = ch_comma then map_option (\<lambda>(vs, t). (v # vs, t)) (scan_elements pv n r)
         else if c = ch_rbracket then Some ([v], r)
         else None)"

definition scan_key :: "bytes scanner" where
  "scan_key b =
     (case skipSpace b of
        c # r \<Rightarrow> if c = ch_quote then
           Option.bind (scan_string r) (\<lambda>(k, r).
           case skipSpace r of c # r \<Rightarrow> if c = ch_colon then Some (k, r) else None | [] \<Rightarrow> None)
         else None
      | [] \<Rightarrow> None)"

fun scan_members :: "json scanner \<Rightarrow> nat \<Rightarrow> (bytes \<times> json) list scanner" where
  "scan_members pv 0 b = None"
| "scan_members pv (Suc n) b =
     Option.bind (scan_key b) (\<lambda>(k, r).
     Option.bind (pv r) (\<lambda>(v, r).
     case skipSpace r of
       [] \<Rightarrow> None
     | c # r \<Rightarrow>
         if c = ch_comma then map_option (\<lambda>(ms, t). ((k, v) # ms, t)) (scan_members pv n r)
         else if c = ch_rbrace then Some ([(k, v)], r)
         else None))"

definition scan_array :: "nat \<Rightarrow> json scanner \<Rightarrow> json scanner" where
  "scan_array depth pv b =
     (if maxNestingDepth \<le> depth then None
      else case skipSpace b of
        c # r \<Rightarrow> if c = ch_rbracket then Some (JArr [], r)
          else map_option (\<lambda>(vs, t). (JArr vs, t)) (scan_elements pv (length b) b)
      | [] \<Rightarrow> None)"

definition scan_object :: "nat \<Rightarrow> json scanner \<Rightarrow> json scanner" where
  "scan_object depth pv b =
     (if maxNestingDepth \<le> depth then None
      else case skipSpace b of
        c # r \<Rightarrow> if c = ch_rbrace then Some (JObj [], r)
          else map_option (\<lambda>(ms, t). (JObj ms, t)) (scan_members pv (length b) b)
      | [] \<Rightarrow> None)"

lemma scan_array_cong [fundef_cong]:
  "depth = depth' \<Longrightarrow> b = b' \<Longrightarrow> (\<And>x. depth' < maxNestingDepth \<Longrightarrow> pv x = pv' x)
    \<Longrightarrow> scan_array depth pv b = scan_array depth' pv' b'"
  by (cases "maxNestingDepth \<le> depth") (auto simp: scan_array_def not_le dest!: ext)

lemma scan_object_cong [fundef_cong]:
  "depth = depth' \<Longrightarrow> b = b' \<Longrightarrow> (\<And>x. depth' < maxNestingDepth \<Longrightarrow> pv x = pv' x)
    \<Longrightarrow> scan_object depth pv b = scan_object depth' pv' b'"
  by (cases "maxNestingDepth \<le> depth") (auto simp: scan_object_def not_le dest!: ext)

function scan_value :: "nat \<Rightarrow> json scanner" where
  "scan_value depth b =
     (case skipSpace b of
        [] \<Rightarrow> None
      | c # r \<Rightarrow>
          if c = ch_lbrace then scan_object depth (\<lambda>b. scan_value (depth + 1) b) r
          else if c = ch_lbracket then scan_array depth (\<lambda>b. scan_value (depth + 1) b) r
          else if c = ch_quote then map_option (\<lambda>(s, t). (JStr s, t)) (scan_string r)
          else if c = 0x2d \<or> isDigit c then map_option (\<lambda>(s, t). (JNum s, t)) (scan_number (c # r))
          else if c = 0x6e then map_option (\<lambda>t. (JNull, t)) (strip lit_null (c # r))
          else if c = 0x74 then map_option (\<lambda>t. (JBool True, t)) (strip lit_true (c # r))
          else if c = 0x66 then map_option (\<lambda>t. (JBool False, t)) (strip lit_false (c # r))
          else None)"
  by pat_completeness auto
termination
  by (relation "measure (\<lambda>(depth, b). maxNestingDepth - depth)") auto

declare scan_value.simps [simp del]

text \<open>
  \<open>json.Unmarshal\<close> wants one value and nothing else but space; \<open>Decoder.Decode\<close> reads the
  first value of the stream and leaves the rest.
\<close>

definition parse_json :: "bytes \<Rightarrow> json option" where
  "parse_json b =
     Option.bind (scan_value 0 b) (\<lambda>(v, r). if skipSpace r = [] then Some v else None)"

definition parse_stream :: "bytes \<Rightarrow> json option" where
  "parse_stream b = map_option fst (scan_value 0 b)"

section \<open>Strings\<close>

text \<open>\<open>utf8.AppendRune\<close>\<close>

definition encode_rune :: "nat \<Rightarrow> bytes" where
  "encode_rune n =
     (if n < 0x80 then [of_nat n]
      else if n < 0x800 then [0xc0 OR of_nat (n div 64), 0x80 OR of_nat (n mod 64)]
      else if n < 0x10000 then
        [0xe0 OR of_nat (n div 4096), 0x80 OR of_nat (n div 64 mod 64), 0x80 OR of_nat (n mod 64)]
      else [0xf0 OR of_nat (n div 262144), 0x80 OR of_nat (n div 4096 mod 64),
            0x80 OR of_nat (n div 64 mod 64), 0x80 OR of_nat (n mod 64)])"

definition isSurrogate :: "nat \<Rightarrow> bool" where
  "isSurrogate n \<longleftrightarrow> 0xd800 \<le> n \<and> n < 0xe000"

text \<open>The second half of a surrogate pair, if the text goes on with one.\<close>

definition low_surrogate :: "bytes \<Rightarrow> nat option" where
  "low_surrogate b =
     (case b of
        c # u # r \<Rightarrow>
          if c = ch_backslash \<and> u = 0x75 then
            (case hex4 r of Some n \<Rightarrow> if 0xdc00 \<le> n \<and> n < 0xe000 then Some n else None | None \<Rightarrow> None)
          else None
      | _ \<Rightarrow> None)"

text \<open>
  The bytes that one \<open>\u\<close> escape stands for, and how many raw bytes behind its four digits
  it consumes.
\<close>

definition unicode_escape :: "nat \<Rightarrow> bytes \<Rightarrow> bytes \<times> nat" where
  "unicode_escape n r =
     (if isSurrogate n then
        (case low_surrogate r of
           Some m \<Rightarrow> if n < 0xdc00
             then (encode_rune ((n - 0xd800) * 1024 + (m - 0xdc00) + 0x10000), 6) else (runeError, 0)
         | None \<Rightarrow> (runeError, 0))
      else (encode_rune n, 0))"

function unquote :: "bytes \<Rightarrow> bytes" where
  "unquote b =
     (case b of
        [] \<Rightarrow> []
      | c # r \<Rightarrow>
          if c = ch_backslash then
            (case r of
               [] \<Rightarrow> []
             | e # r' \<Rightarrow>
                 (case simple_escape e of
                    Some x \<Rightarrow> x # unquote r'
                  | None \<Rightarrow>
                      (case hex4 r' of
                         Some n \<Rightarrow>
                           (let (x, k) = unicode_escape n (drop 4 r')
                            in x @ unquote (drop (4 + k) r'))
                       | None \<Rightarrow> [])))
          else if utf8_len b = 0 then runeError @ unquote r
          else take (utf8_len b) b @ unquote (drop (utf8_len b) b))"
  by pat_completeness auto
termination
  by (relation "measure length") auto

declare unquote.simps [simp del]

section \<open>Decoding into a struct\<close>

text \<open>
  The case folding of field names.  Besides the ASCII letters only U+017F and U+212A fold to
  an ASCII letter (S and K); the field names of the program are ASCII.
\<close>

fun foldName :: "bytes \<Rightarrow> bytes" where
  "foldName [] = []"
| "foldName (a # r) =
     (if 0x61 \<le> a \<and> a \<le> 0x7a then (a - 0x20) # foldName r
      else if a = 0xc5 \<and> r \<noteq> [] \<and> hd r = 0xbf then 0x53 # foldName (tl r)
      else if a = 0xe2 \<and> 2 \<le> length r \<and> take 2 r = [0x84, 0xaa] then 0x4b # foldName (drop 2 r)
      else a # foldName r)"

type_synonym 's field_setter = "json \<Rightarrow> 's \<Rightarrow> 's option"

definition find_field :: "(string \<times> 's field_setter) list \<Rightarrow> bytes \<Rightarrow> 's field_setter option" where
  "find_field fields key =
     (case find (\<lambda>(n, f). bytes_of_string n = key) fields of
        Some (n, f) \<Rightarrow> Some f
      | None \<Rightarrow> map_option snd (find (\<lambda>(n, f). foldName (bytes_of_string n) = foldName key) fields))"

fun set_members :: "(string \<times> 's field_setter) list \<Rightarrow> (bytes \<times> json) list \<Rightarrow> 's \<Rightarrow> 's option" where
  "set_members fields [] s = Some s"
| "set_members fields ((k, v) # ms) s =
     (case find_field fields (unquote k) of
        None \<Rightarrow> set_members fields ms s
      | Some f \<Rightarrow> Option.bind (f v s) (set_members fields ms))"

text \<open>
  Storing a value into a struct: an object sets its fields in order, \<open>null\<close> changes nothing,
  anything else is an \<open>UnmarshalTypeError\<close>.
\<close>

definition set_struct :: "(string \<times> 's field_setter) list \<Rightarrow> json \<Rightarrow> 's \<Rightarrow> 's option" where
  "set_struct fields v s =
     (case v of JNull \<Rightarrow> Some s | JObj ms \<Rightarrow> set_members fields ms s | _ \<Rightarrow> None)"

definition set_string :: "(string \<Rightarrow> 's \<Rightarrow> 's) \<Rightarrow> 's field_setter" where
  "set_string upd v s =
     (case v of JStr raw \<Rightarrow> Some (upd (string_of_bytes (unquote raw)) s) | JNull \<Rightarrow> Some s | _ \<Rightarrow> None)"

definition set_bool :: "(bool \<Rightarrow> 's \<Rightarrow> 's) \<Rightarrow> 's field_setter" where
  "set_bool upd v s =
     (case v of JBool b \<Rightarrow> Some (upd b s) | JNull \<Rightarrow> Some s | _ \<Rightarrow> None)"

text \<open>
  \<open>time.Time\<close> parses the raw content of a string as RFC 3339; the layout itself is the
  argument \<open>parse_time\<close>.
\<close>

definition set_time :: "(bytes \<Rightarrow> time option) \<Rightarrow> (time \<Rightarrow> 's \<Rightarrow> 's) \<Rightarrow> 's field_setter" where
  "set_time parse_time upd v s =
     (case v of JStr raw \<Rightarrow> map_option (\<lambda>t. upd t s) (parse_time raw) | JNull \<Rightarrow> Some s | _ \<Rightarrow> None)"

definition Unmarshal :: "(string \<times> 's field_setter) list \<Rightarrow> 's \<Rightarrow> bytes \<Rightarrow> 's option" where
  "Unmarshal fields zero b = Option.bind (parse_json b) (\<lambda>v. set_struct fields v zero)"

definition Decoder_Decode :: "(string \<times> 's field_setter) list \<Rightarrow> 's \<Rightarrow> bytes \<Rightarrow> 's option" where
  "Decoder_Decode fields zero b = Option.bind (parse_stream b) (\<lambda>v. set_struct fields v zero)"

section \<open>Encoding\<close>

definition hexDigit :: "nat \<Rightarrow> byte" where
  "hexDigit n = (if n < 10 then of_nat (0x30 + n) else of_nat (0x61 + (n - 10)))"

text \<open>
  A byte below 0x80 in a string: escaped if it is a control character, a quote, a backslash
  or one of the HTML-sensitive characters.
\<close>

definition quote_ascii :: "byte \<Rightarrow> bytes" where
  "quote_ascii c =
     (if c = 0x22 \<or> c = 0x5c then [0x5c, c]
      else if c = 0x08 then [0x5c, 0x62]
      else if c = 0x0c then [0x5c, 0x66]
      else if c = 0x0a then [0x5c, 0x6e]
      else if c = 0x0d then [0x5c, 0x72]
      else if c = 0x09 then [0x5c, 0x74]
      else if c < 0x20 \<or> c = 0x3c \<or> c = 0x3e \<or> c = 0x26 then
        [0x5c, 0x75, 0x30, 0x30, hexDigit (unat c div 16), hexDigit (unat c mod 16)]
      else [c])"

definition esc_fffd :: bytes where "esc_fffd = [0x5c, 0x75, 0x66, 0x66, 0x66, 0x64]"
definition esc_2028 :: bytes where "esc_2028 = [0x5c, 0x75, 0x32, 0x30, 0x32, 0x38]"
definition esc_2029 :: bytes where "esc_2029 = [0x5c, 0x75, 0x32, 0x30, 0x32, 0x39]"

definition quote_rune :: "bytes \<Rightarrow> bytes" where
  "quote_rune s =
     (if s = [0xe2, 0x80, 0xa8] then esc_2028 else if s = [0xe2, 0x80, 0xa9] then esc_2029 else s)"

function quote :: "bytes \<Rightarrow> bytes" where
  "quote b =
     (if b = [] then []
      else if hd b < 0x80 then quote_ascii (hd b) @ quote (tl b)
      else if utf8_len b = 0 then esc_fffd @ quote (tl b)
      else quote_rune (take (utf8_len b) b) @ quote (drop (utf8_len b) b))"
  by pat_completeness auto
termination
  by (relation "measure length") auto

declare quote.simps [simp del]

definition Marshal_string :: "string \<Rightarrow> bytes" where
  "Marshal_string s = [ch_quote] @ quote (bytes_of_string s) @ [ch_quote]"

definition Marshal_bool :: "bool \<Rightarrow> bytes" where
  "Marshal_bool b = (if b then lit_true else lit_false)"

text \<open>The fields of a struct, as pairs of name and encoded value.\<close>

fun join_members :: "(string \<times> bytes) list \<Rightarrow> bytes" where
  "join_members [] = []"
| "join_members [(k, v)] = Marshal_string k @ [ch_colon] @ v"
| "join_members ((k, v) # ms) = Marshal_string k @ [ch_colon] @ v @ [ch_comma] @ join_members ms"

definition Marshal_object :: "(string \<times> bytes) list \<Rightarrow> bytes" where
  "Marshal_object ms = [ch_lbrace] @ join_members ms @ [ch_rbrace]"

end
