(* ===== verification/Json_Correct.thy ===== *)
theory Json_Correct
  imports Json
begin

unbundle bit_operations_syntax

text \<open>
  The encoder and the parser of JSON agree: a marshalled string is scanned to its end and
  unquotes to the string with malformed UTF-8 replaced, and a marshalled struct parses to
  the object of its fields.
\<close>

section \<open>Strings\<close>

text \<open>A piece of a quoted string: what scanning and unquoting do with it, whatever follows.\<close>

definition piece :: "bytes \<Rightarrow> bytes \<Rightarrow> bool" where
  "piece p out \<longleftrightarrow>
     (\<forall>x. scan_string (p @ x) = map_option (\<lambda>(s, t). (p @ s, t)) (scan_string x)) \<and>
     (\<forall>x. unquote (p @ x) = out @ unquote x)"

lemma pieceI:
  assumes "\<And>x. scan_string (p @ x) = map_option (\<lambda>(s, t). (p @ s, t)) (scan_string x)"
    and "\<And>x. unquote (p @ x) = out @ unquote x"
  shows "piece p out"
  using assms by (simp add: piece_def)

lemma hexVal_hexDigit: "n < 16 \<Longrightarrow> hexVal (hexDigit n) = Some n"
proof -
  have "list_all (\<lambda>n. hexVal (hexDigit n) = Some n) [0, 1, 2, 3, 4, 5, 6, 7, 8, 9, 10, 11, 12, 13, 14, 15]"
    by (simp add: hexVal_def hexDigit_def isDigit_def)
  moreover have "[0, 1, 2, 3, 4, 5, 6, 7, 8, 9, 10, 11, 12, 13, 14, 15] = [0..<16]"
    by code_simp
  ultimately have "list_all (\<lambda>n. hexVal (hexDigit n) = Some n) [0..<16]" by (simp only:)
  then show "n < 16 \<Longrightarrow> ?thesis" unfolding list_all_iff by simp
qed

lemma unquote_simple: "simple_escape e = Some y \<Longrightarrow> unquote (0x5c # e # x) = y # unquote x"
  by (subst unquote.simps) (simp add: ch_backslash_def)

lemma unquote_unicode:
  assumes "hex4 h = Some n" and "length h = 4" and "\<not> isSurrogate n"
  shows "unquote (0x5c # 0x75 # h @ x) = encode_rune n @ unquote x"
proof -
  have e: "simple_escape 0x75 = None" by (simp add: simple_escape_def)
  obtain a b c d where h: "h = [a, b, c, d]" using assms(2) by (auto simp: numeral_eq_Suc length_Suc_conv)
  have "hex4 (h @ x) = Some n" using assms(1) by (simp add: h)
  then show ?thesis
    using assms(2,3) by (subst unquote.simps) (simp add: ch_backslash_def e unicode_escape_def)
qed

lemma scan_unicode:
  assumes "hex4 h \<noteq> None" and "length h = 4"
  shows "scan_string (0x5c # 0x75 # h @ x) = map_option (\<lambda>(s, t). (0x5c # 0x75 # h @ s, t)) (scan_string x)"
proof -
  have e: "simple_escape 0x75 = None" by (simp add: simple_escape_def)
  obtain a b c d where h: "h = [a, b, c, d]" using assms(2) by (auto simp: numeral_eq_Suc length_Suc_conv)
  have "hex4 (h @ x) \<noteq> None" using assms(1) by (simp add: h)
  then show ?thesis using assms(2) by (simp add: json_chars e)
qed

lemma piece_unicode:
  assumes "hex4 h = Some n" and "length h = 4" and "\<not> isSurrogate n"
  shows "piece (0x5c # 0x75 # h) (encode_rune n)"
  using unquote_unicode [OF assms] scan_unicode [of h] assms(1,2) by (intro pieceI) simp_all

lemma piece_simple: "simple_escape e = Some y \<Longrightarrow> piece [0x5c, e] [y]"
  by (intro pieceI) (simp_all add: json_chars unquote_simple)

lemma piece_plain:
  assumes "c < 0x80" and "0x20 \<le> c" and "c \<noteq> ch_quote" and "c \<noteq> ch_backslash"
  shows "piece [c] [c]"
proof (rule pieceI)
  fix x
  have "\<not> c < 0x20" using assms(2) by (simp add: not_less)
  then show "scan_string ([c] @ x) = map_option (\<lambda>(s, t). ([c] @ s, t)) (scan_string x)"
    using assms by simp
  have "utf8_len (c # x) = 1" using assms(1) by (simp add: utf8_len_1)
  then show "unquote ([c] @ x) = [c] @ unquote x"
    using assms(4) by (subst unquote.simps) simp
qed

lemma hex4_control:
  assumes "c < (0x80 :: byte)"
  shows "hex4 [0x30, 0x30, hexDigit (unat c div 16), hexDigit (unat c mod 16)] = Some (unat c)"
proof -
  have "unat c < 128" using assms by (simp add: word_less_nat_alt)
  then have "hexVal (hexDigit (unat c div 16)) = Some (unat c div 16)"
      "hexVal (hexDigit (unat c mod 16)) = Some (unat c mod 16)"
    by (simp_all add: hexVal_hexDigit)
  moreover have "hexVal 0x30 = Some 0" by (simp add: hexVal_def isDigit_def)
  ultimately show ?thesis by simp
qed

lemma encode_rune_ascii: "c < (0x80 :: byte) \<Longrightarrow> encode_rune (unat c) = [c]"
  by (simp add: encode_rune_def word_less_nat_alt)

lemma piece_quote_ascii:
  assumes "c < 0x80"
  shows "piece (quote_ascii c) [c]"
proof -
  have esc: "piece (0x5c # 0x75 # [0x30, 0x30, hexDigit (unat c div 16), hexDigit (unat c mod 16)]) [c]"
  proof -
    have "\<not> isSurrogate (unat c)" using assms by (simp add: isSurrogate_def word_less_nat_alt)
    then show ?thesis
      using piece_unicode [OF hex4_control [OF assms]] encode_rune_ascii [OF assms] by simp
  qed
  have simple: "piece [0x5c, 0x22] [0x22]" "piece [0x5c, 0x5c] [0x5c]" "piece [0x5c, 0x62] [0x08]"
      "piece [0x5c, 0x66] [0x0c]" "piece [0x5c, 0x6e] [0x0a]" "piece [0x5c, 0x72] [0x0d]"
      "piece [0x5c, 0x74] [0x09]"
    by (simp_all add: piece_simple simple_escape_def)
  show ?thesis
    using esc simple piece_plain [OF assms]
    by (auto simp: quote_ascii_def json_chars not_less)
qed

lemma piece_runeError: "piece esc_fffd runeError"
proof -
  have "hex4 [0x66, 0x66, 0x66, 0x64] = Some 0xfffd" by (simp add: hexVal_def isDigit_def)
  from piece_unicode [OF this] show ?thesis
    by (simp add: esc_fffd_def isSurrogate_def encode_rune_def runeError_def)
qed

lemma piece_2028: "piece esc_2028 [0xe2, 0x80, 0xa8]"
proof -
  have "hex4 [0x32, 0x30, 0x32, 0x38] = Some 0x2028" by (simp add: hexVal_def isDigit_def)
  from piece_unicode [OF this] show ?thesis
    by (simp add: esc_2028_def isSurrogate_def encode_rune_def)
qed

lemma piece_2029: "piece esc_2029 [0xe2, 0x80, 0xa9]"
proof -
  have "hex4 [0x32, 0x30, 0x32, 0x39] = Some 0x2029" by (simp add: hexVal_def isDigit_def)
  from piece_unicode [OF this] show ?thesis
    by (simp add: esc_2029_def isSurrogate_def encode_rune_def)
qed

lemma scan_high:
  "(\<forall>c \<in> set p. 0x80 \<le> c) \<Longrightarrow>
   scan_string (p @ x) = map_option (\<lambda>(s, t). (p @ s, t)) (scan_string x)"
proof (induction p)
  case Nil
  show ?case by (cases "scan_string x") auto
next
  case (Cons c p)
  have "0x80 \<le> c" using Cons.prems by simp
  then have "c \<noteq> ch_quote" "c \<noteq> ch_backslash" "\<not> c < 0x20"
    by (auto simp: json_chars word_le_nat_alt word_less_nat_alt)
  then show ?case using Cons by (cases "scan_string x") auto
qed

lemma high_bytes:
  "two b \<Longrightarrow> \<forall>c \<in> set (take 2 b). 0x80 \<le> c"
  "three b \<Longrightarrow> \<forall>c \<in> set (take 3 b). 0x80 \<le> c"
  "four b \<Longrightarrow> \<forall>c \<in> set (take 4 b). 0x80 \<le> c"
proof -
  have le: "(0xc2 :: byte) \<le> a \<or> 0xe0 \<le> a \<or> 0xf0 \<le> a \<Longrightarrow> 0x80 \<le> a" for a
    by (auto simp: word_le_nat_alt)
  show "two b \<Longrightarrow> \<forall>c \<in> set (take 2 b). 0x80 \<le> c"
    using le by (cases b rule: two.cases) (auto simp: cont_def numeral_eq_Suc)
  show "three b \<Longrightarrow> \<forall>c \<in> set (take 3 b). 0x80 \<le> c"
    using le by (cases b rule: three.cases) (auto simp: cont_def numeral_eq_Suc)
  show "four b \<Longrightarrow> \<forall>c \<in> set (take 4 b). 0x80 \<le> c"
    using le by (cases b rule: four.cases) (auto simp: cont_def numeral_eq_Suc)
qed

lemma piece_raw:
  assumes "0 < utf8_len b" and "\<not> hd b < 0x80"
  shows "piece (take (utf8_len b) b) (take (utf8_len b) b)"
proof (rule pieceI)
  fix x
  let ?p = "take (utf8_len b) b"
  have high: "\<forall>c \<in> set ?p. 0x80 \<le> c"
    using assms high_bytes [of b] by (cases b rule: utf8_len_cases) auto
  then show "scan_string (?p @ x) = map_option (\<lambda>(s, t). (?p @ s, t)) (scan_string x)"
    by (rule scan_high)
  have l: "length ?p = utf8_len b" using utf8_len_le [of b] by simp
  then obtain c r where p: "?p = c # r" using assms(1) by (cases ?p) auto
  have "c \<noteq> ch_backslash" using high unfolding p by (auto simp: json_chars word_le_nat_alt)
  then show "unquote (?p @ x) = ?p @ unquote x"
  proof -
    have "unquote (?p @ x) = take (utf8_len b) (?p @ x) @ unquote (drop (utf8_len b) (?p @ x))"
      using utf8_len_append [OF assms(1), of x] assms(1) p \<open>c \<noteq> ch_backslash\<close>
      by (subst unquote.simps) simp
    then show ?thesis using l by simp
  qed
qed

text \<open>Every step of the encoder emits such a piece.\<close>

lemma piece_append: "piece p a \<Longrightarrow> piece q b \<Longrightarrow> piece (p @ q) (a @ b)"
  by (auto simp: piece_def option.map_comp comp_def case_prod_unfold)

lemma piece_Nil: "piece [] []"
  by (simp add: piece_def option.map_id)

lemma piece_quote: "piece (quote b) (coerceUTF8 b)"
proof (induction b rule: quote.induct)
  case (1 b)
  consider "b = []" | "b \<noteq> []" "hd b < 0x80" | "b \<noteq> []" "\<not> hd b < 0x80" "utf8_len b = 0"
    | "b \<noteq> []" "\<not> hd b < 0x80" "0 < utf8_len b" by blast
  then show ?case
  proof cases
    case 1
    then show ?thesis by (simp add: quote.simps piece_Nil)
  next
    case 2
    have "coerceUTF8 b = [hd b] @ coerceUTF8 (tl b)"
      using 2 coerceUTF8_seq [of b "tl b"] utf8_len_1 [OF 2] by (cases b) auto
    moreover have "quote b = quote_ascii (hd b) @ quote (tl b)" using 2 by (subst quote.simps) simp
    ultimately show ?thesis
      using piece_append [OF piece_quote_ascii [OF 2(2)] "1.IH"(1) [OF 2]] by simp
  next
    case 3
    have "coerceUTF8 b = runeError @ coerceUTF8 (tl b)" using 3 by (subst coerceUTF8.simps) simp
    moreover have "quote b = esc_fffd @ quote (tl b)" using 3 by (subst quote.simps) simp
    ultimately show ?thesis
      using piece_append [OF piece_runeError "1.IH"(2) [OF 3]] by simp
  next
    case 4
    let ?n = "utf8_len b"
    have nz: "?n \<noteq> 0" using 4 by simp
    have "coerceUTF8 b = take ?n b @ coerceUTF8 (drop ?n b)" using 4 by (subst coerceUTF8.simps) simp
    moreover have "quote b = quote_rune (take ?n b) @ quote (drop ?n b)" using 4 by (subst quote.simps) simp
    moreover have "piece (quote_rune (take ?n b)) (take ?n b)"
      using piece_raw [OF 4(3,2)] piece_2028 piece_2029 by (auto simp: quote_rune_def)
    ultimately show ?thesis
      using piece_append [OF _ "1.IH"(3) [OF 4(1,2) nz]] by simp
  qed
qed

lemma unquote_Nil [simp]: "unquote [] = []"
  by (simp add: unquote.simps)

lemma unquote_quote [simp]: "unquote (quote b) = coerceUTF8 b"
proof -
  have "unquote (quote b @ []) = coerceUTF8 b @ unquote []"
    using piece_quote [of b] unfolding piece_def by blast
  then show ?thesis by simp
qed

lemma scan_string_quote: "scan_string (quote b @ ch_quote # r) = Some (quote b, r)"
proof -
  have "scan_string (ch_quote # r) = Some ([], r)" by simp
  then show ?thesis using piece_quote [of b] by (auto simp: piece_def)
qed

section \<open>Objects\<close>

text \<open>An encoded value is scanned to its end, whatever follows.\<close>

definition scans :: "json \<Rightarrow> bytes \<Rightarrow> bool" where
  "scans v e \<longleftrightarrow> (\<forall>x. scan_value 1 (e @ x) = Some (v, x))"

lemma skipSpace_nonspace [simp]: "\<not> isSpace c \<Longrightarrow> skipSpace (c # r) = c # r"
  by (simp add: skipSpace_def)

lemma not_space [simp]:
  "\<not> isSpace ch_quote" "\<not> isSpace ch_lbrace" "\<not> isSpace ch_rbrace" "\<not> isSpace ch_comma" "\<not> isSpace ch_colon"
  by (simp_all add: isSpace_def json_chars)

lemma scan_value_quote:
  "scan_value d (ch_quote # r) = map_option (\<lambda>(s, t). (JStr s, t)) (scan_string r)"
proof -
  have "ch_quote \<noteq> ch_lbrace" "ch_quote \<noteq> ch_lbracket" by (simp_all add: json_chars)
  then show ?thesis by (subst scan_value.simps) simp
qed

lemma scans_string: "scans (JStr (quote (bytes_of_string s))) (Marshal_string s)"
  by (simp add: scans_def Marshal_string_def scan_value_quote scan_string_quote)

lemma scans_bool: "scans (JBool b) (Marshal_bool b)"
  by (cases b)
    (simp_all add: scans_def Marshal_bool_def lit_true_def lit_false_def scan_value.simps strip_def
      json_chars isDigit_def isSpace_def)

text \<open>Text without a character that has a meaning in a string literal is scanned as it is.\<close>

definition plain_text :: "bytes \<Rightarrow> bool" where
  "plain_text b \<longleftrightarrow> (\<forall>c \<in> set b. 0x20 \<le> c \<and> c < 0x80 \<and> c \<noteq> ch_quote \<and> c \<noteq> ch_backslash)"

lemma scan_plain: "plain_text b \<Longrightarrow> scan_string (b @ ch_quote # r) = Some (b, r)"
proof (induction b)
  case (Cons c b)
  then have "\<not> c < 0x20" "c \<noteq> ch_quote" "c \<noteq> ch_backslash" by (auto simp: plain_text_def)
  then show ?case using Cons by (simp add: plain_text_def)
qed simp

lemma scans_plain: "plain_text b \<Longrightarrow> scans (JStr b) ([ch_quote] @ b @ [ch_quote])"
  by (simp add: scans_def scan_value_quote scan_plain)

type_synonym member = "string \<times> bytes \<times> json"

definition encoded :: "member list \<Rightarrow> (string \<times> bytes) list" where
  "encoded ms = map (\<lambda>(k, e, v). (k, e)) ms"

definition parsed :: "member list \<Rightarrow> (bytes \<times> json) list" where
  "parsed ms = map (\<lambda>(k, e, v). (quote (bytes_of_string k), v)) ms"

lemma encoded_simps [simp]:
  "encoded [] = []" "encoded ((k, e, v) # ms) = (k, e) # encoded ms"
  by (simp_all add: encoded_def)

lemma parsed_simps [simp]:
  "parsed [] = []" "parsed ((k, e, v) # ms) = (quote (bytes_of_string k), v) # parsed ms"
  by (simp_all add: parsed_def)

lemma scan_key_marshalled:
  "scan_key (Marshal_string k @ ch_colon # x) = Some (quote (bytes_of_string k), x)"
  by (simp add: scan_key_def Marshal_string_def scan_string_quote)

lemma scan_members_join:
  "list_all (\<lambda>(k, e, v). scans v e) ms \<Longrightarrow> ms \<noteq> [] \<Longrightarrow> length ms \<le> n \<Longrightarrow>
   scan_members (scan_value 1) n (join_members (encoded ms) @ ch_rbrace # x) = Some (parsed ms, x)"
proof (induction ms arbitrary: n)
  case (Cons m ms)
  obtain k e v where m: "m = (k, e, v)" by (cases m)
  obtain n' where n: "n = Suc n'" using Cons.prems(3) by (cases n) auto
  have s: "scan_value 1 (e @ y) = Some (v, y)" for y
    using Cons.prems(1) by (simp add: m scans_def)
  have ne: "ch_rbrace \<noteq> ch_comma" by (simp add: json_chars)
  show ?case
  proof (cases ms)
    case Nil
    then show ?thesis
      using scan_key_marshalled [of k "e @ ch_rbrace # x"] s ne by (simp add: m n)
  next
    case (Cons m' ms')
    obtain k' e' v' where m': "m' = (k', e', v')" by (cases m')
    have ih: "scan_members (scan_value 1) n' (join_members (encoded ms) @ ch_rbrace # x) = Some (parsed ms, x)"
      using Cons Cons.IH Cons.prems n by simp
    have "join_members (encoded (m # ms)) = Marshal_string k @ ch_colon # e @ ch_comma # join_members (encoded ms)"
      by (simp add: Cons m m')
    then show ?thesis
      using scan_key_marshalled [of k "e @ ch_comma # join_members (encoded ms) @ ch_rbrace # x"] s ih
      by (simp add: m n)
  qed
qed simp

lemma length_join_members: "length ms \<le> length (join_members ms)"
  by (induction ms rule: join_members.induct) auto

lemma join_members_head: "ms \<noteq> [] \<Longrightarrow> \<exists>r. join_members ms = ch_quote # r"
  by (cases ms rule: join_members.cases) (auto simp: Marshal_string_def)

text \<open>A marshalled struct parses to its fields, and to nothing more.\<close>

lemma scan_value_object:
  assumes "list_all (\<lambda>(k, e, v). scans v e) ms" and "ms \<noteq> []"
  shows "scan_value 0 (Marshal_object (encoded ms) @ x) = Some (JObj (parsed ms), x)"
proof -
  let ?b = "join_members (encoded ms) @ ch_rbrace # x"
  have "length ms \<le> length ?b"
    using length_join_members [of "encoded ms"] by (simp add: encoded_def)
  then have members: "scan_members (scan_value 1) (length ?b) ?b = Some (parsed ms, x)"
    using scan_members_join [OF assms] by blast
  obtain r where "join_members (encoded ms) = ch_quote # r"
    using join_members_head [of "encoded ms"] assms(2) by (auto simp: encoded_def)
  moreover have "ch_quote \<noteq> ch_rbrace" by (simp add: json_chars)
  ultimately have "scan_object 0 (\<lambda>b. scan_value 1 b) ?b = Some (JObj (parsed ms), x)"
    using members by (simp add: scan_object_def maxNestingDepth_def)
  then show ?thesis
    by (subst scan_value.simps) (simp add: Marshal_object_def)
qed

lemma parse_json_object:
  "list_all (\<lambda>(k, e, v). scans v e) ms \<Longrightarrow> ms \<noteq> [] \<Longrightarrow>
   parse_json (Marshal_object (encoded ms)) = Some (JObj (parsed ms))"
  using scan_value_object [of ms "[]"] by (simp add: parse_json_def skipSpace_def)

text \<open>Fields with ASCII names are found under their own name.\<close>

definition ascii_name :: "string \<Rightarrow> bool" where
  "ascii_name k \<longleftrightarrow> (\<forall>c \<in> set k. byte_of_char c < 0x80)"

lemma unquote_name: "ascii_name k \<Longrightarrow> unquote (quote (bytes_of_string k)) = bytes_of_string k"
  by (simp add: ascii_name_def bytes_of_string_def coerceUTF8_ascii)

lemma find_field_name:
  "distinct (map fst fields) \<Longrightarrow> (k, f) \<in> set fields \<Longrightarrow> ascii_name k \<Longrightarrow>
   find_field fields (unquote (quote (bytes_of_string k))) = Some f"
proof -
  assume d: "distinct (map fst fields)" "(k, f) \<in> set fields" and a: "ascii_name k"
  have "find (\<lambda>(n, f). bytes_of_string n = bytes_of_string k) fields = Some (k, f)"
    using d by (induction fields) (auto simp: image_iff)
  then show ?thesis unfolding find_field_def unquote_name [OF a] by simp
qed

end
