(* ===== verification/Session.thy ===== *)
theory Session
  imports Base64 Sha256 Json_Correct
begin

text \<open>
  Session tokens, \<open>internal/session/token.go\<close>: base64url of the JSON claims, a dot, and
  base64url of the HMAC-SHA256 over the first part.  Base64, HMAC and JSON are written out
  in this development; the text of a \<open>time.Time\<close> (RFC 3339 with nanoseconds) is a pair of
  functions.  The signer's clock is a function of the machine's clock, the identity unless
  a test replaces it.
\<close>

section \<open>Data\<close>

datatype session_error = MalformedToken | InvalidSignature | TokenExpired | KeyTooShort | EncodeClaims

record Claims =
  claims_Username :: string
  claims_UVPerformed :: bool
  claims_IssuedAt :: time
  claims_ExpiresAt :: time

record Signer =
  signer_key :: bytes
  signer_now :: "time \<Rightarrow> time"
  signer_ttl :: time

text \<open>\<open>Time.MarshalJSON\<close> without its quotes, and \<open>Time.UnmarshalJSON\<close>.\<close>

record time_text =
  format_time :: "time \<Rightarrow> bytes"
  parse_time :: "bytes \<Rightarrow> time option"

definition zeroClaims :: Claims where
  "zeroClaims = \<lparr>claims_Username = [], claims_UVPerformed = False, claims_IssuedAt = zeroTime,
     claims_ExpiresAt = zeroTime\<rparr>"

definition Claims_fields :: "time_text \<Rightarrow> (string \<times> Claims field_setter) list" where
  "Claims_fields tt = [
     (''username'', set_string (\<lambda>x. claims_Username_update (\<lambda>_. x))),
     (''uv'', set_bool (\<lambda>x. claims_UVPerformed_update (\<lambda>_. x))),
     (''iat'', set_time (parse_time tt) (\<lambda>x. claims_IssuedAt_update (\<lambda>_. x))),
     (''exp'', set_time (parse_time tt) (\<lambda>x. claims_ExpiresAt_update (\<lambda>_. x)))]"

definition Marshal_time :: "time_text \<Rightarrow> time \<Rightarrow> bytes" where
  "Marshal_time tt t = [ch_quote] @ format_time tt t @ [ch_quote]"

definition Marshal_Claims :: "time_text \<Rightarrow> Claims \<Rightarrow> bytes option" where
  "Marshal_Claims tt c =
     (if json_time_ok (claims_IssuedAt c) \<and> json_time_ok (claims_ExpiresAt c) then
        Some (Marshal_object [
          (''username'', Marshal_string (claims_Username c)),
          (''uv'', Marshal_bool (claims_UVPerformed c)),
          (''iat'', Marshal_time tt (claims_IssuedAt c)),
          (''exp'', Marshal_time tt (claims_ExpiresAt c))])
      else None)"

section \<open>The signer\<close>

definition NewSigner :: "bytes \<Rightarrow> time \<Rightarrow> session_error + Signer" where
  "NewSigner key ttl =
     (if length key < 32 then Inl KeyTooShort
      else Inr \<lparr>signer_key = key, signer_now = (\<lambda>t. t), signer_ttl = ttl\<rparr>)"

definition sign :: "Signer \<Rightarrow> string \<Rightarrow> bytes" where
  "sign s payloadB64 = hmac_sha256 (signer_key s) (bytes_of_string payloadB64)"

definition session_Issue ::
    "time_text \<Rightarrow> Signer \<Rightarrow> string \<Rightarrow> bool \<Rightarrow> time \<Rightarrow> session_error + string" where
  "session_Issue tt s username uvPerformed clock =
     (let now = signer_now s clock;
          claims = \<lparr>claims_Username = username, claims_UVPerformed = uvPerformed,
            claims_IssuedAt = now, claims_ExpiresAt = now + signer_ttl s\<rparr>
      in
      bindE (someOr (Marshal_Claims tt claims) EncodeClaims) (\<lambda>payload.
      let payloadB64 = RawURLEncoding_EncodeToString payload in
      Inr (payloadB64 @ ''.'' @ RawURLEncoding_EncodeToString (sign s payloadB64))))"

text \<open>\<open>strings.LastIndexByte\<close> and the two slices around it.\<close>

definition split_last_dot :: "string \<Rightarrow> (string \<times> string) option" where
  "split_last_dot token =
     (if CHR ''.'' \<in> set token
      then Some (rev (tl (dropWhile (\<lambda>c. c \<noteq> CHR ''.'') (rev token))),
                 rev (takeWhile (\<lambda>c. c \<noteq> CHR ''.'') (rev token)))
      else None)"

definition Verify :: "time_text \<Rightarrow> Signer \<Rightarrow> string \<Rightarrow> time \<Rightarrow> session_error + Claims" where
  "Verify tt s token clock =
     bindE (someOr (split_last_dot token) MalformedToken) (\<lambda>(payloadB64, macB64).
     bindE (someOr (RawURLEncoding_DecodeString macB64) MalformedToken) (\<lambda>gotMAC.
     let wantMAC = sign s payloadB64 in
     bindE (failIf (ConstantTimeCompare gotMAC wantMAC \<noteq> 1) InvalidSignature) (\<lambda>_.
     bindE (someOr (RawURLEncoding_DecodeString payloadB64) MalformedToken) (\<lambda>payload.
     bindE (someOr (Unmarshal (Claims_fields tt) zeroClaims payload) MalformedToken) (\<lambda>claims.
     bindE (failIf (claims_ExpiresAt claims < signer_now s clock) TokenExpired) (\<lambda>_.
     Inr claims))))))"

section \<open>Facts\<close>

lemma split_last_dot_append:
  "CHR ''.'' \<notin> set m \<Longrightarrow> split_last_dot (p @ ''.'' @ m) = Some (p, m)"
proof -
  assume m: "CHR ''.'' \<notin> set m"
  have tw: "takeWhile (\<lambda>c. c \<noteq> CHR ''.'') (rev m @ CHR ''.'' # rev p) = rev m"
    using m by (subst takeWhile_append2) auto
  have dw: "dropWhile (\<lambda>c. c \<noteq> CHR ''.'') (rev m @ CHR ''.'' # rev p) = CHR ''.'' # rev p"
    using m by (subst dropWhile_append2) auto
  show ?thesis by (simp add: split_last_dot_def tw dw)
qed

lemma split_last_dot_Some:
  "split_last_dot t = Some (p, m) \<longleftrightarrow> t = p @ ''.'' @ m \<and> CHR ''.'' \<notin> set m"
proof
  assume s: "split_last_dot t = Some (p, m)"
  then have "CHR ''.'' \<in> set t" by (auto simp: split_last_dot_def split: if_splits)
  then obtain p' m' where t: "t = p' @ CHR ''.'' # m'" "CHR ''.'' \<notin> set m'"
    using split_list_last by fastforce
  then show "t = p @ ''.'' @ m \<and> CHR ''.'' \<notin> set m"
    using s split_last_dot_append [of m' p'] by simp
next
  assume "t = p @ ''.'' @ m \<and> CHR ''.'' \<notin> set m"
  then show "split_last_dot t = Some (p, m)" using split_last_dot_append [of m p] by blast
qed

lemma Verify_iff:
  "Verify tt s token clock = Inr c \<longleftrightarrow>
     (\<exists>payloadB64 macB64 payload.
        token = payloadB64 @ ''.'' @ macB64 \<and> CHR ''.'' \<notin> set macB64 \<and>
        RawURLEncoding_DecodeString macB64 = Some (sign s payloadB64) \<and>
        RawURLEncoding_DecodeString payloadB64 = Some payload \<and>
        Unmarshal (Claims_fields tt) zeroClaims payload = Some c \<and>
        signer_now s clock \<le> claims_ExpiresAt c)"
  by (auto simp: Verify_def result_simps Let_def split_last_dot_Some not_less)

text \<open>What the documentation of \<open>time.Time\<close> promises for years 0 to 9999.\<close>

definition time_text_ok :: "time_text \<Rightarrow> bool" where
  "time_text_ok tt \<longleftrightarrow>
     (\<forall>t. json_time_ok t \<longrightarrow> plain_text (format_time tt t) \<and> parse_time tt (format_time tt t) = Some t)"

lemma no_dot: "CHR ''.'' \<notin> set (RawURLEncoding_EncodeToString b)"
proof -
  have "set (RawURLEncoding_EncodeToString b) \<subseteq> set url_alphabet"
    using sextets_less [of b] by (auto simp: RawURLEncoding_EncodeToString_def list_all_iff)
  moreover have "CHR ''.'' \<notin> set url_alphabet" by (simp add: url_alphabet_def b64_common_def)
  ultimately show ?thesis by blast
qed

definition issued_claims :: "Signer \<Rightarrow> string \<Rightarrow> bool \<Rightarrow> time \<Rightarrow> Claims" where
  "issued_claims s u uv clock =
     \<lparr>claims_Username = u, claims_UVPerformed = uv, claims_IssuedAt = signer_now s clock,
      claims_ExpiresAt = signer_now s clock + signer_ttl s\<rparr>"

lemma Unmarshal_Marshal_Claims:
  assumes tt: "time_text_ok tt" and m: "Marshal_Claims tt c = Some b"
  shows "Unmarshal (Claims_fields tt) zeroClaims b =
    Some (c\<lparr>claims_Username := coerceString (claims_Username c)\<rparr>)"
proof -
  let ?ms = "[(''username'', Marshal_string (claims_Username c), JStr (quote (bytes_of_string (claims_Username c)))),
    (''uv'', Marshal_bool (claims_UVPerformed c), JBool (claims_UVPerformed c)),
    (''iat'', Marshal_time tt (claims_IssuedAt c), JStr (format_time tt (claims_IssuedAt c))),
    (''exp'', Marshal_time tt (claims_ExpiresAt c), JStr (format_time tt (claims_ExpiresAt c)))]"
  have ok: "json_time_ok (claims_IssuedAt c)" "json_time_ok (claims_ExpiresAt c)"
    and b: "b = Marshal_object (encoded ?ms)"
    using m by (auto simp: Marshal_Claims_def split: if_splits)
  have t: "parse_time tt (format_time tt x) = Some x" "plain_text (format_time tt x)" if "json_time_ok x" for x
    using tt that by (auto simp: time_text_ok_def)
  have "list_all (\<lambda>(k, e, v). scans v e) ?ms"
    using scans_plain [OF t(2) [OF ok(1)]] scans_plain [OF t(2) [OF ok(2)]]
    by (simp add: scans_string scans_bool Marshal_time_def)
  then have "parse_json b = Some (JObj (parsed ?ms))"
    unfolding b by (rule parse_json_object) simp
  moreover have "find_field (Claims_fields tt) (unquote (quote (bytes_of_string ''username''))) =
        Some (set_string (\<lambda>x. claims_Username_update (\<lambda>_. x)))"
      "find_field (Claims_fields tt) (unquote (quote (bytes_of_string ''uv''))) =
        Some (set_bool (\<lambda>x. claims_UVPerformed_update (\<lambda>_. x)))"
      "find_field (Claims_fields tt) (unquote (quote (bytes_of_string ''iat''))) =
        Some (set_time (parse_time tt) (\<lambda>x. claims_IssuedAt_update (\<lambda>_. x)))"
      "find_field (Claims_fields tt) (unquote (quote (bytes_of_string ''exp''))) =
        Some (set_time (parse_time tt) (\<lambda>x. claims_ExpiresAt_update (\<lambda>_. x)))"
    by (rule find_field_name; simp add: Claims_fields_def ascii_name_def byte_of_char_def)+
  ultimately show ?thesis
    using t(1) [OF ok(1)] t(1) [OF ok(2)]
    by (cases c) (simp add: Unmarshal_def set_struct_def set_string_def set_bool_def set_time_def
        coerceString_def zeroClaims_def del: unquote_quote, simp)
qed

lemma session_Issue_token:
  assumes "session_Issue tt s u uv clock = Inr token"
  shows "\<exists>payload. Marshal_Claims tt (issued_claims s u uv clock) = Some payload \<and>
    token = RawURLEncoding_EncodeToString payload @ ''.'' @
      RawURLEncoding_EncodeToString (sign s (RawURLEncoding_EncodeToString payload))"
  using assms by (auto simp: session_Issue_def issued_claims_def result_simps Let_def)

lemma Verify_Issue:
  assumes tt: "time_text_ok tt" and issue: "session_Issue tt s u uv clock = Inr token"
  shows "Verify tt s token clock' =
    (if signer_now s clock + signer_ttl s < signer_now s clock' then Inl TokenExpired
     else Inr (issued_claims s (coerceString u) uv clock))"
proof -
  obtain payload where p: "Marshal_Claims tt (issued_claims s u uv clock) = Some payload"
    and token: "token = RawURLEncoding_EncodeToString payload @ ''.'' @
      RawURLEncoding_EncodeToString (sign s (RawURLEncoding_EncodeToString payload))"
    using session_Issue_token [OF issue] by blast
  have "split_last_dot token = Some (RawURLEncoding_EncodeToString payload,
      RawURLEncoding_EncodeToString (sign s (RawURLEncoding_EncodeToString payload)))"
    unfolding token by (rule split_last_dot_append [OF no_dot])
  then show ?thesis
    using Unmarshal_Marshal_Claims [OF tt p]
    by (simp add: Verify_def Let_def issued_claims_def failIf_def)
qed

section \<open>Properties\<close>

text \<open>
  A concrete pair for the text of a time: a sign and the digits of the number of
  nanoseconds, which has the two documented properties.
\<close>

fun digits :: "nat \<Rightarrow> nat \<Rightarrow> bytes" where
  "digits 0 n = []"
| "digits (Suc k) n = digits k (n div 10) @ [of_nat (48 + n mod 10)]"

definition undigits :: "bytes \<Rightarrow> nat" where
  "undigits b = foldl (\<lambda>n c. n * 10 + (unat c - 48)) 0 b"

definition decimal_text :: time_text where
  "decimal_text = \<lparr>
     format_time = (\<lambda>t. (if t < 0 then 0x2d else 0x2b) # digits 21 (nat \<bar>t\<bar>)),
     parse_time = (\<lambda>b. case b of [] \<Rightarrow> None
       | s # d \<Rightarrow> Some (if s = 0x2d then - int (undigits d) else int (undigits d)))\<rparr>"

lemma digit_range: "n < 10 \<Longrightarrow> (48 :: nat) + n < 256"
  by simp

lemma undigits_digits: "undigits (digits k n) = n mod 10 ^ k"
proof (induction k arbitrary: n)
  case 0
  then show ?case by (simp add: undigits_def)
next
  case (Suc k)
  have u: "unat (of_nat (48 + n mod 10) :: byte) = 48 + n mod 10"
    by (simp only: unat_of_nat_byte) simp
  have "undigits (digits (Suc k) n) = undigits (digits k (n div 10)) * 10 + (48 + n mod 10 - 48)"
    by (simp add: undigits_def u del: of_nat_add)
  also have "\<dots> = n div 10 mod 10 ^ k * 10 + n mod 10" by (simp add: Suc.IH)
  also have "\<dots> = n mod 10 ^ Suc k" by (simp add: mod_mult2_eq)
  finally show ?case .
qed

lemma plain_digits: "plain_text (digits k n)"
proof (induction k arbitrary: n)
  case (Suc k)
  have u: "unat (of_nat (48 + n mod 10) :: byte) = 48 + n mod 10"
    by (simp only: unat_of_nat_byte) simp
  have d: "n mod 10 < 10" by simp
  then have d: "n mod 10 < 80 \<and> n mod 10 \<noteq> 44" by linarith
  have "plain_text [of_nat (48 + n mod 10)]"
    using u d by (simp add: plain_text_def json_chars word_le_nat_alt word_less_nat_alt
        word_unat_eq_iff del: of_nat_add)
  then show ?case using Suc by (auto simp: plain_text_def)
qed (simp add: plain_text_def)

lemma decimal_text_ok: "time_text_ok decimal_text"
proof -
  have "nat \<bar>t\<bar> < 10 ^ 21" if "json_time_ok t" for t
    using that by (auto simp: json_time_ok_def second_def)
  then have u: "undigits (digits 21 (nat \<bar>t\<bar>)) = nat \<bar>t\<bar>" if "json_time_ok t" for t
    using that by (simp add: undigits_digits)
  have "plain_text (0x2d # digits 21 n)" "plain_text (0x2b # digits 21 n)" for n
    using plain_digits [of 21 n] by (auto simp: plain_text_def json_chars)
  then show ?thesis using u by (simp add: time_text_ok_def decimal_text_def)
qed

text \<open>
  C38: A token that the signer issued verifies under the same key until its lifetime is over
  and yields the claims it was issued with (the name with malformed UTF-8 replaced);
  afterwards it is refused as expired.
\<close>

theorem token_roundtrip:
  assumes "time_text_ok tt" and "session_Issue tt s u uv clock = Inr token"
  shows "Verify tt s token clock' =
    (if signer_now s clock + signer_ttl s < signer_now s clock' then Inl TokenExpired
     else Inr \<lparr>claims_Username = coerceString u, claims_UVPerformed = uv,
       claims_IssuedAt = signer_now s clock, claims_ExpiresAt = signer_now s clock + signer_ttl s\<rparr>)"
  using Verify_Issue [OF assms] by (simp add: issued_claims_def)

theorem token_roundtrip_witness:
  "\<exists>token. Verify decimal_text \<lparr>signer_key = replicate 32 7, signer_now = (\<lambda>t. t), signer_ttl = 5\<rparr> token 3 =
     Inr \<lparr>claims_Username = ''a'', claims_UVPerformed = True, claims_IssuedAt = 0, claims_ExpiresAt = 5\<rparr>"
proof -
  let ?s = "\<lparr>signer_key = replicate 32 7, signer_now = (\<lambda>t. t), signer_ttl = 5\<rparr> :: Signer"
  have "\<exists>token. session_Issue decimal_text ?s ''a'' True 0 = Inr token"
    by (simp add: session_Issue_def Marshal_Claims_def json_time_ok_def second_def Let_def)
  then obtain token where "session_Issue decimal_text ?s ''a'' True 0 = Inr token" by blast
  from token_roundtrip [OF decimal_text_ok this, of 3] show ?thesis
    by (auto simp: coerceString_ascii byte_of_char_def)
qed

text \<open>
  C37: Whatever bytes a client sends as a token, it is accepted exactly when what follows its
  last dot decodes to the HMAC, under the server's own key, of everything before it, and
  what is before it decodes to claims that have not expired.
\<close>

theorem token_accepted_only_with_mac:
  "Verify tt s token clock = Inr c \<longleftrightarrow>
     (\<exists>payloadB64 macB64 payload.
        token = payloadB64 @ ''.'' @ macB64 \<and> CHR ''.'' \<notin> set macB64 \<and>
        RawURLEncoding_DecodeString macB64 =
          Some (hmac_sha256 (signer_key s) (bytes_of_string payloadB64)) \<and>
        RawURLEncoding_DecodeString payloadB64 = Some payload \<and>
        Unmarshal (Claims_fields tt) zeroClaims payload = Some c \<and>
        signer_now s clock \<le> claims_ExpiresAt c)"
  by (simp only: Verify_iff sign_def)

end
