(* ===== verification/Cbor.thy ===== *)
theory Cbor
  imports Prelude
begin

unbundle bit_operations_syntax

text \<open>
  The decoder of \<open>internal/cbor/decode.go\<close>: the CTAP2 canonical subset of CBOR.  The
  sentinel errors are the constructors of \<open>cbor_error\<close>; the offsets and lengths that
  \<open>fmt.Errorf\<close> adds to the messages are not modelled, since every caller looks at the
  sentinel only.  The decoder's \<open>depth\<close> field, which \<open>decodeArray\<close> and \<open>decodeMap\<close>
  increment before and decrement after their loop, is the first argument of
  \<open>decodeValue\<close>: inside the loop every item is decoded at \<open>depth + 1\<close>, and after an
  error the decoder is not used again.
\<close>

section \<open>Data\<close>

datatype MajorType =
  TypeUint | TypeNegInt | TypeBytes | TypeText | TypeArray | TypeMap | TypeBool | TypeNull

definition MaxDepth :: nat where "MaxDepth = 8"
definition MaxElements :: nat where "MaxElements = 10000"
definition MaxInputSize :: nat where "MaxInputSize = 2 ^ 20"
definition MaxInt64 :: "64 word" where "MaxInt64 = 2 ^ 63 - 1"

datatype cbor_error =
    CborTruncated | CborNonCanonical | CborUnsupported | CborDepth
  | CborTooManyElements | CborInputTooLarge | CborMapOrder | CborDuplicateKey

text \<open>
  A Go \<open>Value\<close> is a struct of which only the fields that match \<open>Type\<close> are set; the
  datatype has one constructor for each \<open>Type\<close>, and the accessors below give the zero
  value for the fields a constructor does not set.
\<close>

datatype cbor_value =
    VUint int
  | VNegInt int
  | VBytes bytes
  | VText string
  | VArray "cbor_value list"
  | VMap "(cbor_value \<times> cbor_value) list"
  | VBool bool
  | VNull

fun Value_Type :: "cbor_value \<Rightarrow> MajorType" where
  "Value_Type (VUint _) = TypeUint"
| "Value_Type (VNegInt _) = TypeNegInt"
| "Value_Type (VBytes _) = TypeBytes"
| "Value_Type (VText _) = TypeText"
| "Value_Type (VArray _) = TypeArray"
| "Value_Type (VMap _) = TypeMap"
| "Value_Type (VBool _) = TypeBool"
| "Value_Type VNull = TypeNull"

fun Value_Int :: "cbor_value \<Rightarrow> int" where
  "Value_Int (VUint i) = i"
| "Value_Int (VNegInt i) = i"
| "Value_Int _ = 0"

fun Value_Bytes :: "cbor_value \<Rightarrow> bytes" where
  "Value_Bytes (VBytes b) = b"
| "Value_Bytes _ = []"

fun Value_Text :: "cbor_value \<Rightarrow> string" where
  "Value_Text (VText s) = s"
| "Value_Text _ = []"

fun Value_Array :: "cbor_value \<Rightarrow> cbor_value list" where
  "Value_Array (VArray vs) = vs"
| "Value_Array _ = []"

fun Value_Map :: "cbor_value \<Rightarrow> (cbor_value \<times> cbor_value) list" where
  "Value_Map (VMap es) = es"
| "Value_Map _ = []"

definition is_int_value :: "cbor_value \<Rightarrow> bool" where
  "is_int_value v \<longleftrightarrow> Value_Type v = TypeUint \<or> Value_Type v = TypeNegInt"

fun mapFindInt :: "(cbor_value \<times> cbor_value) list \<Rightarrow> int \<Rightarrow> cbor_value option" where
  "mapFindInt [] key = None"
| "mapFindInt ((k, v) # es) key =
     (if is_int_value k \<and> Value_Int k = key then Some v else mapFindInt es key)"

definition MapGetInt :: "cbor_value \<Rightarrow> int \<Rightarrow> cbor_value option" where
  "MapGetInt v key = mapFindInt (Value_Map v) key"

fun mapFindText :: "(cbor_value \<times> cbor_value) list \<Rightarrow> string \<Rightarrow> cbor_value option" where
  "mapFindText [] key = None"
| "mapFindText ((k, v) # es) key =
     (if Value_Type k = TypeText \<and> Value_Text k = key then Some v else mapFindText es key)"

definition MapGetText :: "cbor_value \<Rightarrow> string \<Rightarrow> cbor_value option" where
  "MapGetText v key = mapFindText (Value_Map v) key"

section \<open>The decoder\<close>

record decoder =
  buf :: bytes
  pos :: nat
  elems :: nat

type_synonym 'a decoding = "decoder \<Rightarrow> cbor_error + 'a \<times> decoder"

definition readByte :: "byte decoding" where
  "readByte d =
     (if length (buf d) \<le> pos d then Inl CborTruncated
      else Inr (buf d ! pos d, d\<lparr>pos := pos d + 1\<rparr>))"

definition readN :: "int \<Rightarrow> bytes decoding" where
  "readN n d =
     (if n < 0 \<or> int (pos d) + n > int (length (buf d)) then Inl CborTruncated
      else Inr (take (nat n) (drop (pos d) (buf d)), d\<lparr>pos := pos d + nat n\<rparr>))"

definition readInitialByte :: "(byte \<times> byte) decoding" where
  "readInitialByte d =
     bindE (readByte d) (\<lambda>(b, d). Inr ((drop_bit 5 b, b AND 0x1f), d))"

text \<open>The three wide forms share one check: a value that fits a shorter form is refused.\<close>

definition readWide :: "nat \<Rightarrow> 64 word \<Rightarrow> (64 word) decoding" where
  "readWide n lim d =
     bindE (readN (int n) d) (\<lambda>(bs, d).
       let v = of_nat (be_nat bs) :: 64 word
       in if v \<le> lim then Inl CborNonCanonical else Inr (v, d))"

definition readArgument :: "byte \<Rightarrow> (64 word) decoding" where
  "readArgument ai d =
     (if ai < 24 then Inr (ucast ai, d)
      else if ai = 24 then
        bindE (readN 1 d) (\<lambda>(bs, d).
          let v = ucast (bs ! 0) :: 64 word
          in if v < 24 then Inl CborNonCanonical else Inr (v, d))
      else if ai = 25 then readWide 2 0xff d
      else if ai = 26 then readWide 4 0xffff d
      else if ai = 27 then readWide 8 0xffffffff d
      else Inl CborUnsupported)"

definition decodeSimple :: "byte \<Rightarrow> cbor_value decoding" where
  "decodeSimple ai d =
     (if ai = 20 then Inr (VBool False, d)
      else if ai = 21 then Inr (VBool True, d)
      else if ai = 22 then Inr (VNull, d)
      else if ai = 24 then bindE (readN 1 d) (\<lambda>_. Inl CborUnsupported)
      else if ai = 25 then bindE (readN 2 d) (\<lambda>_. Inl CborUnsupported)
      else if ai = 26 then bindE (readN 4 d) (\<lambda>_. Inl CborUnsupported)
      else if ai = 27 then bindE (readN 8 d) (\<lambda>_. Inl CborUnsupported)
      else Inl CborUnsupported)"

fun bytesCompare :: "bytes \<Rightarrow> bytes \<Rightarrow> int" where
  "bytesCompare [] [] = 0"
| "bytesCompare [] (_ # _) = -1"
| "bytesCompare (_ # _) [] = 1"
| "bytesCompare (a # as) (b # bs) =
     (if a < b then -1 else if b < a then 1 else bytesCompare as bs)"

definition canonicalCompare :: "bytes \<Rightarrow> bytes \<Rightarrow> int" where
  "canonicalCompare a b =
     (if length a \<noteq> length b then (if length a < length b then -1 else 1)
      else bytesCompare a b)"

text \<open>The loop of \<open>decodeArray\<close>, over the decoder of one item.\<close>

fun decodeItems :: "cbor_value decoding \<Rightarrow> nat \<Rightarrow> cbor_value list decoding" where
  "decodeItems dv 0 d = Inr ([], d)"
| "decodeItems dv (Suc n) d =
     bindE (dv d) (\<lambda>(v, d).
     bindE (decodeItems dv n d) (\<lambda>(vs, d). Inr (v # vs, d)))"

definition decodeArray :: "nat \<Rightarrow> cbor_value decoding \<Rightarrow> 64 word \<Rightarrow> cbor_value decoding" where
  "decodeArray depth dv n d =
     (if MaxDepth \<le> depth then Inl CborDepth
      else bindE (decodeItems dv (unat n) d) (\<lambda>(items, d). Inr (VArray items, d)))"

text \<open>
  The loop of \<open>decodeMap\<close>: the entries, and beside each the bytes its key was decoded
  from (\<open>keySpans\<close>).
\<close>

fun decodeEntries ::
    "cbor_value decoding \<Rightarrow> nat \<Rightarrow> ((cbor_value \<times> cbor_value) \<times> bytes) list decoding" where
  "decodeEntries dv 0 d = Inr ([], d)"
| "decodeEntries dv (Suc n) d =
     bindE (dv d) (\<lambda>(k, d1).
     bindE (dv d1) (\<lambda>(v, d2).
     bindE (decodeEntries dv n d2) (\<lambda>(es, d3).
       Inr (((k, v), take (pos d1 - pos d) (drop (pos d) (buf d1))) # es, d3))))"

fun checkKeyOrder :: "bytes list \<Rightarrow> cbor_error + unit" where
  "checkKeyOrder (a # b # ks) =
     (let c = canonicalCompare a b
      in if c = 0 then Inl CborDuplicateKey
         else if c = 1 then Inl CborMapOrder
         else checkKeyOrder (b # ks))"
| "checkKeyOrder _ = Inr ()"

definition decodeMap :: "nat \<Rightarrow> cbor_value decoding \<Rightarrow> 64 word \<Rightarrow> cbor_value decoding" where
  "decodeMap depth dv n d =
     (if MaxDepth \<le> depth then Inl CborDepth
      else bindE (decodeEntries dv (unat n) d) (\<lambda>(es, d).
           bindE (checkKeyOrder (map snd es)) (\<lambda>_. Inr (VMap (map fst es), d))))"

lemma meta_ext_fun: "(\<And>x. f x = g x) \<Longrightarrow> f = g"
  by (rule ext)

text \<open>Both loops decode their items only when the depth check has passed.\<close>

lemma decodeArray_cong [fundef_cong]:
  "depth = depth' \<Longrightarrow> n = n' \<Longrightarrow> d = d' \<Longrightarrow> (\<And>x. depth' < MaxDepth \<Longrightarrow> dv x = dv' x)
    \<Longrightarrow> decodeArray depth dv n d = decodeArray depth' dv' n' d'"
  by (cases "MaxDepth \<le> depth") (auto simp: decodeArray_def not_le dest!: meta_ext_fun)

lemma decodeMap_cong [fundef_cong]:
  "depth = depth' \<Longrightarrow> n = n' \<Longrightarrow> d = d' \<Longrightarrow> (\<And>x. depth' < MaxDepth \<Longrightarrow> dv x = dv' x)
    \<Longrightarrow> decodeMap depth dv n d = decodeMap depth' dv' n' d'"
  by (cases "MaxDepth \<le> depth") (auto simp: decodeMap_def not_le dest!: meta_ext_fun)

text \<open>Major types 2 and 3 read a string of \<open>arg\<close> bytes, which must all be there.\<close>

definition readString :: "64 word \<Rightarrow> bytes decoding" where
  "readString arg d =
     (if (of_nat (length (buf d) - pos d) :: 64 word) < arg then Inl CborTruncated
      else readN (uint arg) d)"

text \<open>The switch on the major type, after the argument has been read.\<close>

definition decodeMajor ::
    "nat \<Rightarrow> cbor_value decoding \<Rightarrow> byte \<Rightarrow> 64 word \<Rightarrow> cbor_value decoding" where
  "decodeMajor depth dv major arg d =
     (if major = 0 then
        (if MaxInt64 < arg then Inl CborUnsupported else Inr (VUint (sint arg), d))
      else if major = 1 then
        (if MaxInt64 < arg then Inl CborUnsupported else Inr (VNegInt (-1 - sint arg), d))
      else if major = 2 then bindE (readString arg d) (\<lambda>(b, d). Inr (VBytes b, d))
      else if major = 3 then
        bindE (readString arg d) (\<lambda>(b, d). Inr (VText (string_of_bytes b), d))
      else if major = 4 then decodeArray depth dv arg d
      else if major = 5 then decodeMap depth dv arg d
      else Inl CborUnsupported)"

lemma decodeMajor_cong [fundef_cong]:
  "depth = depth' \<Longrightarrow> major = major' \<Longrightarrow> arg = arg' \<Longrightarrow> d = d' \<Longrightarrow>
   (\<And>x. depth' < MaxDepth \<Longrightarrow> dv x = dv' x) \<Longrightarrow>
   decodeMajor depth dv major arg d = decodeMajor depth' dv' major' arg' d'"
  unfolding decodeMajor_def by (simp cong: decodeArray_cong decodeMap_cong)

function decodeValue :: "nat \<Rightarrow> cbor_value decoding" where
  "decodeValue depth d0 =
     (let d = d0\<lparr>elems := elems d0 + 1\<rparr> in
      if MaxElements < elems d then Inl CborTooManyElements
      else
        bindE (readInitialByte d) (\<lambda>((major, ai), d).
        if major = 7 then decodeSimple ai d
        else
          bindE (readArgument ai d) (\<lambda>(arg, d).
          decodeMajor depth (\<lambda>d. decodeValue (depth + 1) d) major arg d)))"
  by pat_completeness auto
termination
  by (relation "measure (\<lambda>(depth, d). MaxDepth - depth)") auto

declare decodeValue.simps [simp del]

definition Decode :: "bytes \<Rightarrow> cbor_error + cbor_value \<times> nat" where
  "Decode b =
     (if MaxInputSize < length b then Inl CborInputTooLarge
      else bindE (decodeValue 0 \<lparr>buf = b, pos = 0, elems = 0\<rparr>) (\<lambda>(v, d). Inr (v, pos d)))"

end
