(* ===== verification/Cbor_Encode.thy ===== *)
theory Cbor_Encode
  imports Cbor
begin

unbundle bit_operations_syntax

text \<open>
  The encoder of \<open>internal/cbortest/encode.go\<close>, which builds the test fixtures, and its
  composition over a whole value (\<open>encode_value\<close>).  The shipped binary never encodes
  CBOR; the encoder serves here as the specification of the deterministic encoding that
  the decoder must accept, and accept exclusively.
\<close>

section \<open>The encoder\<close>

definition encodeHeader :: "byte \<Rightarrow> 64 word \<Rightarrow> bytes" where
  "encodeHeader major arg =
     (let b = push_bit 5 major in
      if arg < 24 then [b OR ucast arg]
      else if arg \<le> 0xff then [b OR 24, ucast arg]
      else if arg \<le> 0xffff then (b OR 25) # be_bytes 2 (unat arg)
      else if arg \<le> 0xffffffff then (b OR 26) # be_bytes 4 (unat arg)
      else (b OR 27) # be_bytes 8 (unat arg))"

definition Uint :: "64 word \<Rightarrow> bytes" where
  "Uint n = encodeHeader 0 n"

text \<open>\<open>NegInt\<close> panics on a value that is not negative: \<open>None\<close>.\<close>

definition NegInt :: "int \<Rightarrow> bytes option" where
  "NegInt v = (if 0 \<le> v then None else Some (encodeHeader 1 (of_int (-1 - v))))"

definition Bytes :: "bytes \<Rightarrow> bytes" where
  "Bytes b = encodeHeader 2 (of_nat (length b)) @ b"

definition Text :: "string \<Rightarrow> bytes" where
  "Text s = encodeHeader 3 (of_nat (length s)) @ bytes_of_string s"

definition Array :: "bytes list \<Rightarrow> bytes" where
  "Array items = encodeHeader 4 (of_nat (length items)) @ concat items"

text \<open>An \<open>Entry\<close> is a pair of an encoded key and an encoded value.\<close>

type_synonym Entry = "bytes \<times> bytes"

definition Map :: "Entry list \<Rightarrow> bytes" where
  "Map entries =
     encodeHeader 5 (of_nat (length entries)) @ concat (map (\<lambda>(k, v). k @ v) entries)"

definition Bool :: "bool \<Rightarrow> bytes" where
  "Bool b = (if b then [0xf5] else [0xf4])"

definition Null :: bytes where
  "Null = [0xf6]"

section \<open>Whole values\<close>

text \<open>
  The encoding of a decoded value, composed from the functions above.  On a negative
  integer that is out of range \<open>NegInt\<close> has no result; such a value is not \<open>canonical\<close>
  below.
\<close>

fun encode_value :: "cbor_value \<Rightarrow> bytes" where
  "encode_value (VUint i) = Uint (of_int i)"
| "encode_value (VNegInt i) = (case NegInt i of Some b \<Rightarrow> b | None \<Rightarrow> [])"
| "encode_value (VBytes b) = Bytes b"
| "encode_value (VText s) = Text s"
| "encode_value (VArray vs) = Array (map encode_value vs)"
| "encode_value (VMap es) = Map (map (\<lambda>(k, v). (encode_value k, encode_value v)) es)"
| "encode_value (VBool b) = Bool b"
| "encode_value VNull = Null"

text \<open>Nesting depth and number of items, the two quantities the decoder bounds.\<close>

fun value_depth :: "cbor_value \<Rightarrow> nat" where
  "value_depth (VArray vs) = Suc (Max (set (0 # map value_depth vs)))"
| "value_depth (VMap es) =
     Suc (Max (set (0 # map (\<lambda>(k, v). max (value_depth k) (value_depth v)) es)))"
| "value_depth _ = 0"

fun value_count :: "cbor_value \<Rightarrow> nat" where
  "value_count (VArray vs) = Suc (sum_list (map value_count vs))"
| "value_count (VMap es) = Suc (sum_list (map (\<lambda>(k, v). value_count k + value_count v) es))"
| "value_count _ = 1"

text \<open>
  Encoded keys in the order of RFC 8949 section 4.2.1, as an instance of the library's
  linear orders, so that sortedness and distinctness come from the library.
\<close>

datatype key_span = KeySpan (span: bytes)

lemma bytesCompare_0 [simp]: "length a = length b \<Longrightarrow> bytesCompare a b = 0 \<longleftrightarrow> a = b"
  by (induction a b rule: bytesCompare.induct) auto

lemma bytesCompare_range: "bytesCompare a b \<in> {-1, 0, 1}"
  by (induction a b rule: bytesCompare.induct) auto

lemma bytesCompare_sym: "bytesCompare b a = - bytesCompare a b"
  by (induction a b rule: bytesCompare.induct) auto

lemma bytesCompare_trans:
  "length a = length b \<Longrightarrow> length b = length c \<Longrightarrow>
   bytesCompare a b \<noteq> 1 \<Longrightarrow> bytesCompare b c \<noteq> 1 \<Longrightarrow> bytesCompare a c \<noteq> 1"
proof (induction a b arbitrary: c rule: bytesCompare.induct)
  case (4 x a y b)
  then obtain z c' where c: "c = z # c'" by (cases c) auto
  consider "x < y" | "x = y" | "y < x" by (rule linorder_cases)
  then show ?case
  proof cases
    case 1
    then have "x < z" using 4 by (auto simp: c split: if_splits)
    then show ?thesis by (simp add: c)
  qed (use 4 in \<open>auto simp: c split: if_splits\<close>)
qed auto

lemma canonicalCompare_range: "canonicalCompare a b \<in> {-1, 0, 1}"
  using bytesCompare_range [of a b] by (auto simp: canonicalCompare_def)

lemma canonicalCompare_0 [simp]: "canonicalCompare a b = 0 \<longleftrightarrow> a = b"
  by (auto simp: canonicalCompare_def)

lemma canonicalCompare_sym: "canonicalCompare b a = - canonicalCompare a b"
  using bytesCompare_sym [of a b] by (auto simp: canonicalCompare_def)

lemma canonicalCompare_trans:
  "canonicalCompare a b \<noteq> 1 \<Longrightarrow> canonicalCompare b c \<noteq> 1 \<Longrightarrow> canonicalCompare a c \<noteq> 1"
  using bytesCompare_trans [of a b c]
  by (auto simp: canonicalCompare_def split: if_splits)

instantiation key_span :: linorder
begin

definition less_eq_key_span :: "key_span \<Rightarrow> key_span \<Rightarrow> bool" where
  "less_eq_key_span a b \<longleftrightarrow> canonicalCompare (span a) (span b) \<noteq> 1"

definition less_key_span :: "key_span \<Rightarrow> key_span \<Rightarrow> bool" where
  "less_key_span a b \<longleftrightarrow> canonicalCompare (span a) (span b) = -1"

instance
proof
  fix x y z :: key_span
  show "x < y \<longleftrightarrow> x \<le> y \<and> \<not> y \<le> x"
    using canonicalCompare_sym [of "span x" "span y"] canonicalCompare_range [of "span x" "span y"]
    by (auto simp: less_eq_key_span_def less_key_span_def)
  show "x \<le> x"
    unfolding less_eq_key_span_def by (metis canonicalCompare_0 zero_neq_one)
  show "x \<le> y \<Longrightarrow> y \<le> z \<Longrightarrow> x \<le> z"
    using canonicalCompare_trans by (simp add: less_eq_key_span_def)
  show "x \<le> y \<Longrightarrow> y \<le> x \<Longrightarrow> x = y"
    using canonicalCompare_sym [of "span x" "span y"] canonicalCompare_range [of "span x" "span y"]
      canonicalCompare_0 [of "span x" "span y"]
    by (auto simp: less_eq_key_span_def intro: key_span.expand)
  show "x \<le> y \<or> y \<le> x"
    using canonicalCompare_sym [of "span x" "span y"]
    by (auto simp: less_eq_key_span_def)
qed

end

text \<open>
  The values a canonical encoding can stand for: integers that fit an \<open>int64\<close> with the
  sign of their major type, and map keys in strictly ascending order of their encodings.
\<close>

fun canonical :: "cbor_value \<Rightarrow> bool" where
  "canonical (VUint i) \<longleftrightarrow> 0 \<le> i \<and> i < 2 ^ 63"
| "canonical (VNegInt i) \<longleftrightarrow> - (2 ^ 63) \<le> i \<and> i < 0"
| "canonical (VArray vs) \<longleftrightarrow> list_all canonical vs"
| "canonical (VMap es) \<longleftrightarrow>
     list_all (\<lambda>(k, v). canonical k \<and> canonical v) es \<and>
     sorted_wrt (<) (map (\<lambda>(k, v). KeySpan (encode_value k)) es)"
| "canonical _ \<longleftrightarrow> True"

end
