(* ===== verification/Cbor_Correct.thy ===== *)
theory Cbor_Correct
  imports Cbor_Encode
begin

unbundle bit_operations_syntax

text \<open>
  What the decoder accepts: exactly the canonical encodings of the canonical values
  within the depth, element and size limits.  The main lemma \<open>decodeValue_iff\<close>
  characterises a successful run completely; acceptance, rejection, round trips, bounds
  and the uniqueness of encodings all follow from it.
\<close>

section \<open>Bits of the initial byte\<close>

lemma take_bit_byte_iff: "k \<le> 8 \<Longrightarrow> take_bit k (m :: byte) = m \<longleftrightarrow> unat m < 2 ^ k"
  by (simp add: word_unat_eq_iff unsigned_take_bit_eq take_bit_nat_eq_self_iff)

lemma byte_less_32: "m < 32 \<longleftrightarrow> take_bit 5 m = (m :: byte)"
  by (simp add: take_bit_byte_iff word_less_nat_alt)

lemma mask_5: "(0x1f :: byte) = mask 5"
  by (simp add: mask_eq_exp_minus_1)

lemma drop_push_5: "m < 8 \<Longrightarrow> drop_bit 5 (push_bit 5 m) = (m :: byte)"
  by (simp add: word_less_nat_alt word_unat_eq_iff unsigned_drop_bit_eq unsigned_push_bit_eq
      unat_drop_bit_eq push_bit_nat_def drop_bit_nat_def take_bit_nat_def)

lemma header_byte_major: "m < 8 \<Longrightarrow> a < 32 \<Longrightarrow> drop_bit 5 (push_bit 5 m OR a) = (m :: byte)"
proof -
  assume "m < 8" "a < 32"
  then have "drop_bit 5 a = 0"
    unfolding byte_less_32 take_bit_eq_self_iff_drop_bit_eq_0 by simp
  with \<open>m < 8\<close> show ?thesis by (simp add: drop_bit_or drop_push_5)
qed

lemma header_byte_info: "a < 32 \<Longrightarrow> (push_bit 5 m OR a) AND 0x1f = (a :: byte)"
  unfolding mask_5 take_bit_eq_mask [symmetric] byte_less_32
  by (simp add: take_bit_push_bit)

lemma header_byte_split: "push_bit 5 (drop_bit 5 b) OR (b AND 0x1f) = (b :: byte)"
  unfolding mask_5 take_bit_eq_mask [symmetric]
  by (rule bit_word_eqI) (auto simp: bit_simps)

lemma major_less: "drop_bit 5 (b :: byte) < 8"
  using unat_byte_less [of b] by (simp add: word_less_nat_alt unat_drop_bit_eq drop_bit_nat_def)

lemma info_less: "(b :: byte) AND 0x1f < 32"
  unfolding mask_5 take_bit_eq_mask [symmetric] byte_less_32 by simp

section \<open>Consuming bytes\<close>

text \<open>
  \<open>consumed d bs n d'\<close>: from \<open>d\<close> the decoder has read exactly \<open>bs\<close>, counted \<open>n\<close> items and
  reached \<open>d'\<close>.
\<close>

definition consumed :: "decoder \<Rightarrow> bytes \<Rightarrow> nat \<Rightarrow> decoder \<Rightarrow> bool" where
  "consumed d bs n d' \<longleftrightarrow>
     drop (pos d) (buf d) = bs @ drop (pos d') (buf d) \<and> pos d' \<le> length (buf d) \<and>
     buf d' = buf d \<and> pos d' = pos d + length bs \<and> elems d' = elems d + n"

lemma consumed_Nil [simp]: "consumed d [] 0 d' \<longleftrightarrow> d' = d \<and> pos d \<le> length (buf d)"
  by (auto simp: consumed_def)

lemma consumed_append:
  "consumed d (bs @ cs) (n + m) d2 \<longleftrightarrow> (\<exists>d1. consumed d bs n d1 \<and> consumed d1 cs m d2)"
proof
  assume c: "consumed d (bs @ cs) (n + m) d2"
  let ?d1 = "d\<lparr>pos := pos d + length bs, elems := elems d + n\<rparr>"
  have "drop (length bs) (drop (pos d) (buf d)) = drop (length bs) ((bs @ cs) @ drop (pos d2) (buf d))"
    using c by (simp add: consumed_def)
  then have "drop (pos d + length bs) (buf d) = cs @ drop (pos d2) (buf d)"
    by (simp add: add.commute)
  with c have "consumed d bs n ?d1" "consumed ?d1 cs m d2"
    by (auto simp: consumed_def)
  then show "\<exists>d1. consumed d bs n d1 \<and> consumed d1 cs m d2" by blast
qed (auto simp: consumed_def)

lemma consumed_append_0:
  "consumed d (bs @ cs) m d2 \<longleftrightarrow> (\<exists>d1. consumed d bs 0 d1 \<and> consumed d1 cs m d2)"
  using consumed_append [of d bs cs 0 m d2] by simp

lemma consumed_len: "consumed d bs n d' \<Longrightarrow> pos d + length bs \<le> length (buf d)"
  by (simp add: consumed_def)

lemma consumed_buf: "consumed d bs n d' \<Longrightarrow> buf d' = buf d"
  by (simp add: consumed_def)

lemma consumed_elems: "consumed d bs n d' \<Longrightarrow> elems d' = elems d + n"
  by (simp add: consumed_def)

lemma consumed_elems_le: "consumed d bs n d' \<Longrightarrow> elems d \<le> elems d'"
  by (simp add: consumed_def)

lemma consumed_pos: "consumed d bs n d' \<Longrightarrow> pos d' = pos d + length bs"
  by (simp add: consumed_def)

lemma consumed_pos_le: "consumed d bs n d' \<Longrightarrow> pos d' \<le> length (buf d')"
  by (simp add: consumed_def)

lemma consumed_count: "consumed (d\<lparr>elems := elems d + 1\<rparr>) bs n d' \<longleftrightarrow> consumed d bs (Suc n) d'"
  by (auto simp: consumed_def)

lemma consumed_slice: "consumed d bs n d' \<Longrightarrow> take (pos d' - pos d) (drop (pos d) (buf d)) = bs"
  by (simp add: consumed_def)

text \<open>The bytes read and the state reached determine each other.\<close>

lemma consumed_det: "consumed d bs n d1 \<Longrightarrow> consumed d bs n d2 \<Longrightarrow> d1 = d2"
  by (auto simp: consumed_def intro!: decoder.equality)

lemma consumed_exists:
  assumes "drop (pos d) (buf d) = bs @ r" and "pos d \<le> length (buf d)"
  shows "consumed d bs n (d\<lparr>pos := pos d + length bs, elems := elems d + n\<rparr>)"
proof -
  have "drop (length bs) (drop (pos d) (buf d)) = r" using assms by simp
  then have "r = drop (pos d + length bs) (buf d)" by (simp add: add.commute)
  moreover have "length (buf d) - pos d = length bs + length r"
    using arg_cong [OF assms(1), of length] by simp
  ultimately show ?thesis using assms by (auto simp: consumed_def)
qed

lemma readByte_iff: "readByte d = Inr (b, d') \<longleftrightarrow> consumed d [b] 0 d'"
proof
  assume "readByte d = Inr (b, d')"
  then show "consumed d [b] 0 d'"
    by (auto simp: readByte_def consumed_def Cons_nth_drop_Suc split: if_splits)
next
  assume c: "consumed d [b] 0 d'"
  then have "pos d < length (buf d)" by (auto simp: consumed_def)
  moreover from c this have "buf d ! pos d = b"
    by (auto simp: consumed_def Cons_nth_drop_Suc [symmetric])
  ultimately show "readByte d = Inr (b, d')"
    using c by (auto simp: readByte_def consumed_def intro!: decoder.equality)
qed

lemma readN_iff: "readN n d = Inr (bs, d') \<longleftrightarrow> consumed d bs 0 d' \<and> int (length bs) = n"
proof
  assume r: "readN n d = Inr (bs, d')"
  then have n: "0 \<le> n" "pos d + nat n \<le> length (buf d)"
    by (auto simp: readN_def split: if_splits)
  with r show "consumed d bs 0 d' \<and> int (length bs) = n"
    by (auto simp: readN_def consumed_def min_def add.commute split: if_splits
        dest: take_drop_append_prefix [OF refl])
next
  assume c: "consumed d bs 0 d' \<and> int (length bs) = n"
  then have "d' = d\<lparr>pos := pos d + length bs\<rparr>"
    by (auto simp: consumed_def intro!: decoder.equality)
  moreover have "take (length bs) (drop (pos d) (buf d)) = bs" "pos d + length bs \<le> length (buf d)"
    using c by (auto simp: consumed_def)
  ultimately show "readN n d = Inr (bs, d')" using c by (auto simp: readN_def)
qed

lemma readInitialByte_iff:
  "readInitialByte d = Inr ((m, ai), d') \<longleftrightarrow>
     m < 8 \<and> ai < 32 \<and> consumed d [push_bit 5 m OR ai] 0 d'"
proof
  assume "readInitialByte d = Inr ((m, ai), d')"
  then show "m < 8 \<and> ai < 32 \<and> consumed d [push_bit 5 m OR ai] 0 d'"
    by (auto simp: readInitialByte_def result_simps readByte_iff header_byte_split major_less
        info_less)
next
  assume a: "m < 8 \<and> ai < 32 \<and> consumed d [push_bit 5 m OR ai] 0 d'"
  then have "readByte d = Inr (push_bit 5 m OR ai, d')" by (simp add: readByte_iff)
  then show "readInitialByte d = Inr ((m, ai), d')"
    using a header_byte_major [of m ai] header_byte_info [of ai m]
    by (simp add: readInitialByte_def)
qed

section \<open>Headers\<close>

text \<open>The additional information and the argument bytes that \<open>encodeHeader\<close> writes.\<close>

definition header_tail :: "64 word \<Rightarrow> byte \<times> bytes" where
  "header_tail arg =
     (if arg < 24 then (ucast arg, [])
      else if arg \<le> 0xff then (24, [ucast arg])
      else if arg \<le> 0xffff then (25, be_bytes 2 (unat arg))
      else if arg \<le> 0xffffffff then (26, be_bytes 4 (unat arg))
      else (27, be_bytes 8 (unat arg)))"

lemma encodeHeader_tail:
  "encodeHeader m arg = (push_bit 5 m OR fst (header_tail arg)) # snd (header_tail arg)"
  by (simp add: encodeHeader_def header_tail_def Let_def)

lemma unat_ucast_byte: "unat (w :: 64 word) < 256 \<Longrightarrow> unat (ucast w :: byte) = unat w"
  by (simp add: unsigned_ucast_eq take_bit_nat_def)

lemma ucast_ucast_byte: "unat (w :: 64 word) < 256 \<Longrightarrow> ucast (ucast w :: byte) = w"
  by (simp add: word_unat_eq_iff unsigned_ucast_eq unsigned_take_bit_eq take_bit_nat_def)

lemma take_bit_64_byte [simp]: "take_bit 64 (b :: byte) = b"
  using unat_byte_less [of b]
  by (simp add: word_unat_eq_iff unsigned_take_bit_eq take_bit_nat_def)

lemma header_info_less: "fst (header_tail arg) < 32"
  by (auto simp: header_tail_def word_less_nat_alt unat_ucast_byte)

lemma readWide_iff:
  assumes "n \<le> 8"
  shows "readWide n lim d = Inr (v, d') \<longleftrightarrow>
           consumed d (be_bytes n (unat v)) 0 d' \<and> unat v < 256 ^ n \<and> lim < v"
proof -
  have small: "be_nat bs < 2 ^ 64" if "length bs = n" for bs
  proof -
    have "be_nat bs < 256 ^ n" using be_nat_less [of bs] that by simp
    also have "(256 :: nat) ^ n \<le> 256 ^ 8" using assms by (intro power_increasing) auto
    finally show ?thesis by simp
  qed
  have conv: "unat (of_nat (be_nat bs) :: 64 word) = be_nat bs" if "length bs = n" for bs
    using small [OF that] by (simp add: unat_of_nat)
  show ?thesis
  proof
    assume "readWide n lim d = Inr (v, d')"
    then obtain bs where "consumed d bs 0 d'" "length bs = n" "v = of_nat (be_nat bs)" "\<not> v \<le> lim"
      by (auto simp: readWide_def result_simps readN_iff Let_def split: if_splits)
    then show "consumed d (be_bytes n (unat v)) 0 d' \<and> unat v < 256 ^ n \<and> lim < v"
      using be_nat_less [of bs] by (auto simp: conv be_bytes_be_nat)
  next
    assume "consumed d (be_bytes n (unat v)) 0 d' \<and> unat v < 256 ^ n \<and> lim < v"
    then show "readWide n lim d = Inr (v, d')"
      using readN_iff [of "int n" d "be_bytes n (unat v)" d']
      by (auto simp: readWide_def Let_def not_le)
  qed
qed

lemma ucast_byte_inject: "unat (w :: 64 word) < 256 \<Longrightarrow> (ucast w :: byte) = b \<longleftrightarrow> w = ucast b"
  using unat_byte_less [of b]
  by (auto simp: word_unat_eq_iff unsigned_ucast_eq take_bit_nat_def)

lemma readByteArg_iff:
  "bindE (readN 1 d) (\<lambda>(bs, d).
     let v = ucast (bs ! 0) :: 64 word in if v < 24 then Inl CborNonCanonical else Inr (v, d)) =
     Inr (arg, d') \<longleftrightarrow> consumed d [ucast arg] 0 d' \<and> 24 \<le> arg \<and> unat arg < 256"
proof
  assume "bindE (readN 1 d) (\<lambda>(bs, d).
     let v = ucast (bs ! 0) :: 64 word in if v < 24 then Inl CborNonCanonical else Inr (v, d)) =
     Inr (arg, d')"
  then obtain bs where bs: "consumed d bs 0 d'" "length bs = 1" "arg = ucast (bs ! 0)" "24 \<le> arg"
    by (auto simp: result_simps readN_iff Let_def not_less split: if_splits)
  then obtain b where "bs = [b]" by (cases bs) auto
  with bs show "consumed d [ucast arg] 0 d' \<and> 24 \<le> arg \<and> unat arg < 256"
    using unat_byte_less [of b] by (simp add: unsigned_ucast_eq take_bit_nat_def)
next
  assume a: "consumed d [ucast arg] 0 d' \<and> 24 \<le> arg \<and> unat arg < 256"
  then have "readN 1 d = Inr ([ucast arg], d')" by (simp add: readN_iff)
  then show "bindE (readN 1 d) (\<lambda>(bs, d).
     let v = ucast (bs ! 0) :: 64 word in if v < 24 then Inl CborNonCanonical else Inr (v, d)) =
     Inr (arg, d')"
    using a by (simp add: ucast_ucast_byte not_less [symmetric])
qed

lemma readArgument_cases:
  "readArgument ai d = Inr (arg, d') \<longleftrightarrow>
     ai < 24 \<and> arg = ucast ai \<and> d' = d \<or>
     ai = 24 \<and> consumed d [ucast arg] 0 d' \<and> 24 \<le> unat arg \<and> unat arg < 256 \<or>
     ai = 25 \<and> consumed d (be_bytes 2 (unat arg)) 0 d' \<and> 0xff < unat arg \<and> unat arg < 2 ^ 16 \<or>
     ai = 26 \<and> consumed d (be_bytes 4 (unat arg)) 0 d' \<and> 0xffff < unat arg \<and> unat arg < 2 ^ 32 \<or>
     ai = 27 \<and> consumed d (be_bytes 8 (unat arg)) 0 d' \<and> 0xffffffff < unat arg"
proof -
  have "readArgument ai d = Inr (arg, d') \<longleftrightarrow>
     ai < 24 \<and> arg = ucast ai \<and> d' = d \<or>
     ai = 24 \<and> consumed d [ucast arg] 0 d' \<and> 24 \<le> arg \<and> unat arg < 256 \<or>
     ai = 25 \<and> consumed d (be_bytes 2 (unat arg)) 0 d' \<and> 0xff < arg \<and> unat arg < 2 ^ 16 \<or>
     ai = 26 \<and> consumed d (be_bytes 4 (unat arg)) 0 d' \<and> 0xffff < arg \<and> unat arg < 2 ^ 32 \<or>
     ai = 27 \<and> consumed d (be_bytes 8 (unat arg)) 0 d' \<and> 0xffffffff < arg"
    using unsigned_less [of arg, where 'a = nat]
    by (auto simp: readArgument_def readByteArg_iff readWide_iff)
  then show ?thesis by (simp only: word_less_nat_alt word_le_nat_alt) simp
qed

lemma readArgument_iff:
  assumes "pos d \<le> length (buf d)"
  shows "readArgument ai d = Inr (arg, d') \<longleftrightarrow>
     ai = fst (header_tail arg) \<and> consumed d (snd (header_tail arg)) 0 d'"
proof -
  have small: "ai < 24 \<and> arg = ucast ai \<longleftrightarrow> unat arg < 24 \<and> ai = ucast arg"
    using unat_byte_less [of ai]
    by (auto simp: word_less_nat_alt word_unat_eq_iff unsigned_ucast_eq take_bit_nat_def)
  have small24: "ai \<noteq> 24" "ai \<noteq> 25" "ai \<noteq> 26" "ai \<noteq> 27" if "unat arg < 24" "ai = ucast arg"
    using that by (auto simp: word_unat_eq_iff unsigned_ucast_eq take_bit_nat_def)
  consider "unat arg < 24" | "24 \<le> unat arg" "unat arg < 256"
    | "256 \<le> unat arg" "unat arg < 2 ^ 16" | "2 ^ 16 \<le> unat arg" "unat arg < 2 ^ 32"
    | "2 ^ 32 \<le> unat arg"
    by linarith
  then show ?thesis
    using assms small small24
    by cases (auto simp: readArgument_cases header_tail_def word_less_nat_alt word_le_nat_alt)
qed

lemma readHeader_iff:
  assumes "pos d \<le> length (buf d)"
  shows "(\<exists>ai d1. readInitialByte d = Inr ((m, ai), d1) \<and> readArgument ai d1 = Inr (arg, d')) \<longleftrightarrow>
           m < 8 \<and> consumed d (encodeHeader m arg) 0 d'"
proof -
  have "readInitialByte d = Inr ((m, ai), d1) \<and> readArgument ai d1 = Inr (arg, d') \<longleftrightarrow>
      m < 8 \<and> ai = fst (header_tail arg) \<and> consumed d [push_bit 5 m OR ai] 0 d1 \<and>
      consumed d1 (snd (header_tail arg)) 0 d'" for ai d1
    using readArgument_iff [of d1 ai arg d'] header_info_less [of arg]
    by (auto simp: readInitialByte_iff dest: consumed_pos_le)
  then show ?thesis
    using consumed_append_0 [of d "[push_bit 5 m OR fst (header_tail arg)]" "snd (header_tail arg)" 0 d']
    by (auto simp: encodeHeader_tail)
qed

section \<open>Strings, simple values and the two loops\<close>

text \<open>A decoder between two reads: \<open>Decode\<close> has bounded its buffer.\<close>

definition ready :: "decoder \<Rightarrow> bool" where
  "ready d \<longleftrightarrow> pos d \<le> length (buf d) \<and> length (buf d) \<le> MaxInputSize"

lemma consumed_ready: "consumed d bs n d' \<Longrightarrow> ready d \<Longrightarrow> ready d'"
  by (simp add: consumed_def ready_def)

lemma ready_elems [simp]: "ready (d\<lparr>elems := n\<rparr>) = ready d"
  by (simp add: ready_def)

lemma readString_iff:
  assumes "ready d"
  shows "readString arg d = Inr (b, d') \<longleftrightarrow> consumed d b 0 d' \<and> arg = of_nat (length b)"
proof -
  have conv: "unat (of_nat n :: 64 word) = n" if "n \<le> length (buf d)" for n
    using that assms by (simp add: ready_def unat_of_nat MaxInputSize_def)
  have room: "\<not> (of_nat (length (buf d) - pos d) :: 64 word) < arg \<longleftrightarrow>
      pos d + unat arg \<le> length (buf d)"
  proof -
    have "unat (of_nat (length (buf d) - pos d) :: 64 word) = length (buf d) - pos d"
      by (rule conv) simp
    then show ?thesis
      using assms unfolding word_less_nat_alt ready_def by linarith
  qed
  have len: "int (length b) = uint arg \<longleftrightarrow> length b = unat arg"
    by (simp only: uint_nat of_nat_eq_iff)
  have arg: "length b = unat arg \<longleftrightarrow> arg = of_nat (length b)" if "consumed d b 0 d'"
  proof -
    have "unat (of_nat (length b) :: 64 word) = length b"
      using conv [of "length b"] consumed_len [OF that] by linarith
    then show ?thesis unfolding word_unat_eq_iff [of arg] by metis
  qed
  show ?thesis
  proof
    assume "readString arg d = Inr (b, d')"
    then show "consumed d b 0 d' \<and> arg = of_nat (length b)"
      using arg by (auto simp: readString_def readN_iff len split: if_splits)
  next
    assume a: "consumed d b 0 d' \<and> arg = of_nat (length b)"
    then have "length b = unat arg" using arg by blast
    with a show "readString arg d = Inr (b, d')"
      using room consumed_len [of d b 0 d'] readN_iff [of "uint arg" d b d'] len
      by (simp add: readString_def)
  qed
qed

lemma decodeSimple_iff:
  "decodeSimple ai d = Inr (v, d') \<longleftrightarrow>
     d' = d \<and> (ai = 20 \<and> v = VBool False \<or> ai = 21 \<and> v = VBool True \<or> ai = 22 \<and> v = VNull)"
  by (auto simp: decodeSimple_def result_simps)

lemma KeySpan_less_iff: "KeySpan a < KeySpan b \<longleftrightarrow> canonicalCompare a b \<noteq> 0 \<and> canonicalCompare a b \<noteq> 1"
proof -
  consider "canonicalCompare a b = -1" | "canonicalCompare a b = 0" | "canonicalCompare a b = 1"
    using canonicalCompare_range [of a b] by blast
  then show ?thesis by cases (simp_all add: less_key_span_def del: canonicalCompare_0)
qed

lemma checkKeyOrder_iff: "checkKeyOrder ks = Inr () \<longleftrightarrow> sorted_wrt (<) (map KeySpan ks)"
  by (induction ks rule: checkKeyOrder.induct)
    (simp_all add: sorted_wrt2 Let_def KeySpan_less_iff sorted_wrt1 del: canonicalCompare_0 sorted_wrt.simps(2))

text \<open>
  The loops of \<open>decodeArray\<close> and \<open>decodeMap\<close> over any decoder of items that accepts
  exactly the encodings of the values in \<open>ok\<close>.
\<close>

locale item_decoder =
  fixes dv :: "cbor_value decoding" and ok :: "cbor_value \<Rightarrow> bool"
  assumes item_iff:
    "ready d \<Longrightarrow>
     dv d = Inr (v, d') \<longleftrightarrow>
       ok v \<and> consumed d (encode_value v) (value_count v) d' \<and> elems d' \<le> MaxElements"
begin

lemma items_iff:
  "ready d \<Longrightarrow> elems d \<le> MaxElements \<Longrightarrow>
   decodeItems dv n d = Inr (vs, d') \<longleftrightarrow>
     length vs = n \<and> list_all ok vs \<and> elems d' \<le> MaxElements \<and>
     consumed d (concat (map encode_value vs)) (sum_list (map value_count vs)) d'"
proof (induction n arbitrary: d vs)
  case 0
  then show ?case by (auto simp: ready_def)
next
  case (Suc n)
  show ?case
  proof (cases vs)
    case Nil
    then show ?thesis by (auto simp add: result_simps)
  next
    case (Cons v ws)
    have IH: "decodeItems dv n d1 = Inr (ws, d') \<longleftrightarrow>
        length ws = n \<and> list_all ok ws \<and> elems d' \<le> MaxElements \<and>
        consumed d1 (concat (map encode_value ws)) (sum_list (map value_count ws)) d'"
      if "consumed d bs k d1" "elems d1 \<le> MaxElements" for d1 bs k
      using Suc.IH [of d1 ws] Suc.prems consumed_ready [OF that(1)] that(2) by blast
    have "decodeItems dv (Suc n) d = Inr (vs, d') \<longleftrightarrow>
        (\<exists>d1. dv d = Inr (v, d1) \<and> decodeItems dv n d1 = Inr (ws, d'))"
      by (auto simp: Cons result_simps)
    moreover have "dv d = Inr (v, d1) \<and> decodeItems dv n d1 = Inr (ws, d') \<longleftrightarrow>
        ok v \<and> length ws = n \<and> list_all ok ws \<and> elems d' \<le> MaxElements \<and>
        consumed d (encode_value v) (value_count v) d1 \<and>
        consumed d1 (concat (map encode_value ws)) (sum_list (map value_count ws)) d'" for d1
    proof (cases "consumed d (encode_value v) (value_count v) d1 \<and> elems d1 \<le> MaxElements")
      case True
      then show ?thesis using item_iff [OF Suc.prems(1), of v d1] IH [of _ _ d1] by blast
    next
      case False
      then show ?thesis
        using item_iff [OF Suc.prems(1), of v d1] by (metis consumed_elems_le le_trans)
    qed
    ultimately show ?thesis by (simp add: Cons consumed_append) blast
  qed
qed

definition entry_ok :: "(cbor_value \<times> cbor_value) \<times> bytes \<Rightarrow> bool" where
  "entry_ok e \<longleftrightarrow> (case e of ((k, v), s) \<Rightarrow> ok k \<and> ok v \<and> s = encode_value k)"

lemma entries_iff:
  "ready d \<Longrightarrow> elems d \<le> MaxElements \<Longrightarrow>
   decodeEntries dv n d = Inr (es, d') \<longleftrightarrow>
     length es = n \<and> list_all entry_ok es \<and> elems d' \<le> MaxElements \<and>
     consumed d (concat (map (\<lambda>((k, v), s). encode_value k @ encode_value v) es))
       (sum_list (map (\<lambda>((k, v), s). value_count k + value_count v) es)) d'"
proof (induction n arbitrary: d es)
  case 0
  then show ?case by (auto simp: ready_def)
next
  case (Suc n)
  show ?case
  proof (cases es)
    case Nil
    then show ?thesis by (auto simp add: result_simps)
  next
    case (Cons e fs)
    obtain k v s where e: "e = ((k, v), s)" by (metis surj_pair)
    have IH: "decodeEntries dv n d2 = Inr (fs, d') \<longleftrightarrow>
        length fs = n \<and> list_all entry_ok fs \<and> elems d' \<le> MaxElements \<and>
        consumed d2 (concat (map (\<lambda>((k, v), s). encode_value k @ encode_value v) fs))
          (sum_list (map (\<lambda>((k, v), s). value_count k + value_count v) fs)) d'"
      if "consumed d bs i d1" "consumed d1 cs j d2" "elems d2 \<le> MaxElements" for d1 d2 bs cs i j
      using Suc.IH [of d2 fs] Suc.prems consumed_ready that by blast
    have step: "dv d = Inr (k, d1) \<and> dv d1 = Inr (v, d2) \<and>
          decodeEntries dv n d2 = Inr (fs, d') \<longleftrightarrow>
        ok k \<and> ok v \<and> length fs = n \<and> list_all entry_ok fs \<and> elems d' \<le> MaxElements \<and>
        consumed d (encode_value k) (value_count k) d1 \<and>
        consumed d1 (encode_value v) (value_count v) d2 \<and>
        consumed d2 (concat (map (\<lambda>((k, v), s). encode_value k @ encode_value v) fs))
          (sum_list (map (\<lambda>((k, v), s). value_count k + value_count v) fs)) d'" for d1 d2
    proof (cases "consumed d (encode_value k) (value_count k) d1 \<and>
        consumed d1 (encode_value v) (value_count v) d2 \<and> elems d2 \<le> MaxElements")
      case True
      then have "elems d1 \<le> MaxElements" "ready d1"
        using consumed_elems_le [of d1] consumed_ready [of d] Suc.prems(1) le_trans by blast+
      with True show ?thesis
        using item_iff [OF Suc.prems(1), of k d1] item_iff [of d1 v d2] IH [of _ _ d1 _ _ d2]
        by blast
    next
      case False
      have "\<not> (dv d = Inr (k, d1) \<and> dv d1 = Inr (v, d2))"
        using False item_iff [OF Suc.prems(1), of k d1] item_iff [of d1 v d2]
          consumed_ready [of d _ _ d1] Suc.prems(1) by blast
      moreover have "elems d2 \<le> elems d'" if "consumed d2 bs i d'" for bs i
        using that by (rule consumed_elems_le)
      ultimately show ?thesis using False le_trans [of "elems d2" "elems d'" MaxElements] by blast
    qed
    have slice: "s = take (pos d1 - pos d) (drop (pos d) (buf d1)) \<longleftrightarrow> s = encode_value k"
      if "consumed d (encode_value k) (value_count k) d1" for d1
      using consumed_slice [OF that] consumed_buf [OF that] by simp
    have "decodeEntries dv (Suc n) d = Inr (es, d') \<longleftrightarrow>
        (\<exists>d1 d2. (dv d = Inr (k, d1) \<and> dv d1 = Inr (v, d2) \<and>
           decodeEntries dv n d2 = Inr (fs, d')) \<and>
           s = take (pos d1 - pos d) (drop (pos d) (buf d1)))"
      by (auto simp: Cons e result_simps)
    also have "\<dots> \<longleftrightarrow> ok k \<and> ok v \<and> s = encode_value k \<and>
        length fs = n \<and> list_all entry_ok fs \<and> elems d' \<le> MaxElements \<and>
        (\<exists>d1 d2. consumed d (encode_value k) (value_count k) d1 \<and>
        consumed d1 (encode_value v) (value_count v) d2 \<and>
        consumed d2 (concat (map (\<lambda>((k, v), s). encode_value k @ encode_value v) fs))
          (sum_list (map (\<lambda>((k, v), s). value_count k + value_count v) fs)) d')"
      unfolding step using slice by blast
    also have "(\<exists>d1 d2. consumed d (encode_value k) (value_count k) d1 \<and>
        consumed d1 (encode_value v) (value_count v) d2 \<and>
        consumed d2 (concat (map (\<lambda>((k, v), s). encode_value k @ encode_value v) fs))
          (sum_list (map (\<lambda>((k, v), s). value_count k + value_count v) fs)) d') \<longleftrightarrow>
        consumed d (concat (map (\<lambda>((k, v), s). encode_value k @ encode_value v) es))
          (sum_list (map (\<lambda>((k, v), s). value_count k + value_count v) es)) d'"
      by (simp only: Cons e list.map concat.simps sum_list.Cons prod.case consumed_append) blast
    finally show ?thesis
      by (simp only: Cons e list.size list.pred_inject(2) entry_ok_def prod.case) auto
  qed
qed

end

section \<open>The decoder\<close>

text \<open>What the decoder accepts at a given depth.\<close>

definition acceptable :: "nat \<Rightarrow> cbor_value \<Rightarrow> bool" where
  "acceptable depth v \<longleftrightarrow> canonical v \<and> depth + value_depth v \<le> MaxDepth"

lemma acceptable_VArray:
  "acceptable depth (VArray vs) \<longleftrightarrow> depth < MaxDepth \<and> list_all (acceptable (Suc depth)) vs"
  using add_Max_le_iff [of "Suc depth" value_depth vs MaxDepth]
  by (auto simp: acceptable_def list_all_iff Suc_le_eq simp del: Max_insert)

lemma acceptable_VMap:
  "acceptable depth (VMap es) \<longleftrightarrow>
     depth < MaxDepth \<and>
     list_all (\<lambda>(k, v). acceptable (Suc depth) k \<and> acceptable (Suc depth) v) es \<and>
     sorted_wrt (<) (map (\<lambda>(k, v). KeySpan (encode_value k)) es)"
  using add_Max_le_iff [of "Suc depth" "\<lambda>(k, v). max (value_depth k) (value_depth v)" es MaxDepth]
  by (fastforce simp: acceptable_def list_all_iff Suc_le_eq simp del: Max_insert)

text \<open>An encoded value is at least one byte, and a header determines its argument.\<close>

lemma length_count: "list_all (\<lambda>x. 0 < f x) xs \<Longrightarrow> length xs \<le> sum_list (map f xs)" for f :: "'a \<Rightarrow> nat"
  by (induction xs) auto

lemma value_count_pos: "0 < value_count v"
  by (cases v) auto

lemma VArray_count: "length vs \<le> sum_list (map value_count vs)"
  by (rule length_count) (simp add: list_all_iff value_count_pos)

lemma VMap_count: "length es \<le> sum_list (map (\<lambda>(k, v). value_count k + value_count v) es)"
  by (rule length_count) (auto simp: list_all_iff value_count_pos)

lemma unat_length: "length xs \<le> MaxElements \<Longrightarrow> unat (of_nat (length xs) :: 64 word) = length xs"
  by (simp add: unat_of_nat MaxElements_def)

lemma eq_of_nat_length:
  "length xs \<le> MaxElements \<Longrightarrow> length xs = unat (n :: 64 word) \<longleftrightarrow> n = of_nat (length xs)"
  using unat_length [of xs] word_unat_eq_iff [of n "of_nat (length xs)"] by metis

context item_decoder
begin

lemma decodeArray_iff:
  assumes "ready d" and "elems d \<le> MaxElements"
  shows "decodeArray depth dv n d = Inr (v, d') \<longleftrightarrow>
    depth < MaxDepth \<and> elems d' \<le> MaxElements \<and>
    (\<exists>vs. v = VArray vs \<and> n = of_nat (length vs) \<and> list_all ok vs \<and>
       consumed d (concat (map encode_value vs)) (sum_list (map value_count vs)) d')"
proof -
  have len: "length vs = unat n \<longleftrightarrow> n = of_nat (length vs)"
    if "consumed d bs (sum_list (map value_count vs)) d'" "elems d' \<le> MaxElements" for vs bs
    using that VArray_count [of vs] consumed_elems [OF that(1)] by (intro eq_of_nat_length) simp
  show ?thesis
    using items_iff [OF assms] len
    by (auto simp: decodeArray_def result_simps not_le)
qed

lemma entry_ok_split:
  "list_all entry_ok fs \<longleftrightarrow>
     list_all (\<lambda>(k, v). ok k \<and> ok v) (map fst fs) \<and>
     map snd fs = map (\<lambda>(k, v). encode_value k) (map fst fs)"
  by (induction fs) (auto simp: entry_ok_def)

lemma decodeMap_iff:
  assumes "ready d" and "elems d \<le> MaxElements"
  shows "decodeMap depth dv n d = Inr (v, d') \<longleftrightarrow>
    depth < MaxDepth \<and> elems d' \<le> MaxElements \<and>
    (\<exists>es. v = VMap es \<and> n = of_nat (length es) \<and> list_all (\<lambda>(k, v). ok k \<and> ok v) es \<and>
       sorted_wrt (<) (map (\<lambda>(k, v). KeySpan (encode_value k)) es) \<and>
       consumed d (concat (map (\<lambda>(k, v). encode_value k @ encode_value v) es))
         (sum_list (map (\<lambda>(k, v). value_count k + value_count v) es)) d')"
    (is "?L \<longleftrightarrow> ?R")
proof
  assume ?L
  then obtain fs where fs: "depth < MaxDepth" "v = VMap (map fst fs)"
      "decodeEntries dv (unat n) d = Inr (fs, d')" "sorted_wrt (<) (map KeySpan (map snd fs))"
    by (auto simp: decodeMap_def result_simps checkKeyOrder_iff not_le simp del: map_map
        split: if_splits)
  let ?es = "map fst fs"
  have e: "length fs = unat n" "list_all entry_ok fs" "elems d' \<le> MaxElements"
    "consumed d (concat (map (\<lambda>(k, v). encode_value k @ encode_value v) ?es))
       (sum_list (map (\<lambda>(k, v). value_count k + value_count v) ?es)) d'"
    using fs(3) entries_iff [OF assms, of "unat n" fs d'] by (simp_all add: comp_def case_prod_unfold)
  have "map KeySpan (map snd fs) = map (\<lambda>(k, v). KeySpan (encode_value k)) ?es"
    using e(2) by (simp add: entry_ok_split comp_def case_prod_unfold)
  then have "sorted_wrt (<) (map (\<lambda>(k, v). KeySpan (encode_value k)) ?es)"
    using fs(4) by (simp only:)
  moreover have "n = of_nat (length ?es)"
    using e(1,3) VMap_count [of ?es] consumed_elems [OF e(4)] eq_of_nat_length [of ?es n] by simp
  ultimately show ?R
    using fs(1,2) e(3,4) conjunct1 [OF iffD1 [OF entry_ok_split e(2)]] by blast
next
  assume ?R
  then obtain es where es: "depth < MaxDepth" "elems d' \<le> MaxElements" "v = VMap es"
      "n = of_nat (length es)" "list_all (\<lambda>(k, v). ok k \<and> ok v) es"
      "sorted_wrt (<) (map (\<lambda>(k, v). KeySpan (encode_value k)) es)"
      "consumed d (concat (map (\<lambda>(k, v). encode_value k @ encode_value v) es))
         (sum_list (map (\<lambda>(k, v). value_count k + value_count v) es)) d'" by blast
  let ?fs = "map (\<lambda>(k, v). ((k, v), encode_value k)) es"
  have len: "length ?fs = unat n"
    using es VMap_count [of es] consumed_elems [OF es(7)] eq_of_nat_length [of es n] by simp
  have "list_all entry_ok ?fs"
    using es(5) by (auto simp: entry_ok_def list_all_iff)
  then have "decodeEntries dv (unat n) d = Inr (?fs, d')"
    using es len entries_iff [OF assms, of "unat n" ?fs d']
    by (simp add: comp_def case_prod_unfold)
  moreover have "checkKeyOrder (map snd ?fs) = Inr ()"
    using es(6) by (simp add: checkKeyOrder_iff comp_def case_prod_unfold)
  moreover have "map fst ?fs = es"
    by (simp add: comp_def case_prod_unfold)
  ultimately show ?L
    using es(1,3) by (simp add: decodeMap_def del: map_map)
qed

end

text \<open>The switch on the major type, inverted for each shape of result.\<close>

lemma simple_bytes:
  "(push_bit 5 7 OR 20 :: byte) = 0xf4" "(push_bit 5 7 OR 21 :: byte) = 0xf5"
  "(push_bit 5 7 OR 22 :: byte) = 0xf6"
  by simp_all

lemma MaxInt64_iff: "\<not> MaxInt64 < arg \<longleftrightarrow> unat arg < 2 ^ 63"
  by (simp add: MaxInt64_def word_less_nat_alt) linarith

lemma sint_small: "unat (arg :: 64 word) < 2 ^ 63 \<Longrightarrow> sint arg = uint arg"
proof -
  assume "unat arg < 2 ^ 63"
  then have "uint arg < 2 ^ 63"
    unfolding unat_eq_nat_uint by (subst (asm) nat_less_iff) simp_all
  moreover have "- (2 ^ 63) \<le> uint arg"
    using uint_ge_0 [of arg] by (rule order_trans [rotated]) simp
  ultimately show ?thesis by (simp add: sint_uint signed_take_bit_int_eq_self_iff)
qed

lemma decodeValue_steps:
  assumes "ready d"
  shows "decodeValue depth d = Inr (v, d') \<longleftrightarrow> elems d < MaxElements \<and>
    ((\<exists>ai. ai < 32 \<and> consumed d [push_bit 5 7 OR ai] 1 d' \<and>
        (ai = 20 \<and> v = VBool False \<or> ai = 21 \<and> v = VBool True \<or> ai = 22 \<and> v = VNull)) \<or>
     (\<exists>arg d2 m. m < 7 \<and> consumed d (encodeHeader m arg) 1 d2 \<and>
        decodeMajor depth (decodeValue (depth + 1)) m arg d2 = Inr (v, d')))"
proof -
  let ?d = "d\<lparr>elems := elems d + 1\<rparr>"
  have seven: "m < 7 \<longleftrightarrow> m \<noteq> 7 \<and> m < 8" "(7 :: byte) < 8" for m :: byte
    by (auto simp: word_less_nat_alt word_unat_eq_iff)
  have le: "pos ?d \<le> length (buf ?d)" using assms by (simp add: ready_def)
  have "decodeValue depth d = Inr (v, d') \<longleftrightarrow> elems d < MaxElements \<and>
      (\<exists>m ai d1. readInitialByte ?d = Inr ((m, ai), d1) \<and>
        (if m = 7 then decodeSimple ai d1 = Inr (v, d')
         else \<exists>arg d2. readArgument ai d1 = Inr (arg, d2) \<and>
           decodeMajor depth (decodeValue (depth + 1)) m arg d2 = Inr (v, d')))"
    by (subst decodeValue.simps) (auto simp: Let_def result_simps not_less split: if_splits)
  also have "(\<exists>m ai d1. readInitialByte ?d = Inr ((m, ai), d1) \<and>
        (if m = 7 then decodeSimple ai d1 = Inr (v, d')
         else \<exists>arg d2. readArgument ai d1 = Inr (arg, d2) \<and>
           decodeMajor depth (decodeValue (depth + 1)) m arg d2 = Inr (v, d'))) \<longleftrightarrow>
      (\<exists>ai d1. readInitialByte ?d = Inr ((7, ai), d1) \<and> decodeSimple ai d1 = Inr (v, d')) \<or>
      (\<exists>arg d2 m. m \<noteq> 7 \<and>
        (\<exists>ai d1. readInitialByte ?d = Inr ((m, ai), d1) \<and> readArgument ai d1 = Inr (arg, d2)) \<and>
        decodeMajor depth (decodeValue (depth + 1)) m arg d2 = Inr (v, d'))"
    by auto
  finally show ?thesis
    unfolding readHeader_iff [OF le] unfolding readInitialByte_iff decodeSimple_iff
    unfolding consumed_count unfolding One_nat_def
    by (simp add: seven(1) seven(2) conj_assoc)
qed

lemma decodeMajor_iff:
  "decodeMajor depth dv m arg d = Inr (v, d') \<longleftrightarrow>
     m = 0 \<and> unat arg < 2 ^ 63 \<and> v = VUint (sint arg) \<and> d' = d \<or>
     m = 1 \<and> unat arg < 2 ^ 63 \<and> v = VNegInt (-1 - sint arg) \<and> d' = d \<or>
     m = 2 \<and> (\<exists>b. v = VBytes b \<and> readString arg d = Inr (b, d')) \<or>
     m = 3 \<and> (\<exists>s. v = VText s \<and> readString arg d = Inr (bytes_of_string s, d')) \<or>
     m = 4 \<and> decodeArray depth dv arg d = Inr (v, d') \<or>
     m = 5 \<and> decodeMap depth dv arg d = Inr (v, d')"
proof -
  have "(\<exists>b. readString arg d = Inr (b, d') \<and> v = VText (string_of_bytes b)) \<longleftrightarrow>
      (\<exists>s. v = VText s \<and> readString arg d = Inr (bytes_of_string s, d'))"
    by (metis bytes_of_string_of_bytes string_of_bytes_of_string)
  then show ?thesis
    unfolding MaxInt64_iff [symmetric]
    by (auto simp: decodeMajor_def result_simps split: if_splits)
qed

lemma int_arg_iff:
  "unat arg < 2 ^ 63 \<and> i = sint arg \<longleftrightarrow> 0 \<le> i \<and> i < 2 ^ 63 \<and> (arg :: 64 word) = of_int i"
proof
  assume a: "unat arg < 2 ^ 63 \<and> i = sint arg"
  then have "i = uint arg" by (simp add: sint_small)
  moreover have "uint arg < 2 ^ 63"
    using a unfolding unat_eq_nat_uint by (subst (asm) nat_less_iff) simp_all
  ultimately show "0 \<le> i \<and> i < 2 ^ 63 \<and> arg = of_int i" by simp
next
  assume a: "0 \<le> i \<and> i < 2 ^ 63 \<and> arg = of_int i"
  then have u: "uint arg = i" by (simp add: uint_word_of_int)
  then have "unat arg < 2 ^ 63"
    using a unfolding unat_eq_nat_uint by (subst nat_less_iff) simp_all
  then show "unat arg < 2 ^ 63 \<and> i = sint arg" using u by (simp add: sint_small)
qed

lemma negint_arg_iff:
  "unat arg < 2 ^ 63 \<and> i = -1 - sint arg \<longleftrightarrow>
     - (2 ^ 63) \<le> i \<and> i < 0 \<and> (arg :: 64 word) = of_int (-1 - i)"
  using int_arg_iff [of arg "-1 - i"] by auto

lemma decodeArray_VArray: "decodeArray depth dv n d = Inr (v, d') \<Longrightarrow> \<exists>vs. v = VArray vs"
  by (auto simp: decodeArray_def result_simps split: if_splits)

lemma decodeMap_VMap: "decodeMap depth dv n d = Inr (v, d') \<Longrightarrow> \<exists>es. v = VMap es"
  by (auto simp: decodeMap_def result_simps split: if_splits)

lemma decodeValue_split:
  assumes "ready d"
  shows "decodeValue depth d = Inr (v, d') \<longleftrightarrow> elems d < MaxElements \<and>
    (consumed d [0xf4] 1 d' \<and> v = VBool False \<or> consumed d [0xf5] 1 d' \<and> v = VBool True \<or>
     consumed d [0xf6] 1 d' \<and> v = VNull \<or>
     (\<exists>arg. consumed d (encodeHeader 0 arg) 1 d' \<and> unat arg < 2 ^ 63 \<and> v = VUint (sint arg)) \<or>
     (\<exists>arg. consumed d (encodeHeader 1 arg) 1 d' \<and> unat arg < 2 ^ 63 \<and> v = VNegInt (-1 - sint arg)) \<or>
     (\<exists>arg d2 b. consumed d (encodeHeader 2 arg) 1 d2 \<and> v = VBytes b \<and>
        readString arg d2 = Inr (b, d')) \<or>
     (\<exists>arg d2 s. consumed d (encodeHeader 3 arg) 1 d2 \<and> v = VText s \<and>
        readString arg d2 = Inr (bytes_of_string s, d')) \<or>
     (\<exists>arg d2. consumed d (encodeHeader 4 arg) 1 d2 \<and>
        decodeArray depth (decodeValue (depth + 1)) arg d2 = Inr (v, d')) \<or>
     (\<exists>arg d2. consumed d (encodeHeader 5 arg) 1 d2 \<and>
        decodeMap depth (decodeValue (depth + 1)) arg d2 = Inr (v, d')))"
proof -
  have "(\<exists>ai. ai < 32 \<and> consumed d [push_bit 5 7 OR ai] 1 d' \<and>
        (ai = 20 \<and> v = VBool False \<or> ai = 21 \<and> v = VBool True \<or> ai = 22 \<and> v = VNull)) \<longleftrightarrow>
      consumed d [0xf4] 1 d' \<and> v = VBool False \<or> consumed d [0xf5] 1 d' \<and> v = VBool True \<or>
      consumed d [0xf6] 1 d' \<and> v = VNull"
    by (simp add: conj_disj_distribL ex_disj_distrib)
  moreover have "(\<exists>arg d2 m. m < 7 \<and> consumed d (encodeHeader m arg) 1 d2 \<and>
        decodeMajor depth (decodeValue (depth + 1)) m arg d2 = Inr (v, d')) \<longleftrightarrow>
     (\<exists>arg. consumed d (encodeHeader 0 arg) 1 d' \<and> unat arg < 2 ^ 63 \<and> v = VUint (sint arg)) \<or>
     (\<exists>arg. consumed d (encodeHeader 1 arg) 1 d' \<and> unat arg < 2 ^ 63 \<and> v = VNegInt (-1 - sint arg)) \<or>
     (\<exists>arg d2 b. consumed d (encodeHeader 2 arg) 1 d2 \<and> v = VBytes b \<and>
        readString arg d2 = Inr (b, d')) \<or>
     (\<exists>arg d2 s. consumed d (encodeHeader 3 arg) 1 d2 \<and> v = VText s \<and>
        readString arg d2 = Inr (bytes_of_string s, d')) \<or>
     (\<exists>arg d2. consumed d (encodeHeader 4 arg) 1 d2 \<and>
        decodeArray depth (decodeValue (depth + 1)) arg d2 = Inr (v, d')) \<or>
     (\<exists>arg d2. consumed d (encodeHeader 5 arg) 1 d2 \<and>
        decodeMap depth (decodeValue (depth + 1)) arg d2 = Inr (v, d'))"
    unfolding decodeMajor_iff by (simp add: conj_disj_distribL ex_disj_distrib)
  ultimately show ?thesis unfolding decodeValue_steps [OF assms] by simp
qed

lemma consumed_header:
  "(\<exists>d2. consumed d (encodeHeader m arg) 1 d2 \<and> consumed d2 bs n d') \<longleftrightarrow>
     consumed d (encodeHeader m arg @ bs) (Suc n) d'"
  using consumed_append [of d "encodeHeader m arg" bs 1 n d'] by simp

lemma consumed_readString:
  assumes "ready d"
  shows "(\<exists>arg d2. consumed d (encodeHeader m arg) 1 d2 \<and> readString arg d2 = Inr (b, d')) \<longleftrightarrow>
    consumed d (encodeHeader m (of_nat (length b)) @ b) 1 d'"
proof -
  have "consumed d (encodeHeader m arg) 1 d2 \<and> readString arg d2 = Inr (b, d') \<longleftrightarrow>
      arg = of_nat (length b) \<and>
      (consumed d (encodeHeader m (of_nat (length b))) 1 d2 \<and> consumed d2 b 0 d')" for arg d2
  proof (cases "consumed d (encodeHeader m arg) 1 d2")
    case True
    then show ?thesis
      using readString_iff [OF consumed_ready [OF True assms], of arg b d'] by auto
  qed auto
  then show ?thesis using consumed_header [of d m _ b 0] by simp
qed

text \<open>
  A successful run at a given depth reads the encoding of an acceptable value: first the
  shapes without items, then arrays and maps, whose items are decoded one level deeper.
\<close>

definition decodes :: "nat \<Rightarrow> decoder \<Rightarrow> cbor_value \<Rightarrow> decoder \<Rightarrow> bool" where
  "decodes depth d v d' \<longleftrightarrow>
     acceptable depth v \<and> consumed d (encode_value v) (value_count v) d' \<and> elems d' \<le> MaxElements"

lemmas no_loop = decodeArray_VArray decodeMap_VMap

lemma decodeValue_VUint:
  assumes rdy: "ready d" and depth: "depth \<le> MaxDepth"
  shows "decodeValue depth d = Inr (VUint i, d') \<longleftrightarrow> decodes depth d (VUint i) d'"
proof -
  note split = decodeValue_split [OF rdy, of depth "VUint i" d']
  have "decodeValue depth d = Inr (VUint i, d') \<longleftrightarrow> elems d < MaxElements \<and>
      (\<exists>arg. consumed d (encodeHeader 0 arg) 1 d' \<and> unat arg < 2 ^ 63 \<and> i = sint arg)"
    using split by (auto dest: no_loop)
  also have "\<dots> \<longleftrightarrow> elems d < MaxElements \<and> 0 \<le> i \<and> i < 2 ^ 63 \<and>
      consumed d (encodeHeader 0 (of_int i)) 1 d'"
    unfolding int_arg_iff by blast
  finally show ?thesis
    using depth by (auto simp: decodes_def Uint_def acceptable_def dest: consumed_elems)
qed

lemma decodeValue_VNegInt:
  assumes rdy: "ready d" and depth: "depth \<le> MaxDepth"
  shows "decodeValue depth d = Inr (VNegInt i, d') \<longleftrightarrow> decodes depth d (VNegInt i) d'"
proof -
  note split = decodeValue_split [OF rdy, of depth "VNegInt i" d']
  have "decodeValue depth d = Inr (VNegInt i, d') \<longleftrightarrow> elems d < MaxElements \<and>
      (\<exists>arg. consumed d (encodeHeader 1 arg) 1 d' \<and> unat arg < 2 ^ 63 \<and> i = -1 - sint arg)"
    using split by (auto dest: no_loop)
  also have "\<dots> \<longleftrightarrow> elems d < MaxElements \<and> - (2 ^ 63) \<le> i \<and> i < 0 \<and>
      consumed d (encodeHeader 1 (of_int (-1 - i))) 1 d'"
    unfolding negint_arg_iff by blast
  finally show ?thesis
    using depth by (auto simp: decodes_def NegInt_def acceptable_def dest: consumed_elems)
qed

lemma decodeValue_VBytes:
  assumes rdy: "ready d" and depth: "depth \<le> MaxDepth"
  shows "decodeValue depth d = Inr (VBytes b, d') \<longleftrightarrow> decodes depth d (VBytes b) d'"
proof -
  note split = decodeValue_split [OF rdy, of depth "VBytes b" d']
  have "decodeValue depth d = Inr (VBytes b, d') \<longleftrightarrow> elems d < MaxElements \<and>
      (\<exists>arg d2. consumed d (encodeHeader 2 arg) 1 d2 \<and> readString arg d2 = Inr (b, d'))"
    using split by (auto dest: no_loop)
  also have "\<dots> \<longleftrightarrow> elems d < MaxElements \<and> consumed d (Bytes b) 1 d'"
    using consumed_readString [OF rdy] by (simp add: Bytes_def)
  finally show ?thesis
    using depth by (auto simp: decodes_def acceptable_def dest: consumed_elems)
qed

lemma decodeValue_VText:
  assumes rdy: "ready d" and depth: "depth \<le> MaxDepth"
  shows "decodeValue depth d = Inr (VText t, d') \<longleftrightarrow> decodes depth d (VText t) d'"
proof -
  note split = decodeValue_split [OF rdy, of depth "VText t" d']
  have "decodeValue depth d = Inr (VText t, d') \<longleftrightarrow> elems d < MaxElements \<and>
      (\<exists>arg d2. consumed d (encodeHeader 3 arg) 1 d2 \<and>
         readString arg d2 = Inr (bytes_of_string t, d'))"
    using split by (auto dest: no_loop)
  also have "\<dots> \<longleftrightarrow> elems d < MaxElements \<and> consumed d (Text t) 1 d'"
    using consumed_readString [OF rdy] by (simp add: Text_def)
  finally show ?thesis
    using depth by (auto simp: decodes_def acceptable_def dest: consumed_elems)
qed

lemma decodeValue_VArray:
  assumes rdy: "ready d"
    and items: "depth < MaxDepth \<Longrightarrow> item_decoder (decodeValue (depth + 1)) (acceptable (Suc depth))"
  shows "decodeValue depth d = Inr (VArray vs, d') \<longleftrightarrow> decodes depth d (VArray vs) d'"
proof -
  note split = decodeValue_split [OF rdy, of depth "VArray vs" d']
  have "decodeValue depth d = Inr (VArray vs, d') \<longleftrightarrow> elems d < MaxElements \<and>
      (\<exists>arg d2. consumed d (encodeHeader 4 arg) 1 d2 \<and> decodeArray depth (decodeValue (depth + 1)) arg d2 = Inr (VArray vs, d'))"
    using split by (auto dest: no_loop)
  moreover have "consumed d (encodeHeader 4 arg) 1 d2 \<and> decodeArray depth (decodeValue (depth + 1)) arg d2 = Inr (VArray vs, d') \<longleftrightarrow>
      arg = of_nat (length vs) \<and> acceptable depth (VArray vs) \<and> elems d' \<le> MaxElements \<and>
      (consumed d (encodeHeader 4 (of_nat (length vs))) 1 d2 \<and>
       consumed d2 (concat (map encode_value vs)) (sum_list (map value_count vs)) d')"
    if "elems d < MaxElements" for arg d2
  proof (cases "depth < MaxDepth")
    case True
    have "elems d2 \<le> MaxElements" "ready d2" if "consumed d (encodeHeader 4 arg) 1 d2"
      using consumed_elems [OF that] consumed_ready [OF that rdy] \<open>elems d < MaxElements\<close> by simp_all
    then show ?thesis
      using item_decoder.decodeArray_iff [OF items [OF True], of d2 depth arg "VArray vs" d'] True
      by (auto simp: acceptable_VArray)
  qed (simp add: decodeArray_def acceptable_VArray)
  ultimately have "decodeValue depth d = Inr (VArray vs, d') \<longleftrightarrow> elems d < MaxElements \<and>
      acceptable depth (VArray vs) \<and> elems d' \<le> MaxElements \<and>
      consumed d (encode_value (VArray vs)) (value_count (VArray vs)) d'"
    using consumed_header [of d 4 "of_nat (length vs)" "concat (map encode_value vs)" "sum_list (map value_count vs)"]
    by (auto simp: decodes_def Array_def)
  then show ?thesis by (auto simp: decodes_def dest: consumed_elems)
qed

lemma decodeValue_VMap:
  assumes rdy: "ready d"
    and items: "depth < MaxDepth \<Longrightarrow> item_decoder (decodeValue (depth + 1)) (acceptable (Suc depth))"
  shows "decodeValue depth d = Inr (VMap es, d') \<longleftrightarrow> decodes depth d (VMap es) d'"
proof -
  note split = decodeValue_split [OF rdy, of depth "VMap es" d']
  have "decodeValue depth d = Inr (VMap es, d') \<longleftrightarrow> elems d < MaxElements \<and>
      (\<exists>arg d2. consumed d (encodeHeader 5 arg) 1 d2 \<and> decodeMap depth (decodeValue (depth + 1)) arg d2 = Inr (VMap es, d'))"
    using split by (auto dest: no_loop)
  moreover have "consumed d (encodeHeader 5 arg) 1 d2 \<and> decodeMap depth (decodeValue (depth + 1)) arg d2 = Inr (VMap es, d') \<longleftrightarrow>
      arg = of_nat (length es) \<and> acceptable depth (VMap es) \<and> elems d' \<le> MaxElements \<and>
      (consumed d (encodeHeader 5 (of_nat (length es))) 1 d2 \<and>
       consumed d2 (concat (map (\<lambda>(k, v). encode_value k @ encode_value v) es))
         (sum_list (map (\<lambda>(k, v). value_count k + value_count v) es)) d')"
    if "elems d < MaxElements" for arg d2
  proof (cases "depth < MaxDepth")
    case True
    have "elems d2 \<le> MaxElements" "ready d2" if "consumed d (encodeHeader 5 arg) 1 d2"
      using consumed_elems [OF that] consumed_ready [OF that rdy] \<open>elems d < MaxElements\<close> by simp_all
    then show ?thesis
      using item_decoder.decodeMap_iff [OF items [OF True], of d2 depth arg "VMap es" d'] True
      by (auto simp: acceptable_VMap)
  qed (simp add: decodeMap_def acceptable_VMap)
  ultimately have "decodeValue depth d = Inr (VMap es, d') \<longleftrightarrow> elems d < MaxElements \<and>
      acceptable depth (VMap es) \<and> elems d' \<le> MaxElements \<and>
      consumed d (encode_value (VMap es)) (value_count (VMap es)) d'"
    using consumed_header [of d 5 "of_nat (length es)" "concat (map (\<lambda>(k, v). encode_value k @ encode_value v) es)"
        "sum_list (map (\<lambda>(k, v). value_count k + value_count v) es)"]
    by (auto simp: decodes_def Map_def comp_def case_prod_unfold)
  then show ?thesis by (auto simp: decodes_def dest: consumed_elems)
qed

lemma decodeValue_VBool:
  assumes rdy: "ready d" and depth: "depth \<le> MaxDepth"
  shows "decodeValue depth d = Inr (VBool b, d') \<longleftrightarrow> decodes depth d (VBool b) d'"
proof -
  note split = decodeValue_split [OF rdy, of depth "VBool b" d']
  have "decodeValue depth d = Inr (VBool b, d') \<longleftrightarrow> elems d < MaxElements \<and> consumed d (Bool b) 1 d'"
    using split by (cases b) (auto simp: Bool_def dest: no_loop)
  then show ?thesis
    using depth by (auto simp: decodes_def acceptable_def dest: consumed_elems)
qed

lemma decodeValue_VNull:
  assumes rdy: "ready d" and depth: "depth \<le> MaxDepth"
  shows "decodeValue depth d = Inr (VNull, d') \<longleftrightarrow> decodes depth d (VNull) d'"
proof -
  note split = decodeValue_split [OF rdy, of depth "VNull" d']
  have "decodeValue depth d = Inr (VNull, d') \<longleftrightarrow> elems d < MaxElements \<and> consumed d Null 1 d'"
    using split by (auto simp: Null_def dest: no_loop)
  then show ?thesis
    using depth by (auto simp: decodes_def acceptable_def dest: consumed_elems)
qed

lemmas decodeValue_shapes =
  decodeValue_VUint decodeValue_VNegInt decodeValue_VBytes decodeValue_VText decodeValue_VArray
  decodeValue_VMap decodeValue_VBool decodeValue_VNull

lemma decodeValue_iff:
  "ready d \<Longrightarrow> depth \<le> MaxDepth \<Longrightarrow> decodeValue depth d = Inr (v, d') \<longleftrightarrow> decodes depth d v d'"
proof (induction "MaxDepth - depth" arbitrary: depth d v d' rule: less_induct)
  case less
  have items: "item_decoder (decodeValue (depth + 1)) (acceptable (Suc depth))" if "depth < MaxDepth"
    using less.hyps [of "Suc depth"] that
    by unfold_locales (simp add: diff_less_mono2 decodes_def)
  show ?case
    by (cases v) (simp_all only: decodeValue_shapes [OF less.prems(1)] less.prems(2) items)
qed

interpretation items: item_decoder "decodeValue (Suc 0)" "acceptable (Suc 0)"
  by unfold_locales (simp add: decodeValue_iff decodes_def MaxDepth_def)

section \<open>The whole input\<close>

text \<open>The values that fit the limits of one \<open>Decode\<close> call.\<close>

definition decodable :: "cbor_value \<Rightarrow> bool" where
  "decodable v \<longleftrightarrow> canonical v \<and> value_depth v \<le> MaxDepth \<and> value_count v \<le> MaxElements"

text \<open>
  \<open>Decode\<close> succeeds exactly on inputs of at most 1 MiB that start with the
  deterministic encoding of a value with int64 integers and strictly ascending map keys,
  nested at most 8 deep and of at most 10000 items; it returns that value and the length
  of its encoding, and looks at nothing behind it.
\<close>

lemma Decode_iff:
  "Decode b = Inr (v, n) \<longleftrightarrow>
     length b \<le> MaxInputSize \<and> decodable v \<and>
     n = length (encode_value v) \<and> take n b = encode_value v"
proof -
  let ?d = "\<lparr>buf = b, pos = 0, elems = 0\<rparr>"
  have "Decode b = Inr (v, n) \<longleftrightarrow> length b \<le> MaxInputSize \<and>
      (\<exists>d'. decodeValue 0 ?d = Inr (v, d') \<and> pos d' = n)"
    by (auto simp: Decode_def result_simps not_le)
  also have "\<dots> \<longleftrightarrow> length b \<le> MaxInputSize \<and> (\<exists>d'. decodes 0 ?d v d' \<and> pos d' = n)"
    using decodeValue_iff [of ?d 0 v] by (auto simp: ready_def)
  also have "\<dots> \<longleftrightarrow> length b \<le> MaxInputSize \<and> decodable v \<and>
     n = length (encode_value v) \<and> take n b = encode_value v"
  proof -
    have "consumed ?d (encode_value v) (value_count v) d' \<and> pos d' = n \<longleftrightarrow>
        d' = \<lparr>buf = b, pos = n, elems = value_count v\<rparr> \<and>
        n = length (encode_value v) \<and> take n b = encode_value v" for d'
    proof
      assume "consumed ?d (encode_value v) (value_count v) d' \<and> pos d' = n"
      then show "d' = \<lparr>buf = b, pos = n, elems = value_count v\<rparr> \<and>
        n = length (encode_value v) \<and> take n b = encode_value v"
        by (auto simp: consumed_def) (metis append_eq_conv_conj)
    next
      assume a: "d' = \<lparr>buf = b, pos = n, elems = value_count v\<rparr> \<and>
        n = length (encode_value v) \<and> take n b = encode_value v"
      then have "n \<le> length b" by (metis length_take min.cobounded1)
      moreover have "b = encode_value v @ drop n b" using a by (metis append_take_drop_id)
      ultimately show "consumed ?d (encode_value v) (value_count v) d' \<and> pos d' = n"
        using a by (simp add: consumed_def)
    qed
    note key = this
    have "(\<exists>d'. decodes 0 ?d v d' \<and> pos d' = n) \<longleftrightarrow>
        (\<exists>d'. (consumed ?d (encode_value v) (value_count v) d' \<and> pos d' = n) \<and>
           canonical v \<and> value_depth v \<le> MaxDepth \<and> elems d' \<le> MaxElements)"
      by (auto simp: decodes_def acceptable_def)
    then show ?thesis unfolding key by (auto simp: decodable_def)
  qed
  finally show ?thesis .
qed

lemma Decode_encode_value:
  assumes "decodable v" and "length (encode_value v @ r) \<le> MaxInputSize"
  shows "Decode (encode_value v @ r) = Inr (v, length (encode_value v))"
  using assms by (simp add: Decode_iff)

lemma Decode_take: "Decode b = Inr (v, n) \<Longrightarrow> take n b = encode_value v \<and> n \<le> length b"
  by (metis Decode_iff length_take min.cobounded1)

lemma Decode_decodable: "Decode b = Inr (v, n) \<Longrightarrow> decodable v"
  by (simp add: Decode_iff)

lemma Decode_size: "Decode b = Inr (v, n) \<Longrightarrow> length b \<le> MaxInputSize"
  by (simp add: Decode_iff)

lemma encode_value_nonempty: "encode_value v \<noteq> [] \<or> \<not> canonical v"
  by (cases v) (auto simp: Uint_def NegInt_def Bytes_def Text_def Array_def Map_def Bool_def
      Null_def encodeHeader_tail)

text \<open>Inputs that agree on the consumed bytes decode alike.\<close>

lemma Decode_prefix:
  assumes "Decode b = Inr (v, n)" and "length (take n b @ r) \<le> MaxInputSize"
  shows "Decode (take n b @ r) = Inr (v, n)"
proof -
  have t: "take n b = encode_value v" "decodable v" "n = length (encode_value v)"
    using assms(1) unfolding Decode_iff by blast+
  show ?thesis using Decode_encode_value [of v r] t assms(2) by simp
qed

section \<open>Lookups in decoded maps\<close>

definition is_map :: "cbor_value \<Rightarrow> bool" where
  "is_map v \<longleftrightarrow> Value_Type v = TypeMap"

lemma canonical_map_distinct:
  assumes "canonical (VMap es)"
  shows "distinct (map fst es)"
proof -
  have "sorted_wrt (<) (map (\<lambda>k. KeySpan (encode_value k)) (map fst es))"
    using assms by (simp add: comp_def case_prod_unfold)
  then have "distinct (map (\<lambda>k. KeySpan (encode_value k)) (map fst es))"
    by (simp only: strict_sorted_iff)
  then show ?thesis by (rule conjunct1 [OF iffD1 [OF distinct_map]])
qed

definition int_key :: "int \<Rightarrow> cbor_value" where
  "int_key k = (if 0 \<le> k then VUint k else VNegInt k)"

lemma is_int_key_iff:
  "canonical v \<Longrightarrow> is_int_value v \<and> Value_Int v = k \<longleftrightarrow> v = int_key k"
  by (cases v) (auto simp: is_int_value_def int_key_def)

lemma is_text_key_iff: "Value_Type v = TypeText \<and> Value_Text v = k \<longleftrightarrow> v = VText k"
  by (cases v) auto

lemma mapFindInt_map_of:
  "list_all (\<lambda>(k, v). canonical k \<and> canonical v) es \<Longrightarrow>
   mapFindInt es k = map_of es (int_key k)"
proof (induction es k rule: mapFindInt.induct)
  case (2 k v es key)
  then show ?case using is_int_key_iff [of k key] by (cases "k = int_key key") auto
qed simp

lemma mapFindText_map_of: "mapFindText es k = map_of es (VText k)"
  by (induction es k rule: mapFindText.induct) (auto simp: is_text_key_iff)

lemma MapGetInt_VMap: "canonical (VMap es) \<Longrightarrow> MapGetInt (VMap es) k = map_of es (int_key k)"
  by (simp add: MapGetInt_def mapFindInt_map_of)

lemma MapGetText_VMap: "MapGetText (VMap es) k = map_of es (VText k)"
  by (simp add: MapGetText_def mapFindText_map_of)

lemma MapGetInt_Some_iff:
  assumes "canonical v"
  shows "MapGetInt v k = Some x \<longleftrightarrow> (int_key k, x) \<in> set (Value_Map v)"
proof (cases "\<exists>es. v = VMap es")
  case True
  then obtain es where "v = VMap es" by blast
  then show ?thesis
    using assms canonical_map_distinct [of es] by (simp add: MapGetInt_VMap)
qed (cases v; simp add: MapGetInt_def)

lemma MapGetText_Some_iff:
  assumes "canonical v"
  shows "MapGetText v k = Some x \<longleftrightarrow> (VText k, x) \<in> set (Value_Map v)"
proof (cases "\<exists>es. v = VMap es")
  case True
  then obtain es where "v = VMap es" by blast
  then show ?thesis
    using assms canonical_map_distinct [of es] by (simp add: MapGetText_VMap)
qed (cases v; simp add: MapGetText_def)

section \<open>Properties\<close>

text \<open>Evaluation of the encoder, and through \<open>Decode_iff\<close> of the decoder, on small inputs.\<close>

lemmas encode_eval = Uint_def NegInt_def Bytes_def Text_def Array_def Map_def Bool_def Null_def
  encodeHeader_def Let_def

lemmas decode_eval = Decode_iff decodable_def MaxDepth_def MaxElements_def MaxInputSize_def encode_eval

text \<open>
  C26: \<open>Decode\<close> succeeds exactly on inputs of at most 1 MiB that start with the
  deterministic encoding of a value with int64 integers and strictly ascending map keys,
  nested at most 8 deep and of at most 10000 items; it returns that value and the length
  of its encoding, and looks at nothing behind it.
\<close>

theorem Decode_accepts_exactly_canonical:
  "Decode b = Inr (v, n) \<longleftrightarrow>
     length b \<le> MaxInputSize \<and> decodable v \<and>
     n = length (encode_value v) \<and> take n b = encode_value v"
  by (rule Decode_iff)

text \<open>
  The encoding is not malleable: two inputs that decode to the same value agree on the
  bytes that were decoded.
\<close>

lemma Decode_not_malleable:
  assumes "Decode b1 = Inr (v, n1)" and "Decode b2 = Inr (v, n2)"
  shows "n1 = n2 \<and> take n1 b1 = take n2 b2"
proof -
  have "n1 = length (encode_value v)" "n2 = length (encode_value v)"
    using assms unfolding Decode_iff by blast+
  moreover have "take n1 b1 = encode_value v" "take n2 b2 = encode_value v"
    using assms Decode_take by blast+
  ultimately show ?thesis by (simp only: simp_thms)
qed



text \<open>
  In a decoded map no key occurs twice, so a lookup by an integer or a text label is
  the map's entry for that label, whatever the order of the entries.
\<close>

theorem Decode_map_lookup:
  assumes "Decode b = Inr (VMap es, n)"
  shows "distinct (map fst es) \<and>
    (\<forall>k. MapGetInt (VMap es) k = map_of es (int_key k)) \<and>
    (\<forall>s. MapGetText (VMap es) s = map_of es (VText s))"
  using assms canonical_map_distinct [of es]
  by (simp add: Decode_iff decodable_def MapGetInt_VMap MapGetText_VMap)

theorem Decode_map_lookup_witness:
  "distinct (map fst [(VUint 1, VUint 2)]) \<and>
    (\<forall>k. MapGetInt (VMap [(VUint 1, VUint 2)]) k = map_of [(VUint 1, VUint 2)] (int_key k)) \<and>
    (\<forall>s. MapGetText (VMap [(VUint 1, VUint 2)]) s = map_of [(VUint 1, VUint 2)] (VText s))"
  by (rule Decode_map_lookup [of "[0xa1, 0x01, 0x02]" _ 3]) (simp add: decode_eval)

end
