(* ===== verification/Authdata.thy ===== *)
theory Authdata
  imports Cbor_Correct
begin

unbundle bit_operations_syntax

text \<open>
  The authenticatorData parser of \<open>internal/authdata/parse.go\<close> (WebAuthn section 6.1),
  and its characterisation: \<open>Parse\<close> accepts a buffer exactly when the buffer is the
  concatenation of the fields its flag byte declares, with nothing left over.
\<close>

section \<open>The parser\<close>

definition flagUP :: byte where "flagUP = 0x01"
definition flagUV :: byte where "flagUV = 0x04"
definition flagBE :: byte where "flagBE = 0x08"
definition flagBS :: byte where "flagBS = 0x10"
definition flagAT :: byte where "flagAT = 0x40"
definition flagED :: byte where "flagED = 0x80"

definition rpIDHashLen :: nat where "rpIDHashLen = 32"
definition flagsLen :: nat where "flagsLen = 1"
definition signCountLen :: nat where "signCountLen = 4"
definition fixedHeaderLen :: nat where "fixedHeaderLen = rpIDHashLen + flagsLen + signCountLen"
definition aaguidLen :: nat where "aaguidLen = 16"
definition credIDLenLen :: nat where "credIDLenLen = 2"

lemmas authdata_lens =
  rpIDHashLen_def flagsLen_def signCountLen_def fixedHeaderLen_def aaguidLen_def credIDLenLen_def

datatype authdata_error = AuthTruncated | AuthMalformed

record AttestedCredentialData =
  AAGUID :: bytes
  CredentialID :: bytes
  CredentialPublicKey :: cbor_value
  CredentialPublicKeyRaw :: bytes

record AuthData =
  RPIDHash :: bytes
  SignCount :: "32 word"
  UP :: bool
  UV :: bool
  BE :: bool
  BS :: bool
  AT :: bool
  ED :: bool
  Attested :: "AttestedCredentialData option"
  Extensions :: cbor_value

text \<open>The zero \<open>cbor.Value{}\<close> has type 0, \<open>TypeUint\<close>.\<close>

definition zeroValue :: cbor_value where
  "zeroValue = VUint 0"

text \<open>\<open>buf[i:j]\<close>\<close>

definition subslice :: "bytes \<Rightarrow> nat \<Rightarrow> nat \<Rightarrow> bytes" where
  "subslice b i j = take (j - i) (drop i b)"

definition parseAttestedCredentialData ::
    "bytes \<Rightarrow> nat \<Rightarrow> authdata_error + AttestedCredentialData \<times> nat" where
  "parseAttestedCredentialData b i =
     bindE (failIf (length b < i + aaguidLen + credIDLenLen) AuthTruncated) (\<lambda>_.
     let aaguid = subslice b i (i + aaguidLen);
         i = i + aaguidLen;
         credIDLen = be_nat (subslice b i (i + credIDLenLen));
         i = i + credIDLenLen
     in
     bindE (failIf (length b < i + credIDLen) AuthTruncated) (\<lambda>_.
     let credID = subslice b i (i + credIDLen);
         i = i + credIDLen
     in
     bindE (wrapE (\<lambda>_. AuthMalformed) (Decode (drop i b))) (\<lambda>(pubKey, n).
     bindE (failIf (Value_Type pubKey \<noteq> TypeMap) AuthMalformed) (\<lambda>_.
     Inr (\<lparr>AAGUID = aaguid, CredentialID = credID, CredentialPublicKey = pubKey,
            CredentialPublicKeyRaw = subslice b i (i + n)\<rparr>, i + n)))))"

text \<open>The two optional parts, each present only if its flag says so.\<close>

definition parseAttestedPart :: "bytes \<Rightarrow> bool \<Rightarrow> authdata_error + AttestedCredentialData option \<times> nat" where
  "parseAttestedPart b at =
     (if at
      then bindE (parseAttestedCredentialData b fixedHeaderLen)
             (\<lambda>(attested, next). Inr (Some attested, next))
      else Inr (None, fixedHeaderLen))"

definition parseExtensionsPart :: "bytes \<Rightarrow> bool \<Rightarrow> nat \<Rightarrow> authdata_error + cbor_value \<times> nat" where
  "parseExtensionsPart b ed i =
     (if ed
      then bindE (wrapE (\<lambda>_. AuthMalformed) (Decode (drop i b))) (\<lambda>(ext, n).
           bindE (failIf (Value_Type ext \<noteq> TypeMap) AuthMalformed) (\<lambda>_.
           Inr (ext, i + n)))
      else Inr (zeroValue, i))"

definition Parse :: "bytes \<Rightarrow> authdata_error + AuthData" where
  "Parse b =
     bindE (failIf (length b < fixedHeaderLen) AuthTruncated) (\<lambda>_.
     let rpIDHash = subslice b 0 32;
         flags = b ! 32;
         signCount = of_nat (be_nat (subslice b 33 37));
         at = flags AND flagAT \<noteq> 0;
         ed = flags AND flagED \<noteq> 0
     in
     bindE (parseAttestedPart b at) (\<lambda>(attested, i).
     bindE (parseExtensionsPart b ed i) (\<lambda>(ext, j).
     bindE (failIf (j \<noteq> length b) AuthMalformed) (\<lambda>_.
     Inr \<lparr>RPIDHash = rpIDHash, SignCount = signCount,
          UP = flags AND flagUP \<noteq> 0, UV = flags AND flagUV \<noteq> 0,
          BE = flags AND flagBE \<noteq> 0, BS = flags AND flagBS \<noteq> 0,
          AT = at, ED = ed, Attested = attested, Extensions = ext\<rparr>))))"

section \<open>The layout\<close>

text \<open>The bytes of an attested credential and of a whole structure, field by field.\<close>

definition attested_bytes :: "AttestedCredentialData \<Rightarrow> bytes" where
  "attested_bytes a =
     AAGUID a @ be_bytes 2 (length (CredentialID a)) @ CredentialID a @ CredentialPublicKeyRaw a"

definition authdata_bytes :: "byte \<Rightarrow> AuthData \<Rightarrow> bytes" where
  "authdata_bytes flags d =
     RPIDHash d @ [flags] @ be_bytes 4 (unat (SignCount d)) @
     (case Attested d of None \<Rightarrow> [] | Some a \<Rightarrow> attested_bytes a) @
     (if ED d then encode_value (Extensions d) else [])"

definition attested_ok :: "AttestedCredentialData \<Rightarrow> bool" where
  "attested_ok a \<longleftrightarrow>
     length (AAGUID a) = 16 \<and> length (CredentialID a) < 2 ^ 16 \<and>
     is_map (CredentialPublicKey a) \<and> decodable (CredentialPublicKey a) \<and>
     CredentialPublicKeyRaw a = encode_value (CredentialPublicKey a)"

definition flags_ok :: "byte \<Rightarrow> AuthData \<Rightarrow> bool" where
  "flags_ok flags d \<longleftrightarrow>
     (UP d \<longleftrightarrow> flags AND flagUP \<noteq> 0) \<and> (UV d \<longleftrightarrow> flags AND flagUV \<noteq> 0) \<and>
     (BE d \<longleftrightarrow> flags AND flagBE \<noteq> 0) \<and> (BS d \<longleftrightarrow> flags AND flagBS \<noteq> 0) \<and>
     (AT d \<longleftrightarrow> flags AND flagAT \<noteq> 0) \<and> (ED d \<longleftrightarrow> flags AND flagED \<noteq> 0)"

definition extension_bytes :: "AuthData \<Rightarrow> bytes" where
  "extension_bytes d = (if ED d then encode_value (Extensions d) else [])"

text \<open>
  A well-formed structure: the parts present are those the flags declare, each within its
  field's width, and what is handed to \<open>cbor.Decode\<close> within its size limit.
\<close>

definition authdata_ok :: "byte \<Rightarrow> AuthData \<Rightarrow> bool" where
  "authdata_ok flags d \<longleftrightarrow>
     length (RPIDHash d) = 32 \<and> flags_ok flags d \<and>
     (AT d \<longleftrightarrow> Attested d \<noteq> None) \<and>
     (case Attested d of None \<Rightarrow> True | Some a \<Rightarrow> attested_ok a \<and>
        length (CredentialPublicKeyRaw a @ extension_bytes d) \<le> MaxInputSize) \<and>
     (if ED d then is_map (Extensions d) \<and> decodable (Extensions d) \<and>
        length (extension_bytes d) \<le> MaxInputSize
      else Extensions d = zeroValue)"

lemma subslice_mid: "b = p @ x @ r \<Longrightarrow> length p = i \<Longrightarrow> j = i + length x \<Longrightarrow> subslice b i j = x"
  by (simp add: subslice_def)

lemma subslice_split: "i \<le> j \<Longrightarrow> j \<le> length b \<Longrightarrow> drop i b = subslice b i j @ drop j b"
  unfolding subslice_def by (metis append_take_drop_id drop_drop le_add_diff_inverse2)

lemma length_subslice: "i \<le> j \<Longrightarrow> j \<le> length b \<Longrightarrow> length (subslice b i j) = j - i"
  by (simp add: subslice_def)

lemma length_attested_bytes:
  "attested_ok a \<Longrightarrow>
   length (attested_bytes a) = 18 + length (CredentialID a) + length (CredentialPublicKeyRaw a)"
  by (simp add: attested_ok_def attested_bytes_def)

lemma parseAttested_complete:
  assumes ok: "attested_ok a" and p: "length p = i"
    and size: "length (CredentialPublicKeyRaw a @ r) \<le> MaxInputSize"
  shows "parseAttestedCredentialData (p @ attested_bytes a @ r) i =
           Inr (a, i + length (attested_bytes a))"
proof -
  let ?l = "be_bytes 2 (length (CredentialID a))"
  define b where "b = p @ attested_bytes a @ r"
  note parts = ok [unfolded attested_ok_def]
  have b: "b = p @ AAGUID a @ ?l @ CredentialID a @ CredentialPublicKeyRaw a @ r"
    by (simp add: b_def attested_bytes_def)
  have s1: "subslice b i (i + 16) = AAGUID a"
    using b p parts by (intro subslice_mid [OF b]) auto
  have s2: "subslice b (i + 16) (i + 16 + 2) = ?l"
    using b p parts by (intro subslice_mid [of b "p @ AAGUID a"]) auto
  have s3: "subslice b (i + 16 + 2) (i + 16 + 2 + length (CredentialID a)) = CredentialID a"
    using b p parts by (intro subslice_mid [of b "p @ AAGUID a @ ?l"]) auto
  have s4: "subslice b (i + 16 + 2 + length (CredentialID a))
      (i + 16 + 2 + length (CredentialID a) + length (encode_value (CredentialPublicKey a))) =
      CredentialPublicKeyRaw a"
    using b p parts by (intro subslice_mid [of b "p @ AAGUID a @ ?l @ CredentialID a"]) auto
  have dec: "Decode (drop (i + 16 + 2 + length (CredentialID a)) b) =
      Inr (CredentialPublicKey a, length (encode_value (CredentialPublicKey a)))"
    using b p parts size Decode_encode_value [of "CredentialPublicKey a" r] by simp
  have len: "i + 18 + length (CredentialID a) \<le> length b"
    using b p parts by simp
  have "parseAttestedCredentialData b i = Inr (a,
      i + 16 + 2 + length (CredentialID a) + length (encode_value (CredentialPublicKey a)))"
    unfolding parseAttestedCredentialData_def authdata_lens Let_def s1 s2
    using len parts dec s3 s4 by (simp add: is_map_def)
  then show ?thesis
    using parts by (simp add: b_def length_attested_bytes [OF ok])
qed

lemma parseAttested_sound:
  assumes "parseAttestedCredentialData b i = Inr (a, j)"
  shows "attested_ok a \<and> j \<le> length b \<and> drop i b = attested_bytes a @ drop j b \<and>
         length (CredentialPublicKeyRaw a @ drop j b) \<le> MaxInputSize"
proof -
  let ?l = "subslice b (i + 16) (i + 18)"
  let ?n = "be_nat ?l"
  obtain v n where h: "i + 18 \<le> length b" "i + 18 + ?n \<le> length b"
      "Decode (drop (i + 18 + ?n) b) = Inr (v, n)" "is_map v"
    and a: "a = \<lparr>AAGUID = subslice b i (i + 16), CredentialID = subslice b (i + 18) (i + 18 + ?n),
        CredentialPublicKey = v,
        CredentialPublicKeyRaw = subslice b (i + 18 + ?n) (i + 18 + ?n + n)\<rparr>"
    and j: "j = i + 18 + ?n + n"
    using assms
    by (auto simp: parseAttestedCredentialData_def authdata_lens result_simps Let_def is_map_def
        not_less ac_simps)
  have t: "take n (drop (i + 18 + ?n) b) = encode_value v" "decodable v" "n \<le> length b - (i + 18 + ?n)"
    using Decode_take [OF h(3)] Decode_decodable [OF h(3)] by auto
  have raw: "subslice b (i + 18 + ?n) (i + 18 + ?n + n) = encode_value v"
    using t by (simp add: subslice_def)
  have jl: "j \<le> length b" using h t j by simp
  have l: "be_bytes 2 (length (subslice b (i + 18) (i + 18 + ?n))) = ?l"
    using h by (simp add: length_subslice be_bytes_be_nat_len)
  have "?n < 256 ^ 2" using be_nat_less [of ?l] h by (simp add: length_subslice)
  then have ok: "attested_ok a"
    using h t raw by (simp add: attested_ok_def a length_subslice)
  have split: "drop i b = subslice b i (i + 16) @ ?l @ subslice b (i + 18) (i + 18 + ?n) @
      subslice b (i + 18 + ?n) (i + 18 + ?n + n) @ drop j b"
    using subslice_split [of i "i + 16" b] subslice_split [of "i + 16" "i + 18" b]
      subslice_split [of "i + 18" "i + 18 + ?n" b] subslice_split [of "i + 18 + ?n" j b] h jl j by simp
  have "length (drop (i + 18 + ?n) b) \<le> MaxInputSize"
    using h(3) by (rule Decode_size)
  moreover have "drop (i + 18 + ?n) b = CredentialPublicKeyRaw a @ drop j b"
    using subslice_split [of "i + 18 + ?n" j b] jl j by (simp add: a)
  ultimately show ?thesis
    using ok jl split l by (simp add: attested_bytes_def a)
qed

lemma Parse_complete:
  assumes ok: "authdata_ok flags d"
  shows "Parse (authdata_bytes flags d) = Inr d"
proof -
  define b where "b = authdata_bytes flags d"
  let ?c = "be_bytes 4 (unat (SignCount d))"
  define att where "att = (case Attested d of None \<Rightarrow> [] | Some a \<Rightarrow> attested_bytes a)"
  note parts = ok [unfolded authdata_ok_def flags_ok_def]
  have b: "b = RPIDHash d @ [flags] @ ?c @ att @ extension_bytes d"
    by (simp add: b_def authdata_bytes_def att_def extension_bytes_def)
  have hash: "subslice b 0 32 = RPIDHash d"
    using parts by (intro subslice_mid [of b "[]"]) (auto simp: b)
  have fl: "b ! 32 = flags"
    using parts by (simp add: b nth_append)
  have cnt: "subslice b 33 37 = ?c"
    using parts by (intro subslice_mid [of b "RPIDHash d @ [flags]"]) (auto simp: b)
  have count: "of_nat (be_nat ?c) = SignCount d"
    using unsigned_less [of "SignCount d", where 'a = nat] by simp
  have len: "37 \<le> length b" "length b = 37 + length att + length (extension_bytes d)"
    using parts by (simp_all add: b)
  have fixed: "fixedHeaderLen = 37" by (simp add: authdata_lens)
  have A: "parseAttestedPart b (flags AND flagAT \<noteq> 0) = Inr (Attested d, 37 + length att)"
  proof (cases "Attested d")
    case None
    then show ?thesis using parts by (auto simp: att_def parseAttestedPart_def fixed)
  next
    case (Some a)
    have "b = (RPIDHash d @ [flags] @ ?c) @ attested_bytes a @ extension_bytes d"
      by (simp add: b att_def Some)
    then have "parseAttestedCredentialData b 37 = Inr (a, 37 + length (attested_bytes a))"
      using parts Some parseAttested_complete [of a "RPIDHash d @ [flags] @ ?c" 37 "extension_bytes d"]
      by simp
    then show ?thesis using parts Some by (auto simp: att_def parseAttestedPart_def fixed)
  qed
  have E: "parseExtensionsPart b (flags AND flagED \<noteq> 0) (37 + length att) = Inr (Extensions d, length b)"
  proof (cases "ED d")
    case True
    have "drop (37 + length att) b = encode_value (Extensions d) @ []"
    proof -
      let ?p = "RPIDHash d @ [flags] @ ?c @ att"
      have "length ?p = 37 + length att" using parts by simp
      moreover have "b = ?p @ encode_value (Extensions d)" using True by (simp add: b extension_bytes_def)
      ultimately show ?thesis by (metis append_Nil2 append_eq_conv_conj)
    qed
    then have "Decode (drop (37 + length att) b) = Inr (Extensions d, length (encode_value (Extensions d)))"
      using parts True Decode_encode_value [of "Extensions d" "[]"] by (simp add: extension_bytes_def)
    then show ?thesis
      using parts True len by (simp add: is_map_def extension_bytes_def parseExtensionsPart_def)
  next
    case False
    then show ?thesis using parts len by (simp add: extension_bytes_def parseExtensionsPart_def)
  qed
  have "Parse b = Inr \<lparr>RPIDHash = RPIDHash d, SignCount = SignCount d,
          UP = flags AND flagUP \<noteq> 0, UV = flags AND flagUV \<noteq> 0,
          BE = flags AND flagBE \<noteq> 0, BS = flags AND flagBS \<noteq> 0,
          AT = flags AND flagAT \<noteq> 0, ED = flags AND flagED \<noteq> 0,
          Attested = Attested d, Extensions = Extensions d\<rparr>"
    using len(1) by (simp add: Parse_def fixed Let_def fl hash cnt count A E)
  also have "\<dots> = Inr d"
    using parts by (cases d) simp
  finally show ?thesis by (simp add: b_def)
qed

lemma Parse_sound:
  assumes "Parse b = Inr d"
  shows "\<exists>flags. authdata_ok flags d \<and> b = authdata_bytes flags d"
proof -
  let ?f = "b ! 32"
  have fixed: "fixedHeaderLen = 37" by (simp add: authdata_lens)
  obtain att i ext where len: "37 \<le> length b"
    and A: "parseAttestedPart b (?f AND flagAT \<noteq> 0) = Inr (att, i)"
    and E: "parseExtensionsPart b (?f AND flagED \<noteq> 0) i = Inr (ext, length b)"
    and d: "d = \<lparr>RPIDHash = subslice b 0 32, SignCount = of_nat (be_nat (subslice b 33 37)),
          UP = ?f AND flagUP \<noteq> 0, UV = ?f AND flagUV \<noteq> 0,
          BE = ?f AND flagBE \<noteq> 0, BS = ?f AND flagBS \<noteq> 0,
          AT = ?f AND flagAT \<noteq> 0, ED = ?f AND flagED \<noteq> 0, Attested = att, Extensions = ext\<rparr>"
    using assms by (auto simp: Parse_def Let_def fixed result_simps not_less)
  have att: "(?f AND flagAT \<noteq> 0 \<longleftrightarrow> att \<noteq> None) \<and>
      drop 37 b = (case att of None \<Rightarrow> [] | Some a \<Rightarrow> attested_bytes a) @ drop i b \<and>
      (case att of None \<Rightarrow> True | Some a \<Rightarrow> attested_ok a \<and>
         length (CredentialPublicKeyRaw a @ drop i b) \<le> MaxInputSize)"
    using A by (auto simp: parseAttestedPart_def fixed result_simps dest!: parseAttested_sound split: if_splits)
  have ext: "drop i b = extension_bytes d \<and>
      (if ED d then is_map ext \<and> decodable ext \<and> length (extension_bytes d) \<le> MaxInputSize
       else ext = zeroValue)"
  proof (cases "ED d")
    case True
    then obtain n where n: "Decode (drop i b) = Inr (ext, n)" "is_map ext" "i + n = length b"
      using E d by (auto simp: parseExtensionsPart_def result_simps is_map_def split: if_splits)
    then have "drop i b = encode_value ext"
      using Decode_take [OF n(1)] by simp
    then show ?thesis
      using True n(2) d Decode_size [OF n(1)] Decode_decodable [OF n(1)]
      by (simp add: extension_bytes_def)
  next
    case False
    then show ?thesis using E d by (simp add: parseExtensionsPart_def extension_bytes_def split: if_splits)
  qed
  have ok: "authdata_ok ?f d"
    using att ext len d by (auto simp: authdata_ok_def flags_ok_def length_subslice split: option.splits)
  have count: "be_bytes 4 (unat (SignCount d)) = subslice b 33 37"
  proof -
    have "be_nat (subslice b 33 37) < 2 ^ 32"
      using be_nat_less [of "subslice b 33 37"] len by (simp add: length_subslice)
    then show ?thesis
      using len d by (simp add: unat_of_nat length_subslice be_bytes_be_nat_len)
  qed
  have "b = subslice b 0 32 @ [?f] @ subslice b 33 37 @ drop 37 b"
    using len subslice_split [of 0 32 b] subslice_split [of 33 37 b] Cons_nth_drop_Suc [of 32 b]
    by simp
  also have "\<dots> = authdata_bytes ?f d"
    using att ext count d by (simp add: authdata_bytes_def extension_bytes_def)
  finally show ?thesis using ok by blast
qed

lemma Parse_iff: "Parse b = Inr d \<longleftrightarrow> (\<exists>flags. authdata_ok flags d \<and> b = authdata_bytes flags d)"
  using Parse_sound Parse_complete by blast

section \<open>Properties\<close>

text \<open>
  C27: \<open>Parse\<close> accepts a buffer exactly when it is, byte for byte, the layout of the result
  it returns: the 37 fixed bytes, the attested credential if and only if the AT flag is
  set, an extension map if and only if the ED flag is set, each CBOR item in its canonical
  encoding, and nothing behind.
\<close>

theorem Parse_accepts_exactly_layout:
  "Parse b = Inr d \<longleftrightarrow> (\<exists>flags. authdata_ok flags d \<and> b = authdata_bytes flags d)"
  by (rule Parse_iff)

end
