(* ===== verification/Cose.thy ===== *)
theory Cose
  imports Cbor_Correct
begin

text \<open>
  The COSE_Key parser of \<open>internal/cose/key.go\<close>.  The standard library's part is written
  out: \<open>big.Int.SetBytes\<close> and \<open>BitLen\<close>, and the check of \<open>crypto/ecdh\<close>'s \<open>NewPublicKey\<close> for
  the three NIST curves (an uncompressed SEC1 point, both coordinates reduced, on the
  curve).
\<close>

section \<open>Curves and public keys\<close>

datatype Curve = P256 | P384 | P521

fun curve_p :: "Curve \<Rightarrow> int" where
  "curve_p P256 = 2 ^ 256 - 2 ^ 224 + 2 ^ 192 + 2 ^ 96 - 1"
| "curve_p P384 = 2 ^ 384 - 2 ^ 128 - 2 ^ 96 + 2 ^ 32 - 1"
| "curve_p P521 = 2 ^ 521 - 1"

fun curve_b :: "Curve \<Rightarrow> int" where
  "curve_b P256 = 0x5ac635d8aa3a93e7b3ebbd55769886bc651d06b0cc53b0f63bce3c3e27d2604b"
| "curve_b P384 = 0xb3312fa7e23ee7e4988e056be3f82d19181d9c6efe8141120314088f5013875ac656398d8a2ed19d2a85c8edd3ec2aef"
| "curve_b P521 = 0x0051953eb9618e1c9a1f929a21a0b68540eea2da725b99b315f3b8b489918ef109e156193951ec7e937b1652c0bd3bb1bf073573df883d2c34f1ef451fd46b503f00"

fun curve_BitSize :: "Curve \<Rightarrow> nat" where
  "curve_BitSize P256 = 256"
| "curve_BitSize P384 = 384"
| "curve_BitSize P521 = 521"

definition on_curve :: "Curve \<Rightarrow> int \<Rightarrow> int \<Rightarrow> bool" where
  "on_curve c x y \<longleftrightarrow>
     0 \<le> x \<and> x < curve_p c \<and> 0 \<le> y \<and> y < curve_p c \<and>
     y * y mod curve_p c = (x * x * x - 3 * x + curve_b c) mod curve_p c"

text \<open>\<open>big.Int.SetBytes\<close>, \<open>BitLen\<close> and \<open>IsInt64\<close>.\<close>

definition SetBytes :: "bytes \<Rightarrow> int" where
  "SetBytes b = int (be_nat b)"

fun BitLen :: "nat \<Rightarrow> nat" where
  "BitLen n = (if n = 0 then 0 else Suc (BitLen (n div 2)))"

declare BitLen.simps [simp del]

definition IsInt64 :: "int \<Rightarrow> bool" where
  "IsInt64 i \<longleftrightarrow> - (2 ^ 63) \<le> i \<and> i < 2 ^ 63"

definition ecdh_NewPublicKey :: "Curve \<Rightarrow> bytes \<Rightarrow> bool" where
  "ecdh_NewPublicKey c key =
     (let n = (curve_BitSize c + 7) div 8 in
      length key = 1 + 2 * n \<and> key ! 0 = 0x04 \<and>
      on_curve c (SetBytes (take n (drop 1 key))) (SetBytes (drop (1 + n) key)))"

text \<open>
  \<open>crypto.PublicKey\<close>: the three kinds the program looks for, and whatever else a
  certificate may hold.
\<close>

datatype PublicKey =
    EcdsaKey Curve int int
  | RsaKey int int
  | Ed25519Key bytes
  | OtherKey

section \<open>The parser\<close>

datatype cose_error = CoseUnsupportedKeyType | CoseUnsupportedCurve | CoseMalformedKey

text \<open>The labels, key types and curves of RFC 9052 and RFC 9053.\<close>

abbreviation (input) labelKty :: int where "labelKty \<equiv> 1"
abbreviation (input) labelAlg :: int where "labelAlg \<equiv> 3"

abbreviation (input) ktyOKP :: int where "ktyOKP \<equiv> 1"
abbreviation (input) ktyEC2 :: int where "ktyEC2 \<equiv> 2"
abbreviation (input) ktyRSA :: int where "ktyRSA \<equiv> 3"

abbreviation (input) labelEC2Crv :: int where "labelEC2Crv \<equiv> -1"
abbreviation (input) labelEC2X :: int where "labelEC2X \<equiv> -2"
abbreviation (input) labelEC2Y :: int where "labelEC2Y \<equiv> -3"

abbreviation (input) labelRSAN :: int where "labelRSAN \<equiv> -1"
abbreviation (input) labelRSAE :: int where "labelRSAE \<equiv> -2"

abbreviation (input) curveP256 :: int where "curveP256 \<equiv> 1"
abbreviation (input) curveP384 :: int where "curveP384 \<equiv> 2"
abbreviation (input) curveP521 :: int where "curveP521 \<equiv> 3"
abbreviation (input) curveEd25519 :: int where "curveEd25519 \<equiv> 6"

abbreviation (input) labelOKPCrv :: int where "labelOKPCrv \<equiv> -1"
abbreviation (input) labelOKPX :: int where "labelOKPX \<equiv> -2"

definition AlgES256 :: int where "AlgES256 = -7"
definition AlgEdDSA :: int where "AlgEdDSA = -8"
definition AlgRS256 :: int where "AlgRS256 = -257"

definition minRSAModulusBits :: nat where "minRSAModulusBits = 2048"
definition maxRSAExponent :: int where "maxRSAExponent = 2 ^ 31 - 1"
definition Ed25519_PublicKeySize :: nat where "Ed25519_PublicKeySize = 32"

record Key =
  Public :: PublicKey
  Alg :: int

text \<open>\<open>v, ok := v.MapGetInt(l); if !ok || v.Type != cbor.TypeBytes\<close>\<close>

definition getBytes :: "cbor_value \<Rightarrow> int \<Rightarrow> cose_error + bytes" where
  "getBytes v l =
     bindE (someOr (MapGetInt v l) CoseMalformedKey) (\<lambda>x.
     bindE (failIf (Value_Type x \<noteq> TypeBytes) CoseMalformedKey) (\<lambda>_.
     Inr (Value_Bytes x)))"

definition getInt :: "cbor_value \<Rightarrow> int \<Rightarrow> cose_error + int" where
  "getInt v l =
     bindE (someOr (MapGetInt v l) CoseMalformedKey) (\<lambda>x.
     bindE (failIf (Value_Type x \<noteq> TypeUint \<and> Value_Type x \<noteq> TypeNegInt) CoseMalformedKey) (\<lambda>_.
     Inr (Value_Int x)))"

definition curveOf :: "int \<Rightarrow> cose_error + Curve" where
  "curveOf crv =
     (if crv = curveP256 then Inr P256
      else if crv = curveP384 then Inr P384
      else if crv = curveP521 then Inr P521
      else Inl CoseUnsupportedCurve)"

definition parseEC2 :: "cbor_value \<Rightarrow> cose_error + PublicKey" where
  "parseEC2 v =
     bindE (someOr (MapGetInt v labelEC2Crv) CoseMalformedKey) (\<lambda>crv.
     bindE (getBytes v labelEC2X) (\<lambda>x.
     bindE (getBytes v labelEC2Y) (\<lambda>y.
     bindE (curveOf (Value_Int crv)) (\<lambda>c.
     let coordLen = (curve_BitSize c + 7) div 8 in
     bindE (failIf (length x \<noteq> coordLen \<or> length y \<noteq> coordLen) CoseMalformedKey) (\<lambda>_.
     bindE (failIf (\<not> ecdh_NewPublicKey c ([0x04] @ x @ y)) CoseMalformedKey) (\<lambda>_.
     Inr (EcdsaKey c (SetBytes x) (SetBytes y))))))))"

definition parseOKP :: "cbor_value \<Rightarrow> cose_error + PublicKey" where
  "parseOKP v =
     bindE (someOr (MapGetInt v labelOKPCrv) CoseMalformedKey) (\<lambda>crv.
     bindE (failIf (Value_Int crv \<noteq> curveEd25519) CoseUnsupportedCurve) (\<lambda>_.
     bindE (getBytes v labelOKPX) (\<lambda>x.
     bindE (failIf (length x \<noteq> Ed25519_PublicKeySize) CoseMalformedKey) (\<lambda>_.
     Inr (Ed25519Key x)))))"

definition parseRSA :: "cbor_value \<Rightarrow> cose_error + PublicKey" where
  "parseRSA v =
     bindE (getBytes v labelRSAN) (\<lambda>nVal.
     bindE (getBytes v labelRSAE) (\<lambda>eVal.
     let n = SetBytes nVal in
     bindE (failIf (n \<le> 0) CoseMalformedKey) (\<lambda>_.
     bindE (failIf (BitLen (nat n) < minRSAModulusBits) CoseMalformedKey) (\<lambda>_.
     let e = SetBytes eVal in
     bindE (failIf (\<not> IsInt64 e) CoseMalformedKey) (\<lambda>_.
     bindE (failIf (e \<le> 0 \<or> maxRSAExponent < e) CoseMalformedKey) (\<lambda>_.
     Inr (RsaKey n e)))))))"

definition cose_Parse :: "cbor_value \<Rightarrow> cose_error + Key" where
  "cose_Parse v =
     bindE (failIf (Value_Type v \<noteq> TypeMap) CoseMalformedKey) (\<lambda>_.
     bindE (getInt v labelKty) (\<lambda>kty.
     bindE (getInt v labelAlg) (\<lambda>alg.
     bindE (if kty = ktyEC2 then parseEC2 v
            else if kty = ktyRSA then parseRSA v
            else if kty = ktyOKP then parseOKP v
            else Inl CoseUnsupportedKeyType) (\<lambda>pub.
     Inr \<lparr>Public = pub, Alg = alg\<rparr>))))"

section \<open>Accepted keys\<close>

lemma BitLen_le_iff: "BitLen n \<le> k \<longleftrightarrow> n < 2 ^ k"
proof (induction n arbitrary: k rule: BitLen.induct)
  case (1 n)
  show ?case
  proof (cases "n = 0")
    case True
    then show ?thesis by (simp add: BitLen.simps)
  next
    case False
    then have "BitLen n = Suc (BitLen (n div 2))" by (simp add: BitLen.simps [of n])
    then show ?thesis using 1 [OF False] False by (cases k) (auto simp: div_less_iff_less_mult mult.commute)
  qed
qed

lemma BitLen_ge_iff: "2048 \<le> BitLen n \<longleftrightarrow> 2 ^ 2047 \<le> n"
  using BitLen_le_iff [of n 2047] by linarith

text \<open>What a public key must satisfy to be usable at all.\<close>

fun sound_key :: "PublicKey \<Rightarrow> bool" where
  "sound_key (EcdsaKey c x y) \<longleftrightarrow> on_curve c x y"
| "sound_key (RsaKey n e) \<longleftrightarrow> 2 ^ 2047 \<le> n \<and> 0 < e \<and> e < 2 ^ 31"
| "sound_key (Ed25519Key b) \<longleftrightarrow> length b = 32"
| "sound_key OtherKey \<longleftrightarrow> False"

lemma on_curve_NewPublicKey:
  assumes "length x = (curve_BitSize c + 7) div 8" and "length y = (curve_BitSize c + 7) div 8"
  shows "ecdh_NewPublicKey c ([0x04] @ x @ y) \<longleftrightarrow> on_curve c (SetBytes x) (SetBytes y)"
  using assms by (simp add: ecdh_NewPublicKey_def Let_def)

lemma parseEC2_sound: "parseEC2 v = Inr pub \<Longrightarrow> sound_key pub"
  by (auto simp: parseEC2_def result_simps Let_def on_curve_NewPublicKey
      simp del: append_Cons)

lemma parseOKP_sound: "parseOKP v = Inr pub \<Longrightarrow> sound_key pub"
  by (auto simp: parseOKP_def result_simps Ed25519_PublicKeySize_def)

lemma parseRSA_sound: "parseRSA v = Inr pub \<Longrightarrow> sound_key pub"
  by (auto simp: parseRSA_def result_simps Let_def minRSAModulusBits_def maxRSAExponent_def
      not_less BitLen_ge_iff SetBytes_def)

lemma cose_Parse_sound: "cose_Parse v = Inr key \<Longrightarrow> sound_key (Public key)"
  by (auto simp: cose_Parse_def result_simps split: if_splits
      dest: parseEC2_sound parseOKP_sound parseRSA_sound)

lemma cose_Parse_alg:
  "cose_Parse v = Inr key \<Longrightarrow> is_map v \<and> getInt v 3 = Inr (Alg key)"
  by (auto simp: cose_Parse_def is_map_def result_simps)

text \<open>A COSE key, label by label, as a relation between the decoded map and the key.\<close>

definition int_at :: "cbor_value \<Rightarrow> int \<Rightarrow> int \<Rightarrow> bool" where
  "int_at v l i \<longleftrightarrow> (\<exists>u. MapGetInt v l = Some u \<and> is_int_value u \<and> Value_Int u = i)"

definition bytes_at :: "cbor_value \<Rightarrow> int \<Rightarrow> bytes \<Rightarrow> bool" where
  "bytes_at v l b \<longleftrightarrow> MapGetInt v l = Some (VBytes b)"

fun curve_id :: "Curve \<Rightarrow> int" where
  "curve_id P256 = 1"
| "curve_id P384 = 2"
| "curve_id P521 = 3"

definition coord_len :: "Curve \<Rightarrow> nat" where
  "coord_len c = (curve_BitSize c + 7) div 8"

fun describes :: "cbor_value \<Rightarrow> PublicKey \<Rightarrow> bool" where
  "describes v (EcdsaKey c x y) \<longleftrightarrow>
     int_at v 1 2 \<and> int_at v (-1) (curve_id c) \<and> on_curve c x y \<and>
     bytes_at v (-2) (be_bytes (coord_len c) (nat x)) \<and>
     bytes_at v (-3) (be_bytes (coord_len c) (nat y))"
| "describes v (RsaKey n e) \<longleftrightarrow>
     int_at v 1 3 \<and> 2 ^ 2047 \<le> n \<and> 0 < e \<and> e < 2 ^ 31 \<and>
     (\<exists>nb eb. bytes_at v (-1) nb \<and> bytes_at v (-2) eb \<and> n = SetBytes nb \<and> e = SetBytes eb)"
| "describes v (Ed25519Key b) \<longleftrightarrow>
     int_at v 1 1 \<and> int_at v (-1) 6 \<and> bytes_at v (-2) b \<and> length b = 32"
| "describes v OtherKey \<longleftrightarrow> False"

lemma getBytes_iff: "getBytes v l = Inr b \<longleftrightarrow> bytes_at v l b"
proof -
  have "Value_Type x = TypeBytes \<and> Value_Bytes x = b \<longleftrightarrow> x = VBytes b" for x
    by (cases x) auto
  then show ?thesis by (auto simp: getBytes_def bytes_at_def result_simps)
qed

lemma getInt_iff: "getInt v l = Inr i \<longleftrightarrow> int_at v l i"
  by (auto simp: getInt_def int_at_def is_int_value_def result_simps)

lemma nonzero_int: "Value_Int x \<noteq> 0 \<Longrightarrow> is_int_value x"
  by (cases x) (auto simp: is_int_value_def)

lemma Value_Int_at:
  "i \<noteq> 0 \<Longrightarrow> (\<exists>u. MapGetInt v l = Some u \<and> Value_Int u = i) \<longleftrightarrow> int_at v l i"
  using nonzero_int by (auto simp: int_at_def)

lemma int_at_fun: "int_at v l i \<Longrightarrow> int_at v l j \<Longrightarrow> i = j"
  by (auto simp: int_at_def)

lemma curveOf_iff: "curveOf i = Inr c \<longleftrightarrow> i = curve_id c"
  by (cases c) (auto simp: curveOf_def)

lemma curve_p_less: "curve_p c < 256 ^ coord_len c"
  by (cases c) (auto simp: coord_len_def)

lemma SetBytes_be_bytes:
  "length b = coord_len c \<Longrightarrow> SetBytes b = x \<Longrightarrow> b = be_bytes (coord_len c) (nat x)"
  by (auto simp: SetBytes_def be_bytes_be_nat_len)

lemma be_bytes_SetBytes:
  assumes "0 \<le> x" and "x < curve_p c"
  shows "SetBytes (be_bytes (coord_len c) (nat x)) = x"
proof -
  have "nat x < 256 ^ coord_len c"
    using assms curve_p_less [of c] by (simp add: nat_less_iff)
  then show ?thesis using assms by (simp add: SetBytes_def)
qed

lemma parseEC2_iff:
  "parseEC2 v = Inr pub \<longleftrightarrow>
     (\<exists>c x y. pub = EcdsaKey c x y \<and> int_at v (-1) (curve_id c) \<and> on_curve c x y \<and>
        bytes_at v (-2) (be_bytes (coord_len c) (nat x)) \<and>
        bytes_at v (-3) (be_bytes (coord_len c) (nat y)))" (is "?L = ?R")
proof
  assume ?L
  then obtain crv x y c where h: "MapGetInt v (-1) = Some crv" "bytes_at v (-2) x" "bytes_at v (-3) y"
      "Value_Int crv = curve_id c" "length x = coord_len c" "length y = coord_len c"
      "on_curve c (SetBytes x) (SetBytes y)" "pub = EcdsaKey c (SetBytes x) (SetBytes y)"
    by (auto simp: parseEC2_def result_simps Let_def on_curve_NewPublicKey getBytes_iff curveOf_iff
        coord_len_def simp del: append_Cons)
  have "int_at v (-1) (curve_id c)"
    using h Value_Int_at [of "curve_id c" v "-1"] by (cases c) auto
  moreover have "x = be_bytes (coord_len c) (nat (SetBytes x))" "y = be_bytes (coord_len c) (nat (SetBytes y))"
    using SetBytes_be_bytes [OF h(5) refl] SetBytes_be_bytes [OF h(6) refl] by auto
  ultimately show ?R
    using h by (intro exI [of _ c] exI [of _ "SetBytes x"] exI [of _ "SetBytes y"]) auto
next
  assume ?R
  then obtain c x y where h: "pub = EcdsaKey c x y" "int_at v (-1) (curve_id c)" "on_curve c x y"
      "bytes_at v (-2) (be_bytes (coord_len c) (nat x))"
      "bytes_at v (-3) (be_bytes (coord_len c) (nat y))" by blast
  have "SetBytes (be_bytes (coord_len c) (nat x)) = x" "SetBytes (be_bytes (coord_len c) (nat y)) = y"
    using h(3) by (auto simp: on_curve_def intro: be_bytes_SetBytes)
  moreover obtain crv where "MapGetInt v (-1) = Some crv" "Value_Int crv = curve_id c"
    using h(2) by (auto simp: int_at_def)
  moreover have "getBytes v (-2) = Inr (be_bytes (coord_len c) (nat x))"
      "getBytes v (-3) = Inr (be_bytes (coord_len c) (nat y))" "curveOf (curve_id c) = Inr c"
    using h getBytes_iff curveOf_iff by blast+
  ultimately show ?L
    using h on_curve_NewPublicKey [of "be_bytes (coord_len c) (nat x)" c "be_bytes (coord_len c) (nat y)"]
    by (simp add: parseEC2_def Let_def coord_len_def del: append_Cons)
qed

lemma parseOKP_iff:
  "parseOKP v = Inr pub \<longleftrightarrow>
     (\<exists>b. pub = Ed25519Key b \<and> int_at v (-1) 6 \<and> bytes_at v (-2) b \<and> length b = 32)"
  using Value_Int_at [of 6 v "-1"]
  by (auto simp: parseOKP_def result_simps getBytes_iff Ed25519_PublicKeySize_def)

lemma parseRSA_iff:
  "parseRSA v = Inr pub \<longleftrightarrow>
     (\<exists>nb eb. pub = RsaKey (SetBytes nb) (SetBytes eb) \<and> bytes_at v (-1) nb \<and> bytes_at v (-2) eb \<and>
        2 ^ 2047 \<le> SetBytes nb \<and> 0 < SetBytes eb \<and> SetBytes eb < 2 ^ 31)"
proof -
  have n: "\<not> SetBytes nb \<le> 0 \<and> \<not> BitLen (nat (SetBytes nb)) < minRSAModulusBits \<longleftrightarrow> 2 ^ 2047 \<le> SetBytes nb" for nb
    by (auto simp: minRSAModulusBits_def not_less BitLen_ge_iff SetBytes_def)
  have e: "IsInt64 i \<and> \<not> (i \<le> 0 \<or> maxRSAExponent < i) \<longleftrightarrow> 0 < i \<and> i < 2 ^ 31" for i
    by (auto simp: IsInt64_def maxRSAExponent_def)
  show ?thesis
    unfolding parseRSA_def bindE_Inr_iff Let_def failIf_Inr_iff getBytes_iff using n e by auto
qed

lemma cose_Parse_iff:
  "cose_Parse v = Inr key \<longleftrightarrow> is_map v \<and> int_at v 3 (Alg key) \<and> describes v (Public key)"
proof -
  have "cose_Parse v = Inr key \<longleftrightarrow> is_map v \<and> int_at v 3 (Alg key) \<and>
      (int_at v 1 2 \<and> parseEC2 v = Inr (Public key) \<or> int_at v 1 3 \<and> parseRSA v = Inr (Public key) \<or>
       int_at v 1 1 \<and> parseOKP v = Inr (Public key))"
  proof -
    have "(\<exists>kty. int_at v 1 kty \<and> (if kty = 2 then parseEC2 v else if kty = 3 then parseRSA v
          else if kty = 1 then parseOKP v else Inl CoseUnsupportedKeyType) = Inr pub) \<longleftrightarrow>
        (int_at v 1 2 \<and> parseEC2 v = Inr pub \<or> int_at v 1 3 \<and> parseRSA v = Inr pub \<or>
         int_at v 1 1 \<and> parseOKP v = Inr pub)" (is "?A \<longleftrightarrow> ?B") for pub
    proof
      show "?A \<Longrightarrow> ?B" by (auto split: if_splits)
      assume ?B
      then show ?A
      proof (elim disjE conjE)
        assume "int_at v 1 2" "parseEC2 v = Inr pub"
        then show ?A by (intro exI [of _ 2]) simp
      next
        assume "int_at v 1 3" "parseRSA v = Inr pub"
        then show ?A by (intro exI [of _ 3]) simp
      next
        assume "int_at v 1 1" "parseOKP v = Inr pub"
        then show ?A by (intro exI [of _ 1]) simp
      qed
    qed
    note kty = this
    show ?thesis
      unfolding cose_Parse_def bindE_Inr_iff failIf_Inr_iff getInt_iff is_map_def not_not
        sum.inject kty [symmetric]
      by (cases key) auto
  qed
  also have "\<dots> \<longleftrightarrow> is_map v \<and> int_at v 3 (Alg key) \<and> describes v (Public key)"
    by (cases "Public key") (auto simp: parseEC2_iff parseRSA_iff parseOKP_iff)
  finally show ?thesis .
qed

section \<open>Properties\<close>

text \<open>
  C30: \<open>cose.Parse\<close> accepts exactly the maps that describe a usable key label by label: an
  EC2 key is a point on its curve whose coordinates have the curve's width, an RSA key has
  a modulus of at least 2048 bits and an exponent in 1 .. 2^31-1, an OKP key has 32 bytes;
  the returned key and algorithm are the ones of the map.
\<close>

theorem cose_Parse_accepts_exactly_usable_keys:
  "cose_Parse v = Inr key \<longleftrightarrow> is_map v \<and> int_at v 3 (Alg key) \<and> describes v (Public key)"
  by (rule cose_Parse_iff)

text \<open>
  No key that the parser accepts is degenerate: an elliptic-curve point is reduced and
  on its curve, whatever bytes the client sent.
\<close>

theorem cose_Parse_never_degenerate:
  assumes "cose_Parse v = Inr key"
  shows "sound_key (Public key)"
  using assms by (rule cose_Parse_sound)

theorem cose_Parse_never_degenerate_witness:
  "sound_key (Ed25519Key (replicate 32 7))"
  using cose_Parse_never_degenerate [of "VMap [(VUint 1, VUint 1), (VUint 3, VNegInt (-8)),
      (VNegInt (-1), VUint 6), (VNegInt (-2), VBytes (replicate 32 7))]"
      "\<lparr>Public = Ed25519Key (replicate 32 7), Alg = -8\<rparr>"]
  by (simp add: cose_Parse_iff is_map_def int_at_def bytes_at_def MapGetInt_def is_int_value_def)

end
