(* ===== verification/Policy.thy ===== *)
theory Policy
  imports Sha256
begin

text \<open>
  The checks of \<open>internal/policy\<close>: \<open>flags.go\<close> (user presence and verification, and the
  per-ceremony override of the verification policy) and \<open>origin.go\<close> (the origin
  allowlist and the rpIdHash).  A \<open>UVPolicy\<close> is a string in the code, so values outside
  the three constants exist and are handled as the code handles them.
\<close>

datatype policy_error =
    UserNotPresent | UserNotVerified | InvalidUVPolicy
  | OriginNotAllowed | RPIDHashMismatch

type_synonym UVPolicy = string

definition UVRequired :: UVPolicy where "UVRequired = ''required''"
definition UVPreferred :: UVPolicy where "UVPreferred = ''preferred''"
definition UVDiscouraged :: UVPolicy where "UVDiscouraged = ''discouraged''"

lemmas uv_policies = UVRequired_def UVPreferred_def UVDiscouraged_def

definition CheckFlags :: "UVPolicy \<Rightarrow> bool \<Rightarrow> bool \<Rightarrow> policy_error + bool" where
  "CheckFlags policy up uv =
     (if \<not> up then Inl UserNotPresent
      else if policy = UVRequired then (if \<not> uv then Inl UserNotVerified else Inr uv)
      else if policy = UVPreferred \<or> policy = UVDiscouraged then Inr uv
      else Inl InvalidUVPolicy)"

definition uvStrictness :: "UVPolicy \<Rightarrow> nat option" where
  "uvStrictness p =
     (if p = UVDiscouraged then Some 0
      else if p = UVPreferred then Some 1
      else if p = UVRequired then Some 2
      else None)"

text \<open>Indexing a Go map with a missing key gives the zero value.\<close>

definition strictness :: "UVPolicy \<Rightarrow> nat" where
  "strictness p = (case uvStrictness p of None \<Rightarrow> 0 | Some n \<Rightarrow> n)"

definition EffectivePolicy :: "UVPolicy \<Rightarrow> UVPolicy \<Rightarrow> UVPolicy" where
  "EffectivePolicy floor requested =
     (case uvStrictness requested of
        None \<Rightarrow> floor
      | Some reqStrength \<Rightarrow> if strictness floor < reqStrength then requested else floor)"

record OriginAllowlist =
  allowed :: "string set"

definition NewOriginAllowlist :: "string list \<Rightarrow> OriginAllowlist" where
  "NewOriginAllowlist origins = \<lparr>allowed = set origins\<rparr>"

definition CheckOrigin :: "OriginAllowlist \<Rightarrow> string \<Rightarrow> policy_error + unit" where
  "CheckOrigin a origin = (if origin \<in> allowed a then Inr () else Inl OriginNotAllowed)"

definition CheckRPIDHash :: "string \<Rightarrow> bytes \<Rightarrow> policy_error + unit" where
  "CheckRPIDHash rpID gotHash =
     (if sha256 (bytes_of_string rpID) \<noteq> gotHash then Inl RPIDHashMismatch else Inr ())"

section \<open>What the checks enforce\<close>

definition valid_policy :: "UVPolicy \<Rightarrow> bool" where
  "valid_policy p \<longleftrightarrow> p \<in> {UVRequired, UVPreferred, UVDiscouraged}"

lemma CheckFlags_Inr_iff:
  "CheckFlags p up uv = Inr r \<longleftrightarrow> up \<and> valid_policy p \<and> r = uv \<and> (p = UVRequired \<longrightarrow> uv)"
  by (auto simp: CheckFlags_def valid_policy_def)

lemma CheckOrigin_Inr_iff [result_simps]: "CheckOrigin a o' = Inr u \<longleftrightarrow> o' \<in> allowed a"
  by (simp add: CheckOrigin_def)

lemma CheckRPIDHash_Inr_iff [result_simps]:
  "CheckRPIDHash rpID h = Inr u \<longleftrightarrow> h = sha256 (bytes_of_string rpID)"
  by (auto simp: CheckRPIDHash_def)

text \<open>The effective policy is the stricter one of the two.\<close>

lemma strictness_simps [simp]:
  "strictness UVDiscouraged = 0" "strictness UVPreferred = 1" "strictness UVRequired = 2"
  by (simp_all add: strictness_def uvStrictness_def uv_policies)

lemma valid_policy_cases:
  "valid_policy p \<longleftrightarrow> uvStrictness p \<noteq> None"
  by (auto simp: valid_policy_def uvStrictness_def)

lemma EffectivePolicy_strictness:
  "valid_policy f \<Longrightarrow> strictness (EffectivePolicy f r) = max (strictness f) (strictness r)"
  by (cases "uvStrictness r") (auto simp: EffectivePolicy_def strictness_def [of r] max_def)

lemma EffectivePolicy_either: "EffectivePolicy f r = f \<or> EffectivePolicy f r = r"
  by (auto simp: EffectivePolicy_def split: option.splits)

lemma EffectivePolicy_valid: "valid_policy f \<Longrightarrow> valid_policy (EffectivePolicy f r)"
  by (auto simp: EffectivePolicy_def valid_policy_cases split: option.splits)

lemma EffectivePolicy_required:
  "EffectivePolicy f r = UVRequired \<longleftrightarrow> f = UVRequired \<or> r = UVRequired"
  by (auto simp: EffectivePolicy_def strictness_def uvStrictness_def uv_policies split: if_splits)

lemma EffectivePolicy_never_loosens:
  assumes "valid_policy f" and "CheckFlags (EffectivePolicy f r) up uv = Inr u"
  shows "CheckFlags f up uv = Inr u"
  using assms by (auto simp: CheckFlags_Inr_iff EffectivePolicy_required)

section \<open>Properties\<close>

text \<open>
  C31: The effective policy of a ceremony is the stricter of the server's floor and the
  caller's request (an unknown request counts as none), and a login that passes it also
  passes the floor.
\<close>

theorem EffectivePolicy_is_the_stricter:
  assumes "valid_policy f"
  shows "valid_policy (EffectivePolicy f r) \<and>
    strictness (EffectivePolicy f r) = max (strictness f) (strictness r) \<and>
    (CheckFlags (EffectivePolicy f r) up uv = Inr u \<longrightarrow> CheckFlags f up uv = Inr u)"
  using assms EffectivePolicy_valid EffectivePolicy_strictness EffectivePolicy_never_loosens
  by blast

theorem EffectivePolicy_is_the_stricter_witness:
  "valid_policy (EffectivePolicy UVPreferred UVRequired) \<and>
    strictness (EffectivePolicy UVPreferred UVRequired) = 2 \<and>
    CheckFlags UVPreferred True True = Inr True"
  using EffectivePolicy_is_the_stricter [of UVPreferred UVRequired True True True]
  by (simp add: valid_policy_def EffectivePolicy_def strictness_def uvStrictness_def CheckFlags_def uv_policies)

end
