(* ===== verification/Challenge.thy ===== *)
theory Challenge
  imports Sha256
begin

unbundle bit_operations_syntax

text \<open>
  The challenge store of \<open>internal/ceremony/challenge.go\<close>: single-use, expiring
  challenges for each pair of username and purpose.  Times are nanoseconds of the
  machine's clock; the store's \<open>now\<close> field is a function of that clock, the identity
  unless \<open>SetClock\<close> replaced it.  What \<open>rand.Read\<close> yields for a buffer of a given
  length is an argument of \<open>Issue\<close> (\<open>None\<close> for a failing source); the clock readings of one
  call are taken at one instant.  Each method runs under the store's mutex, so it
  is one step; \<open>Consume\<close> compares after unlocking, but only its own copy of the entry.
\<close>

section \<open>The store\<close>

definition ChallengeLength :: nat where "ChallengeLength = 32"
definition ChallengeTTL :: time where "ChallengeTTL = 120 * second"

datatype challenge_error =
    RandFailed | ChallengeNotFound | ChallengeExpired | ChallengeMismatch

type_synonym Purpose = string

definition PurposeRegister :: Purpose where "PurposeRegister = ''register''"
definition PurposeLogin :: Purpose where "PurposeLogin = ''login''"

type_synonym pendingKey = "string \<times> Purpose"

record pendingChallenge =
  challenge :: bytes
  issuedAt :: time

record ChallengeStore =
  pending :: "pendingKey \<rightharpoonup> pendingChallenge"
  now :: "time \<Rightarrow> time"
  ttl :: time

definition NewChallengeStore :: ChallengeStore where
  "NewChallengeStore = \<lparr>pending = Map.empty, now = (\<lambda>t. t), ttl = ChallengeTTL\<rparr>"

definition expired :: "ChallengeStore \<Rightarrow> time \<Rightarrow> pendingChallenge \<Rightarrow> bool" where
  "expired s t pc \<longleftrightarrow> ttl s < t - issuedAt pc"

definition purgeExpiredLocked :: "time \<Rightarrow> ChallengeStore \<Rightarrow> ChallengeStore" where
  "purgeExpiredLocked clock s =
     (let t = now s clock in
      s\<lparr>pending := (\<lambda>k. case pending s k of
           None \<Rightarrow> None
         | Some pc \<Rightarrow> if expired s t pc then None else Some pc)\<rparr>)"

definition Issue ::
    "string \<Rightarrow> Purpose \<Rightarrow> (nat \<Rightarrow> bytes option) \<Rightarrow> time \<Rightarrow> (ChallengeStore, challenge_error, bytes) op" where
  "Issue username purpose rand clock s =
     (case rand ChallengeLength of
        None \<Rightarrow> (Inl RandFailed, s)
      | Some b \<Rightarrow>
          let s = purgeExpiredLocked clock s
          in (Inr b, s\<lparr>pending := (pending s)((username, purpose) \<mapsto>
                \<lparr>challenge = b, issuedAt = now s clock\<rparr>)\<rparr>))"

definition Consume ::
    "string \<Rightarrow> Purpose \<Rightarrow> bytes \<Rightarrow> time \<Rightarrow> (ChallengeStore, challenge_error, unit) op" where
  "Consume username purpose got clock s =
     (case pending s (username, purpose) of
        None \<Rightarrow> (Inl ChallengeNotFound, s)
      | Some pc \<Rightarrow>
          let s' = s\<lparr>pending := (pending s)((username, purpose) := None)\<rparr>
          in if ConstantTimeCompare (challenge pc) got \<noteq> 1 then (Inl ChallengeMismatch, s')
             else if expired s' (now s' clock) pc then (Inl ChallengeExpired, s')
             else (Inr (), s'))"

definition SetClock :: "(time \<Rightarrow> time) \<Rightarrow> ChallengeStore \<Rightarrow> ChallengeStore" where
  "SetClock f s = s\<lparr>now := f\<rparr>"

section \<open>One operation\<close>

text \<open>Exactly when \<open>Consume\<close> succeeds; the entry is gone in every case.\<close>

lemma Consume_Inr_iff:
  "Consume u p got t s = (Inr (), s') \<longleftrightarrow>
     (\<exists>t0. pending s (u, p) = Some \<lparr>challenge = got, issuedAt = t0\<rparr> \<and> now s t - t0 \<le> ttl s) \<and>
     s' = s\<lparr>pending := (pending s)((u, p) := None)\<rparr>"
proof (cases "pending s (u, p)")
  case None
  then show ?thesis by (simp add: Consume_def)
next
  case (Some pc)
  have "pc = \<lparr>challenge = got, issuedAt = t0\<rparr> \<longleftrightarrow> challenge pc = got \<and> t0 = issuedAt pc" for t0
    by (cases pc) auto
  then show ?thesis by (auto simp: Consume_def Some Let_def expired_def)
qed

lemma Consume_removes: "pending (snd (Consume u p got t s)) (u, p) = None"
  by (simp add: Consume_def Let_def split: option.split)

lemma Consume_frame:
  "k \<noteq> (u, p) \<Longrightarrow> pending (snd (Consume u p got t s)) k = pending s k"
  by (auto simp: Consume_def Let_def split: option.split)

lemma Consume_config [simp]:
  "now (snd (Consume u p got t s)) = now s" "ttl (snd (Consume u p got t s)) = ttl s"
  by (simp_all add: Consume_def Let_def split: option.split)

lemma purge_pending:
  "pending (purgeExpiredLocked t s) k = Some pc \<longleftrightarrow>
     pending s k = Some pc \<and> now s t - issuedAt pc \<le> ttl s"
  by (auto simp: purgeExpiredLocked_def Let_def expired_def not_less split: option.splits)

lemma purge_config [simp]:
  "now (purgeExpiredLocked t s) = now s" "ttl (purgeExpiredLocked t s) = ttl s"
  by (simp_all add: purgeExpiredLocked_def Let_def)

lemma Issue_pending:
  "Issue u p rnd t s = (Inr b, s') \<Longrightarrow>
     rnd ChallengeLength = Some b \<and> now s' = now s \<and> ttl s' = ttl s \<and>
     pending s' (u, p) = Some \<lparr>challenge = b, issuedAt = now s t\<rparr>"
  by (auto simp: Issue_def Let_def split: option.splits)

lemma Issue_frame:
  "Issue u p rnd t s = (Inr b, s') \<Longrightarrow> k \<noteq> (u, p) \<Longrightarrow>
     pending s' k = Some pc \<longleftrightarrow> pending s k = Some pc \<and> now s t - issuedAt pc \<le> ttl s"
  by (auto simp: Issue_def Let_def purge_pending split: option.splits)

lemma Issue_bounds_pending:
  "Issue u p rnd t s = (Inr b, s') \<Longrightarrow> 0 \<le> ttl s \<Longrightarrow> pending s' k = Some pc \<Longrightarrow>
     now s t - issuedAt pc \<le> ttl s"
  by (auto simp: Issue_def Let_def purge_pending split: option.splits if_splits)

section \<open>The contract the ceremonies rely on\<close>

text \<open>
  One-time challenges: what is outstanding for a key, how it gets there and how it is
  redeemed.  The lemmas are the facts that registration and login use.
\<close>

locale one_time_challenges =
  fixes outstanding :: "'s \<Rightarrow> 'k \<Rightarrow> ('c \<times> time) option"
    and issue :: "'k \<Rightarrow> 'c \<Rightarrow> time \<Rightarrow> 's \<Rightarrow> 's"
    and redeem :: "'k \<Rightarrow> 'c \<Rightarrow> time \<Rightarrow> 's \<Rightarrow> bool"
    and redeemed :: "'k \<Rightarrow> 'c \<Rightarrow> time \<Rightarrow> 's \<Rightarrow> 's"
    and clock :: "'s \<Rightarrow> time \<Rightarrow> time"
    and life :: "'s \<Rightarrow> time"
  assumes issue_same: "outstanding (issue k c t s) k = Some (c, clock s t)"
    and issue_other: "k' \<noteq> k \<Longrightarrow> outstanding (issue k c t s) k' = Some x \<Longrightarrow> outstanding s k' = Some x"
    and issue_config: "clock (issue k c t s) = clock s" "life (issue k c t s) = life s"
    and redeem_iff: "redeem k c t s \<longleftrightarrow>
      (\<exists>t0. outstanding s k = Some (c, t0) \<and> clock s t - t0 \<le> life s)"
    and redeemed_same: "outstanding (redeemed k c t s) k = None"
    and redeemed_other: "k' \<noteq> k \<Longrightarrow> outstanding (redeemed k c t s) k' = outstanding s k'"
begin

lemma no_second_use: "\<not> redeem k c' t' (redeemed k c t s)"
  by (simp add: redeem_iff redeemed_same)

lemma fresh_use: "clock s t' - clock s t \<le> life s \<Longrightarrow> redeem k c t' (issue k c t s)"
  by (simp add: redeem_iff issue_same issue_config)

lemma wrong_challenge: "c' \<noteq> c \<Longrightarrow> \<not> redeem k c' t' (issue k c t s)"
  by (simp add: redeem_iff issue_same)

lemma stale_use: "life s < clock s t' - clock s t \<Longrightarrow> \<not> redeem k c t' (issue k c t s)"
  by (simp add: redeem_iff issue_same issue_config)

lemma issue_creates_only_its_own: "k' \<noteq> k \<Longrightarrow> redeem k' c' t' (issue k c t s) \<Longrightarrow> redeem k' c' t' s"
  by (auto simp: redeem_iff issue_config dest: issue_other)

end

definition outstanding_challenge :: "ChallengeStore \<Rightarrow> pendingKey \<Rightarrow> (bytes \<times> time) option" where
  "outstanding_challenge s k = map_option (\<lambda>pc. (challenge pc, issuedAt pc)) (pending s k)"

definition issued_state :: "pendingKey \<Rightarrow> bytes \<Rightarrow> time \<Rightarrow> ChallengeStore \<Rightarrow> ChallengeStore" where
  "issued_state k b t s = snd (Issue (fst k) (snd k) (\<lambda>_. Some b) t s)"

definition redeemable :: "pendingKey \<Rightarrow> bytes \<Rightarrow> time \<Rightarrow> ChallengeStore \<Rightarrow> bool" where
  "redeemable k b t s \<longleftrightarrow> fst (Consume (fst k) (snd k) b t s) = Inr ()"

definition consumed_state :: "pendingKey \<Rightarrow> bytes \<Rightarrow> time \<Rightarrow> ChallengeStore \<Rightarrow> ChallengeStore" where
  "consumed_state k b t s = snd (Consume (fst k) (snd k) b t s)"

lemma Issue_Some: "Issue u p (\<lambda>_. Some b) t s = (Inr b, issued_state (u, p) b t s)"
  by (simp add: issued_state_def Issue_def Let_def)

lemma outstanding_Some:
  "outstanding_challenge s k = Some (c, t0) \<longleftrightarrow> pending s k = Some \<lparr>challenge = c, issuedAt = t0\<rparr>"
proof -
  have "pc = \<lparr>challenge = c, issuedAt = t0\<rparr> \<longleftrightarrow> challenge pc = c \<and> issuedAt pc = t0" for pc
    by (cases pc) auto
  then show ?thesis by (auto simp: outstanding_challenge_def)
qed

lemma redeemable_iff:
  "redeemable k c t s \<longleftrightarrow> (\<exists>t0. outstanding_challenge s k = Some (c, t0) \<and> now s t - t0 \<le> ttl s)"
proof -
  have "fst (Consume u p c t s) = Inr () \<longleftrightarrow> (\<exists>s'. Consume u p c t s = (Inr (), s'))" for u p
    by (cases "Consume u p c t s") auto
  then show ?thesis
    unfolding redeemable_def outstanding_Some Consume_Inr_iff by simp
qed

interpretation ch: one_time_challenges outstanding_challenge issued_state redeemable consumed_state now ttl
proof
  fix k :: pendingKey and c t s
  show "outstanding_challenge (issued_state k c t s) k = Some (c, now s t)"
    using Issue_pending [of "fst k" "snd k" "\<lambda>_. Some c" t s c "issued_state k c t s"]
      Issue_Some [of "fst k" "snd k" c t s]
    by (simp add: outstanding_Some)
  show "now (issued_state k c t s) = now s" "ttl (issued_state k c t s) = ttl s"
    using Issue_pending [OF Issue_Some [of "fst k" "snd k" c t s]] by simp_all
  show "redeemable k c t s \<longleftrightarrow> (\<exists>t0. outstanding_challenge s k = Some (c, t0) \<and> now s t - t0 \<le> ttl s)"
    by (rule redeemable_iff)
  show "outstanding_challenge (consumed_state k c t s) k = None"
    using Consume_removes [of "fst k" "snd k" c t s]
    by (simp add: outstanding_challenge_def consumed_state_def)
next
  fix k k' :: pendingKey and c t s x
  assume "k' \<noteq> k"
  then show "outstanding_challenge (consumed_state k c t s) k' = outstanding_challenge s k'"
    using Consume_frame [of k' "fst k" "snd k" c t s]
    by (simp add: outstanding_challenge_def consumed_state_def)
  assume "outstanding_challenge (issued_state k c t s) k' = Some x"
  then show "outstanding_challenge s k' = Some x"
    using Issue_frame [OF Issue_Some [of "fst k" "snd k" c t s], of k'] \<open>k' \<noteq> k\<close>
    by (auto simp: outstanding_challenge_def)
qed

section \<open>Histories\<close>

text \<open>
  A run of the store from its empty state, with the history of what was issued, redeemed
  and rejected (newest first).
\<close>

datatype challenge_event =
    Issued string Purpose bytes time
  | Redeemed string Purpose bytes time
  | Rejected string Purpose

fun event_key :: "challenge_event \<Rightarrow> pendingKey" where
  "event_key (Issued u p _ _) = (u, p)"
| "event_key (Redeemed u p _ _) = (u, p)"
| "event_key (Rejected u p) = (u, p)"

definition latest :: "pendingKey \<Rightarrow> challenge_event list \<Rightarrow> challenge_event option" where
  "latest k h = find (\<lambda>e. event_key e = k) h"

inductive challenge_run :: "ChallengeStore \<Rightarrow> challenge_event list \<Rightarrow> bool" where
  start: "challenge_run NewChallengeStore []"
| issue: "challenge_run s h \<Longrightarrow> Issue u p rnd t s = (Inr b, s') \<Longrightarrow>
    challenge_run s' (Issued u p b t # h)"
| issue_failed: "challenge_run s h \<Longrightarrow> Issue u p rnd t s = (Inl e, s') \<Longrightarrow> challenge_run s' h"
| consume: "challenge_run s h \<Longrightarrow> Consume u p got t s = (Inr (), s') \<Longrightarrow>
    challenge_run s' (Redeemed u p got t # h)"
| consume_failed: "challenge_run s h \<Longrightarrow> Consume u p got t s = (Inl e, s') \<Longrightarrow>
    challenge_run s' (Rejected u p # h)"

lemma latest_Cons: "latest k (e # h) = (if event_key e = k then Some e else latest k h)"
  by (simp add: latest_def)

lemma challenge_run_inv:
  "challenge_run s h \<Longrightarrow>
     now s = (\<lambda>t. t) \<and> ttl s = ChallengeTTL \<and>
     (\<forall>u p c t0. pending s (u, p) = Some \<lparr>challenge = c, issuedAt = t0\<rparr> \<longrightarrow>
        latest (u, p) h = Some (Issued u p c t0))"
proof (induction rule: challenge_run.induct)
  case start
  then show ?case by (simp add: NewChallengeStore_def)
next
  case (issue s h u p rnd t b s')
  note I = Issue_pending [OF issue.hyps(2)]
  show ?case
  proof (intro conjI allI impI)
    fix u' p' c t0
    assume P: "pending s' (u', p') = Some \<lparr>challenge = c, issuedAt = t0\<rparr>"
    show "latest (u', p') (Issued u p b t # h) = Some (Issued u' p' c t0)"
    proof (cases "(u', p') = (u, p)")
      case True
      then show ?thesis using P I issue.IH by (auto simp: latest_Cons)
    next
      case False
      then show ?thesis
        using P issue.IH Issue_frame [OF issue.hyps(2) False] by (auto simp: latest_Cons)
    qed
  qed (use I issue.IH in auto)
next
  case (issue_failed s h u p rnd t e s')
  then show ?case by (auto simp: Issue_def Let_def split: option.splits)
next
  case (consume s h u p got t s')
  then show ?case by (auto simp: Consume_Inr_iff latest_Cons)
next
  case (consume_failed s h u p got t e s')
  have gone: "pending s' (u, p) = None" "now s' = now s" "ttl s' = ttl s"
    "k \<noteq> (u, p) \<Longrightarrow> pending s' k = pending s k" for k
    using Consume_removes [of u p got t s] Consume_frame [of k u p got t s]
      Consume_config [of u p got t s] consume_failed.hyps(2) by simp_all
  show ?case
  proof (intro conjI allI impI)
    fix u' p' c t0
    assume "pending s' (u', p') = Some \<lparr>challenge = c, issuedAt = t0\<rparr>"
    then show "latest (u', p') (Rejected u p # h) = Some (Issued u' p' c t0)"
      using consume_failed.IH gone(1) gone(4) [of "(u', p')"]
      by (cases "(u', p') = (u, p)") (auto simp: latest_Cons)
  qed (use consume_failed.IH gone in simp_all)
qed

lemma redeemed_was_issued:
  "challenge_run s h \<Longrightarrow> h = pre @ Redeemed u p c t # rest \<Longrightarrow>
     \<exists>t0. latest (u, p) rest = Some (Issued u p c t0) \<and> t - t0 \<le> ChallengeTTL"
proof (induction arbitrary: pre rule: challenge_run.induct)
  case (consume s h u' p' got t' s')
  show ?case
  proof (cases pre)
    case Nil
    then show ?thesis
      using consume challenge_run_inv [OF consume.hyps(1)] by (fastforce simp: Consume_Inr_iff)
  qed (use consume in auto)
qed (auto simp: Cons_eq_append_conv)

section \<open>Properties\<close>

text \<open>
  C29: \<open>Consume\<close> succeeds exactly when the very challenge is pending for that user and
  purpose and not older than the store's lifetime; and on every outcome the entry is gone,
  every other entry is as it was, so no second attempt can succeed.
\<close>

theorem Consume_exact_and_single_use:
  "(fst (Consume u p got t s) = Inr () \<longleftrightarrow>
      (\<exists>t0. outstanding_challenge s (u, p) = Some (got, t0) \<and> now s t - t0 \<le> ttl s)) \<and>
   outstanding_challenge (snd (Consume u p got t s)) (u, p) = None \<and>
   (\<forall>k. k \<noteq> (u, p) \<longrightarrow>
      outstanding_challenge (snd (Consume u p got t s)) k = outstanding_challenge s k) \<and>
   fst (Consume u p got' t' (snd (Consume u p got t s))) \<noteq> Inr ()"
  using redeemable_iff [of "(u, p)" got t s] ch.no_second_use [of "(u, p)" got' t' got t s]
    ch.redeemed_same [of "(u, p)" got t s] ch.redeemed_other [of _ "(u, p)" got t s]
  by (simp add: redeemable_def consumed_state_def)

theorem Consume_exact_and_single_use_witness:
  "let s = snd (Issue ''a'' PurposeLogin (\<lambda>_. Some [1]) 0 NewChallengeStore) in
   fst (Consume ''a'' PurposeLogin [1] second s) = Inr () \<and>
   fst (Consume ''a'' PurposeLogin [1] second (snd (Consume ''a'' PurposeLogin [1] second s))) \<noteq> Inr ()"
proof -
  let ?s = "snd (Issue ''a'' PurposeLogin (\<lambda>_. Some [1]) 0 NewChallengeStore)"
  have "outstanding_challenge ?s (''a'', PurposeLogin) = Some ([1], 0)" "now ?s = (\<lambda>t. t)" "ttl ?s = 120 * second"
    by (simp_all add: outstanding_challenge_def Issue_def purgeExpiredLocked_def NewChallengeStore_def
        ChallengeTTL_def Let_def)
  then show ?thesis
    using Consume_exact_and_single_use [of "''a''" PurposeLogin "[1]" second ?s "[1]" second]
    by (simp add: second_def)
qed

text \<open>
  C28: In every history of the store, a challenge that was redeemed is the one most recently
  issued for exactly that user and purpose, with no attempt in between, and it was issued
  at most 120 seconds before: nothing that the server did not issue is ever accepted, and
  nothing is accepted twice.
\<close>

theorem redeemed_only_if_just_issued:
  assumes "challenge_run s h" and "h = pre @ Redeemed u p c t # rest"
  shows "\<exists>t0. latest (u, p) rest = Some (Issued u p c t0) \<and> t - t0 \<le> ChallengeTTL"
  using assms by (rule redeemed_was_issued)

theorem redeemed_only_if_just_issued_witness:
  "\<exists>t0. latest (''a'', PurposeLogin) [Issued ''a'' PurposeLogin [1] 0] =
     Some (Issued ''a'' PurposeLogin [1] t0) \<and> 5 - t0 \<le> ChallengeTTL"
proof -
  let ?s = "issued_state (''a'', PurposeLogin) [1] 0 NewChallengeStore"
  have "challenge_run ?s [Issued ''a'' PurposeLogin [1] 0]"
    by (rule challenge_run.issue [OF challenge_run.start Issue_Some])
  moreover have "Consume ''a'' PurposeLogin [1] 5 ?s = (Inr (), consumed_state (''a'', PurposeLogin) [1] 5 ?s)"
    by (simp add: issued_state_def consumed_state_def Issue_def Consume_def purgeExpiredLocked_def
        NewChallengeStore_def ChallengeTTL_def second_def expired_def Let_def)
  ultimately have "challenge_run (consumed_state (''a'', PurposeLogin) [1] 5 ?s)
      [Redeemed ''a'' PurposeLogin [1] 5, Issued ''a'' PurposeLogin [1] 0]"
    by (rule challenge_run.consume)
  then show ?thesis
    by (rule redeemed_only_if_just_issued [where pre = "[]"]) simp
qed

end
