(* ===== verification/Store.thy ===== *)
theory Store
  imports Base64 Utf8
begin

unbundle bit_operations_syntax

text \<open>
  The credential store of \<open>internal/store/file.go\<close> over a file system.  A file has a
  permission mode and a content, of which the store distinguishes three kinds: empty, a
  JSON document that \<open>json.Unmarshal\<close> accepts (its map as an association list with
  distinct keys), and anything else.  What the environment decides is a record: which
  system calls fail, the name that \<open>os.CreateTemp\<close> picks, the order in which \<open>range\<close>
  visits a map, and the clock.  Each method holds the store's mutex from start to end, so
  it is one step; a crash inside \<open>saveLocked\<close> is modelled by the states between its
  system calls.
\<close>

section \<open>Credentials and files\<close>

record Credential =
  cred_ID :: bytes
  cred_Username :: string
  cred_PublicKey :: bytes
  cred_Algorithm :: int
  cred_SignCount :: "32 word"
  cred_AAGUID :: bytes
  cred_CreatedAt :: time
  cred_Nickname :: string

type_synonym document = "(string \<times> Credential) list"

datatype file_content = EmptyFile | Garbled | Doc document

record stored_file =
  perm :: nat
  content :: file_content

text \<open>The octal modes \<open>0o600\<close> and \<open>0o077\<close>.\<close>

definition mode_0600 :: nat where "mode_0600 = 6 * 8 * 8"
definition mode_0077 :: nat where "mode_0077 = 7 * 8 + 7"

type_synonym path = string
type_synonym fs = "path \<rightharpoonup> stored_file"

datatype syscall =
    SysStat | SysReadFile | SysMkdirAll | SysCreateTemp | SysChmod | SysWrite | SysSync
  | SysClose | SysRename | SysRemove

datatype store_error =
    StoreReadable | StoreSyscall syscall | StoreParse | StoreEncode
  | StoreAlreadyRegistered | StoreNotFound

record store_io =
  fails :: "syscall \<Rightarrow> bool"
  tmpName :: path
  mapOrder :: "document \<Rightarrow> document"
  wallClock :: time

record Store =
  store_path :: path

definition credentialKey :: "bytes \<Rightarrow> string" where
  "credentialKey cid = StdEncoding_EncodeToString cid"

text \<open>
  What a credential reads as after a round trip through the file: \<open>json.Marshal\<close> replaces
  malformed UTF-8 in its two strings; byte strings, numbers and the time survive.
\<close>

definition json_credential :: "Credential \<Rightarrow> Credential" where
  "json_credential c = c\<lparr>cred_Username := coerceString (cred_Username c),
     cred_Nickname := coerceString (cred_Nickname c)\<rparr>"

section \<open>Loading\<close>

text \<open>On a POSIX system; the permission check is skipped on Windows.\<close>

definition Open :: "store_io \<Rightarrow> path \<Rightarrow> fs \<Rightarrow> store_error + Store" where
  "Open io path fs =
     (if fails io SysStat then Inl (StoreSyscall SysStat)
      else case fs path of
        None \<Rightarrow> Inr \<lparr>store_path = path\<rparr>
      | Some f \<Rightarrow> if perm f AND mode_0077 \<noteq> 0 then Inl StoreReadable else Inr \<lparr>store_path = path\<rparr>)"

definition loadLocked :: "store_io \<Rightarrow> Store \<Rightarrow> fs \<Rightarrow> store_error + Credential list" where
  "loadLocked io s fs =
     (case fs (store_path s) of
        None \<Rightarrow> Inr []
      | Some f \<Rightarrow>
          if fails io SysReadFile then Inl (StoreSyscall SysReadFile)
          else case content f of
            EmptyFile \<Rightarrow> Inr []
          | Garbled \<Rightarrow> Inl StoreParse
          | Doc d \<Rightarrow> Inr (map snd (mapOrder io d)))"

definition Load :: "store_io \<Rightarrow> Store \<Rightarrow> fs \<Rightarrow> store_error + Credential list" where
  "Load io s fs = loadLocked io s fs"

definition FindByID :: "store_io \<Rightarrow> Store \<Rightarrow> bytes \<Rightarrow> fs \<Rightarrow> store_error + Credential option" where
  "FindByID io s cid fs =
     bindE (loadLocked io s fs) (\<lambda>creds.
     Inr (find (\<lambda>c. credentialKey (cred_ID c) = credentialKey cid) creds))"

definition FindByUsername :: "store_io \<Rightarrow> Store \<Rightarrow> string \<Rightarrow> fs \<Rightarrow> store_error + Credential list" where
  "FindByUsername io s username fs =
     bindE (loadLocked io s fs) (\<lambda>creds. Inr (filter (\<lambda>c. cred_Username c = username) creds))"

section \<open>Saving\<close>

text \<open>
  The system calls of \<open>saveLocked\<close> after the document is encoded: the call, its effect when
  it succeeds, its effect when it fails.  The first two run before \<open>defer os.Remove\<close> is
  set up, the others after it.
\<close>

type_synonym save_step = "syscall \<times> (fs \<Rightarrow> fs) \<times> (fs \<Rightarrow> fs)"

definition on_file :: "path \<Rightarrow> (stored_file \<Rightarrow> stored_file) \<Rightarrow> fs \<Rightarrow> fs" where
  "on_file p f fs = fs(p := map_option f (fs p))"

definition rename_file :: "path \<Rightarrow> path \<Rightarrow> fs \<Rightarrow> fs" where
  "rename_file old new fs = (fs(new := fs old))(old := None)"

definition prepare_steps :: "path \<Rightarrow> save_step list" where
  "prepare_steps tmp = [
     (SysMkdirAll, \<lambda>fs. fs, \<lambda>fs. fs),
     (SysCreateTemp, \<lambda>fs. fs(tmp \<mapsto> \<lparr>perm = mode_0600, content = EmptyFile\<rparr>), \<lambda>fs. fs)]"

definition write_steps :: "path \<Rightarrow> path \<Rightarrow> document \<Rightarrow> save_step list" where
  "write_steps tmp path doc = [
     (SysChmod, on_file tmp (perm_update (\<lambda>_. mode_0600)), \<lambda>fs. fs),
     (SysWrite, on_file tmp (content_update (\<lambda>_. Doc doc)), on_file tmp (content_update (\<lambda>_. Garbled))),
     (SysSync, \<lambda>fs. fs, \<lambda>fs. fs),
     (SysClose, \<lambda>fs. fs, \<lambda>fs. fs),
     (SysRename, rename_file tmp path, \<lambda>fs. fs)]"

fun run_steps :: "(syscall \<Rightarrow> bool) \<Rightarrow> save_step list \<Rightarrow> (fs, store_error, unit) op" where
  "run_steps bad [] fs = (Inr (), fs)"
| "run_steps bad ((c, ok, failed) # ps) fs =
     (if bad c then (Inl (StoreSyscall c), failed fs) else run_steps bad ps (ok fs))"

text \<open>\<open>defer os.Remove(tmpPath)\<close>: its own error is ignored.\<close>

definition with_cleanup :: "store_io \<Rightarrow> path \<Rightarrow> (fs, store_error, unit) op \<Rightarrow> (fs, store_error, unit) op" where
  "with_cleanup io tmp m fs =
     (case m fs of (r, fs') \<Rightarrow> (r, if fails io SysRemove then fs' else fs'(tmp := None)))"

text \<open>The map built from the list: a later credential replaces an earlier one of its key.\<close>

definition make_document :: "Credential list \<Rightarrow> document" where
  "make_document creds = fold (\<lambda>c. AList.update (credentialKey (cred_ID c)) c) creds []"

definition MarshalIndent :: "document \<Rightarrow> store_error + document" where
  "MarshalIndent d =
     bindE (failIf (\<not> list_all (\<lambda>(k, c). json_time_ok (cred_CreatedAt c)) d) StoreEncode) (\<lambda>_.
     Inr (map (\<lambda>(k, c). (k, json_credential c)) d))"

definition saveLocked :: "store_io \<Rightarrow> Store \<Rightarrow> Credential list \<Rightarrow> (fs, store_error, unit) op" where
  "saveLocked io s creds =
     bindS (liftS (MarshalIndent (make_document creds))) (\<lambda>doc.
     bindS (run_steps (fails io) (prepare_steps (tmpName io))) (\<lambda>_.
     with_cleanup io (tmpName io)
       (run_steps (fails io) (write_steps (tmpName io) (store_path s) doc))))"

section \<open>The operations that write\<close>

definition AddCredential :: "store_io \<Rightarrow> Store \<Rightarrow> Credential \<Rightarrow> (fs, store_error, unit) op" where
  "AddCredential io s c =
     bindS (readS (loadLocked io s)) (\<lambda>creds.
     bindS (liftS (failIf
       (\<exists>e \<in> set creds. credentialKey (cred_ID e) = credentialKey (cred_ID c)) StoreAlreadyRegistered)) (\<lambda>_.
     let c = (if cred_CreatedAt c = zeroTime then c\<lparr>cred_CreatedAt := wallClock io\<rparr> else c)
     in saveLocked io s (creds @ [c])))"

text \<open>The loop of \<open>UpdateSignCount\<close>, which stops at the first match.\<close>

fun set_sign_count :: "string \<Rightarrow> 32 word \<Rightarrow> Credential list \<Rightarrow> Credential list option" where
  "set_sign_count key n [] = None"
| "set_sign_count key n (c # cs) =
     (if credentialKey (cred_ID c) = key then Some (c\<lparr>cred_SignCount := n\<rparr> # cs)
      else map_option (\<lambda>cs. c # cs) (set_sign_count key n cs))"

definition UpdateSignCount :: "store_io \<Rightarrow> Store \<Rightarrow> bytes \<Rightarrow> 32 word \<Rightarrow> (fs, store_error, unit) op" where
  "UpdateSignCount io s cid newCount =
     bindS (readS (loadLocked io s)) (\<lambda>creds.
     bindS (liftS (someOr (set_sign_count (credentialKey cid) newCount creds) StoreNotFound)) (\<lambda>creds.
     saveLocked io s creds))"

definition DeleteCredential :: "store_io \<Rightarrow> Store \<Rightarrow> bytes \<Rightarrow> (fs, store_error, unit) op" where
  "DeleteCredential io s cid =
     bindS (readS (loadLocked io s)) (\<lambda>creds.
     let found = (\<exists>c \<in> set creds. credentialKey (cred_ID c) = credentialKey cid);
         out = filter (\<lambda>c. credentialKey (cred_ID c) \<noteq> credentialKey cid) creds
     in
     bindS (liftS (failIf (\<not> found) StoreNotFound)) (\<lambda>_.
     saveLocked io s out))"

end
