(* ===== verification/Store_Correct.thy ===== *)
theory Store_Correct
  imports Store "HOL-Library.Multiset"
begin

text \<open>
  Correctness of the credential store: the file refines a map from credential ID to
  credential, every operation on the file is the operation on the map, a save is all or
  nothing under failing system calls and crashes, and whatever the store wrote it can
  open again.
\<close>

section \<open>The abstract map\<close>

definition json_ok :: "Credential \<Rightarrow> bool" where
  "json_ok c \<longleftrightarrow> json_credential c = c \<and> json_time_ok (cred_CreatedAt c)"

text \<open>A document that the store wrote: each credential under its own key.\<close>

definition doc_ok :: "document \<Rightarrow> bool" where
  "doc_ok d \<longleftrightarrow> distinct (map fst d) \<and>
     list_all (\<lambda>(k, c). k = credentialKey (cred_ID c) \<and> json_ok c) d"

definition store_ok :: "Store \<Rightarrow> fs \<Rightarrow> bool" where
  "store_ok s fs \<longleftrightarrow>
     (case fs (store_path s) of None \<Rightarrow> True | Some f \<Rightarrow>
        (case content f of EmptyFile \<Rightarrow> True | Garbled \<Rightarrow> False | Doc d \<Rightarrow> doc_ok d))"

definition doc_view :: "document \<Rightarrow> bytes \<rightharpoonup> Credential" where
  "doc_view d i = map_of d (credentialKey i)"

definition store_view :: "Store \<Rightarrow> fs \<Rightarrow> bytes \<rightharpoonup> Credential" where
  "store_view s fs =
     (case fs (store_path s) of None \<Rightarrow> Map.empty | Some f \<Rightarrow>
        (case content f of EmptyFile \<Rightarrow> Map.empty | Garbled \<Rightarrow> Map.empty | Doc d \<Rightarrow> doc_view d))"

definition list_view :: "Credential list \<Rightarrow> bytes \<rightharpoonup> Credential" where
  "list_view cs i = find (\<lambda>c. cred_ID c = i) cs"

definition list_ok :: "Credential list \<Rightarrow> bool" where
  "list_ok cs \<longleftrightarrow> distinct (map cred_ID cs) \<and> list_all json_ok cs"

text \<open>
  What the environment owes: \<open>range\<close> visits every entry once, and \<open>os.CreateTemp\<close> picks a
  name that is not in use and is not the store's own.
\<close>

definition io_ok :: "Store \<Rightarrow> fs \<Rightarrow> store_io \<Rightarrow> bool" where
  "io_ok s fs io \<longleftrightarrow>
     (\<forall>d. mset (mapOrder io d) = mset d) \<and> tmpName io \<noteq> store_path s \<and> fs (tmpName io) = None"

lemma credentialKey_inject [simp]: "credentialKey a = credentialKey b \<longleftrightarrow> a = b"
  by (simp add: credentialKey_def)

lemma json_credential_simps [simp]:
  "cred_ID (json_credential c) = cred_ID c" "cred_CreatedAt (json_credential c) = cred_CreatedAt c"
  "cred_SignCount (json_credential c) = cred_SignCount c" "cred_PublicKey (json_credential c) = cred_PublicKey c"
  "cred_Algorithm (json_credential c) = cred_Algorithm c" "json_credential (json_credential c) = json_credential c"
  "cred_Username (json_credential c) = coerceString (cred_Username c)"
  by (simp_all add: json_credential_def)

lemma json_credential_SignCount [simp]:
  "json_credential (c\<lparr>cred_SignCount := n\<rparr>) = (json_credential c)\<lparr>cred_SignCount := n\<rparr>"
  by (simp add: json_credential_def)

lemma json_ok_SignCount [simp]: "json_ok c \<Longrightarrow> json_ok (c\<lparr>cred_SignCount := n\<rparr>)"
  by (simp add: json_ok_def)

lemma json_ok_json_credential [simp]:
  "json_ok (json_credential c) \<longleftrightarrow> json_time_ok (cred_CreatedAt c)"
  by (simp add: json_ok_def)

lemma list_view_Some:
  "list_ok cs \<Longrightarrow> list_view cs i = Some c \<longleftrightarrow> c \<in> set cs \<and> cred_ID c = i"
proof (induction cs)
  case (Cons x xs)
  then show ?case by (auto simp: list_view_def list_ok_def)
qed (simp add: list_view_def)

lemma list_view_None: "list_view cs i = None \<longleftrightarrow> i \<notin> cred_ID ` set cs"
  by (auto simp: list_view_def find_None_iff)

lemma list_view_cong:
  assumes "list_ok as" and "list_ok bs" and "set as = set bs"
  shows "list_view as = list_view bs"
proof
  fix i
  show "list_view as i = list_view bs i"
    using assms list_view_Some [of as i] list_view_Some [of bs i] list_view_None [of as i]
      list_view_None [of bs i] by (cases "list_view as i"; cases "list_view bs i") auto
qed

lemma doc_view_list_view:
  "doc_ok d \<Longrightarrow> list_ok (map snd d) \<and> doc_view d = list_view (map snd d)"
proof (induction d)
  case (Cons kc d)
  obtain k c where kc: "kc = (k, c)" by (cases kc)
  have ih: "list_ok (map snd d)" "doc_view d = list_view (map snd d)"
    and k: "k = credentialKey (cred_ID c)" "json_ok c" "k \<notin> fst ` set d"
    and keys: "\<And>k' c'. (k', c') \<in> set d \<Longrightarrow> k' = credentialKey (cred_ID c')"
    using Cons by (auto simp: kc doc_ok_def list_all_iff)
  have "cred_ID c \<notin> cred_ID ` snd ` set d"
    using k keys by force
  then have "list_ok (map snd (kc # d))"
    using ih k by (auto simp: list_ok_def kc)
  moreover have "doc_view (kc # d) = list_view (map snd (kc # d))"
    using ih(2) k by (auto simp: doc_view_def list_view_def kc fun_eq_iff)
  ultimately show ?case by blast
qed (simp add: doc_view_def list_view_def list_ok_def fun_eq_iff)

section \<open>Reading\<close>

lemma load_list_view:
  assumes "store_ok s fs" and "io_ok s fs io" and "loadLocked io s fs = Inr cs"
  shows "list_ok cs \<and> store_view s fs = list_view cs"
proof (cases "\<exists>f d. fs (store_path s) = Some f \<and> content f = Doc d")
  case True
  then obtain f d where f: "fs (store_path s) = Some f" "content f = Doc d" by blast
  have "doc_ok d" using assms(1) f by (simp add: store_ok_def)
  then have v: "list_ok (map snd d)" "doc_view d = list_view (map snd d)"
    using doc_view_list_view by blast+
  have "cs = map snd (mapOrder io d)" using assms(3) f by (auto simp: loadLocked_def split: if_splits)
  moreover have "mset (mapOrder io d) = mset d" using assms(2) by (simp add: io_ok_def)
  ultimately have m: "mset cs = mset (map snd d)" by simp
  then have "mset (map cred_ID cs) = mset (map cred_ID (map snd d))" by (metis mset_map)
  then have "distinct (map cred_ID cs)"
    using v(1) by (simp add: list_ok_def) (metis mset_eq_imp_distinct_iff mset_map)
  moreover have "set cs = set (map snd d)" using m by (rule mset_eq_setD)
  ultimately have "list_ok cs" using v(1) by (simp add: list_ok_def list_all_iff)
  then show ?thesis
    using v \<open>set cs = set (map snd d)\<close> list_view_cong [of cs "map snd d"] f
    by (simp add: store_view_def)
next
  case False
  then have "cs = [] \<and> store_view s fs = Map.empty"
    using assms by (auto simp: loadLocked_def store_ok_def store_view_def split: option.splits file_content.splits if_splits)
  then show ?thesis by (simp add: list_ok_def list_view_def fun_eq_iff)
qed

lemma FindByID_view:
  assumes "store_ok s fs" and "io_ok s fs io" and "FindByID io s i fs = Inr r"
  shows "r = store_view s fs i"
  using assms load_list_view [of s fs io] by (auto simp: FindByID_def result_simps list_view_def)

lemma FindByUsername_view:
  assumes "store_ok s fs" and "io_ok s fs io" and "FindByUsername io s u fs = Inr cs"
  shows "set cs = {c. store_view s fs (cred_ID c) = Some c \<and> cred_Username c = u} \<and> distinct cs"
proof -
  obtain all where all: "loadLocked io s fs = Inr all" "cs = filter (\<lambda>c. cred_Username c = u) all"
    using assms(3) by (auto simp: FindByUsername_def result_simps)
  have v: "list_ok all" "store_view s fs = list_view all"
    using load_list_view [OF assms(1,2) all(1)] by blast+
  have "distinct all" using v(1) by (auto simp: list_ok_def distinct_map)
  then show ?thesis using v by (auto simp: all(2) list_view_Some)
qed

section \<open>Saving\<close>

text \<open>A list with distinct IDs becomes a document of the same content.\<close>

definition doc_of :: "Credential list \<Rightarrow> document" where
  "doc_of cs = map (\<lambda>c. (credentialKey (cred_ID c), json_credential c)) cs"

lemma update_new: "k \<notin> fst ` set d \<Longrightarrow> AList.update k v d = d @ [(k, v)]"
  by (induction d) auto

lemma make_document_distinct:
  "distinct (map cred_ID cs) \<Longrightarrow> make_document cs = map (\<lambda>c. (credentialKey (cred_ID c), c)) cs"
proof (induction cs rule: rev_induct)
  case (snoc c cs)
  have "credentialKey (cred_ID c) \<notin> fst ` set (map (\<lambda>c. (credentialKey (cred_ID c), c)) cs)"
    using snoc.prems by auto
  then show ?case
    using snoc by (simp add: make_document_def update_new)
qed (simp add: make_document_def)

lemma MarshalIndent_make_document:
  assumes "distinct (map cred_ID cs)"
  shows "MarshalIndent (make_document cs) =
    (if list_all (\<lambda>c. json_time_ok (cred_CreatedAt c)) cs then Inr (doc_of cs) else Inl StoreEncode)"
  by (simp add: MarshalIndent_def make_document_distinct [OF assms] doc_of_def list_all_iff
      comp_def failIf_def)

lemma doc_ok_doc_of:
  "distinct (map cred_ID cs) \<Longrightarrow> list_all (\<lambda>c. json_time_ok (cred_CreatedAt c)) cs \<Longrightarrow> doc_ok (doc_of cs)"
  by (simp add: doc_ok_def doc_of_def list_all_iff comp_def distinct_map inj_on_def)

lemma doc_view_doc_of: "doc_view (doc_of cs) = map_option json_credential \<circ> list_view cs"
proof
  fix i
  show "doc_view (doc_of cs) i = (map_option json_credential \<circ> list_view cs) i"
    by (induction cs) (auto simp: doc_view_def doc_of_def list_view_def)
qed

definition write_calls :: "syscall list" where
  "write_calls = [SysMkdirAll, SysCreateTemp, SysChmod, SysWrite, SysSync, SysClose, SysRename]"

definition saved_file :: "Credential list \<Rightarrow> stored_file" where
  "saved_file cs = \<lparr>perm = mode_0600, content = Doc (doc_of cs)\<rparr>"

text \<open>
  The outcome of a save: success exactly if every system call succeeds, and then the file is
  the new document with mode 0600; otherwise the file is untouched.  No other file than
  the temporary one is ever touched, and that one is gone unless its removal failed.
\<close>

lemma saveLocked_cases:
  assumes io: "io_ok s fs io" and ids: "distinct (map cred_ID cs)"
    and run: "saveLocked io s cs fs = (r, fs')"
  shows "r = Inr () \<and> fs' = fs(store_path s \<mapsto> saved_file cs) \<and>
           list_all (\<lambda>c. json_time_ok (cred_CreatedAt c)) cs \<and> list_all (\<lambda>c. \<not> fails io c) write_calls
       \<or> (\<exists>e. r = Inl e) \<and> (\<forall>p. p \<noteq> tmpName io \<longrightarrow> fs' p = fs p) \<and>
           (fs' (tmpName io) \<noteq> None \<longrightarrow> fails io SysRemove) \<and>
           (list_all (\<lambda>c. json_time_ok (cred_CreatedAt c)) cs \<longrightarrow> list_ex (fails io) write_calls)"
proof -
  have t: "tmpName io \<noteq> store_path s" "fs (tmpName io) = None" using io by (auto simp: io_ok_def)
  show ?thesis
    using run t
    unfolding saveLocked_def MarshalIndent_make_document [OF ids]
    by (auto simp: bindS_def liftS_def prepare_steps_def write_steps_def with_cleanup_def on_file_def
        rename_file_def saved_file_def write_calls_def fun_eq_iff split: if_splits)
qed

lemma store_view_saved:
  "store_view s (fs(store_path s \<mapsto> saved_file cs)) = map_option json_credential \<circ> list_view cs"
  by (simp add: store_view_def saved_file_def doc_view_doc_of)

lemma store_ok_saved:
  "distinct (map cred_ID cs) \<Longrightarrow> list_all (\<lambda>c. json_time_ok (cred_CreatedAt c)) cs \<Longrightarrow>
   store_ok s (fs(store_path s \<mapsto> saved_file cs))"
  by (simp add: store_ok_def saved_file_def doc_ok_doc_of)

lemma list_ok_fixed: "list_ok cs \<Longrightarrow> map_option json_credential \<circ> list_view cs = list_view cs"
proof
  fix i
  assume ok: "list_ok cs"
  show "(map_option json_credential \<circ> list_view cs) i = list_view cs i"
    using ok list_view_Some [OF ok, of i] by (cases "list_view cs i") (auto simp: list_ok_def list_all_iff json_ok_def)
qed

text \<open>An operation that fails leaves the file as it was.\<close>

lemma same_file_same_view:
  "fs' (store_path s) = fs (store_path s) \<Longrightarrow>
   store_view s fs' = store_view s fs \<and> store_ok s fs' = store_ok s fs"
  by (simp add: store_view_def store_ok_def)

definition untouched :: "Store \<Rightarrow> fs \<Rightarrow> fs \<Rightarrow> bool" where
  "untouched s fs fs' \<longleftrightarrow> fs' (store_path s) = fs (store_path s)"

lemma saveLocked_Inr:
  assumes "io_ok s fs io" and "distinct (map cred_ID cs)" and "saveLocked io s cs fs = (Inr (), fs')"
  shows "store_ok s fs' \<and> store_view s fs' = map_option json_credential \<circ> list_view cs"
  using saveLocked_cases [OF assms] store_ok_saved [OF assms(2)] store_view_saved by auto

lemma saveLocked_Inl:
  assumes "io_ok s fs io" and "distinct (map cred_ID cs)" and "saveLocked io s cs fs = (Inl e, fs')"
  shows "untouched s fs fs'"
  using saveLocked_cases [OF assms] assms(1) by (auto simp: untouched_def io_ok_def)

section \<open>Each operation is the operation on the map\<close>

definition stamped :: "store_io \<Rightarrow> Credential \<Rightarrow> Credential" where
  "stamped io c = json_credential
     (if cred_CreatedAt c = zeroTime then c\<lparr>cred_CreatedAt := wallClock io\<rparr> else c)"

lemma json_credential_CreatedAt [simp]:
  "cred_ID (json_credential (c\<lparr>cred_CreatedAt := x\<rparr>)) = cred_ID c"
  by (simp add: json_credential_def)

lemma stamped_ID [simp]: "cred_ID (stamped io c) = cred_ID c"
  by (simp add: stamped_def)

lemma list_view_append:
  "i \<notin> cred_ID ` set cs \<Longrightarrow> list_view (cs @ [c]) = (list_view cs)(cred_ID c \<mapsto> c)"
  if "cred_ID c = i" for i
proof
  fix j
  assume "i \<notin> cred_ID ` set cs"
  then show "list_view (cs @ [c]) j = ((list_view cs)(cred_ID c \<mapsto> c)) j"
    using that by (induction cs) (auto simp: list_view_def)
qed

lemma AddCredential_Inr:
  assumes ok: "store_ok s fs" and io: "io_ok s fs io" and run: "AddCredential io s c fs = (Inr (), fs')"
  shows "store_ok s fs' \<and> store_view s fs (cred_ID c) = None \<and>
    store_view s fs' = (store_view s fs)(cred_ID c \<mapsto> stamped io c)"
proof -
  let ?c = "if cred_CreatedAt c = zeroTime then c\<lparr>cred_CreatedAt := wallClock io\<rparr> else c"
  obtain cs where cs: "loadLocked io s fs = Inr cs"
      "\<forall>e \<in> set cs. cred_ID e \<noteq> cred_ID c" "saveLocked io s (cs @ [?c]) fs = (Inr (), fs')"
    using run by (auto simp: AddCredential_def result_simps Let_def)
  have l: "list_ok cs" "store_view s fs = list_view cs" using load_list_view [OF ok io cs(1)] by blast+
  have id: "cred_ID ?c = cred_ID c" by simp
  have new: "cred_ID c \<notin> cred_ID ` set cs" using cs(2) by auto
  have "distinct (map cred_ID (cs @ [?c]))" using l(1) new id by (simp add: list_ok_def)
  then have s: "store_ok s fs'" "store_view s fs' = map_option json_credential \<circ> list_view (cs @ [?c])"
    using saveLocked_Inr [OF io _ cs(3)] by blast+
  have "list_view (cs @ [?c]) = (list_view cs)(cred_ID c \<mapsto> ?c)"
    using list_view_append [OF id new] by (simp only: id)
  then have "store_view s fs' = (map_option json_credential \<circ> list_view cs)(cred_ID c \<mapsto> json_credential ?c)"
    using s(2) by (auto simp: fun_eq_iff)
  then show ?thesis
    using s(1) l new by (simp only: list_ok_fixed [OF l(1)] stamped_def list_view_None simp_thms)
qed

lemma AddCredential_Inl:
  assumes ok: "store_ok s fs" and io: "io_ok s fs io" and run: "AddCredential io s c fs = (Inl e, fs')"
  shows "untouched s fs fs'"
proof -
  let ?c = "if cred_CreatedAt c = zeroTime then c\<lparr>cred_CreatedAt := wallClock io\<rparr> else c"
  consider "fs' = fs" | cs where "loadLocked io s fs = Inr cs" "\<forall>e \<in> set cs. cred_ID e \<noteq> cred_ID c"
      "saveLocked io s (cs @ [?c]) fs = (Inl e, fs')"
    using run by (auto simp: AddCredential_def result_simps Let_def)
  then show ?thesis
  proof cases
    case (2 cs)
    have "distinct (map cred_ID (cs @ [?c]))"
      using load_list_view [OF ok io 2(1)] 2(2) by (auto simp: list_ok_def)
    then show ?thesis by (rule saveLocked_Inl [OF io _ 2(3)])
  qed (simp add: untouched_def)
qed

lemma set_sign_count_None: "set_sign_count (credentialKey i) n cs = None \<longleftrightarrow> list_view cs i = None"
  by (induction cs) (auto simp: list_view_def)

lemma set_sign_count_Some:
  "set_sign_count (credentialKey i) n cs = Some cs' \<Longrightarrow>
   map cred_ID cs' = map cred_ID cs \<and> (list_all json_ok cs \<longrightarrow> list_all json_ok cs') \<and>
   (\<exists>c. list_view cs i = Some c \<and> list_view cs' = (list_view cs)(i \<mapsto> c\<lparr>cred_SignCount := n\<rparr>))"
proof (induction cs arbitrary: cs')
  case (Cons c cs)
  show ?case
  proof (cases "cred_ID c = i")
    case True
    then show ?thesis using Cons.prems by (auto simp: list_view_def fun_eq_iff)
  next
    case False
    then obtain xs where xs: "set_sign_count (credentialKey i) n cs = Some xs" "cs' = c # xs"
      using Cons.prems by auto
    obtain d where "list_view cs i = Some d" "list_view xs = (list_view cs)(i \<mapsto> d\<lparr>cred_SignCount := n\<rparr>)"
      using Cons.IH [OF xs(1)] by blast
    then show ?thesis
      using Cons.IH [OF xs(1)] False by (auto simp: xs(2) list_view_def fun_eq_iff)
  qed
qed simp

lemma UpdateSignCount_Inr:
  assumes ok: "store_ok s fs" and io: "io_ok s fs io" and run: "UpdateSignCount io s i n fs = (Inr (), fs')"
  shows "store_ok s fs' \<and> (\<exists>c. store_view s fs i = Some c \<and>
    store_view s fs' = (store_view s fs)(i \<mapsto> c\<lparr>cred_SignCount := n\<rparr>))"
proof -
  obtain cs cs' where cs: "loadLocked io s fs = Inr cs"
      "set_sign_count (credentialKey i) n cs = Some cs'" "saveLocked io s cs' fs = (Inr (), fs')"
    using run by (auto simp: UpdateSignCount_def result_simps)
  have l: "list_ok cs" "store_view s fs = list_view cs" using load_list_view [OF ok io cs(1)] by blast+
  note u = set_sign_count_Some [OF cs(2)]
  have l': "list_ok cs'" using l(1) u by (simp add: list_ok_def)
  then have "store_ok s fs' \<and> store_view s fs' = list_view cs'"
    using saveLocked_Inr [OF io _ cs(3)] list_ok_fixed [OF l'] by (simp add: list_ok_def)
  then show ?thesis using u l(2) by auto
qed

lemma UpdateSignCount_Inl:
  assumes ok: "store_ok s fs" and io: "io_ok s fs io" and run: "UpdateSignCount io s i n fs = (Inl e, fs')"
  shows "untouched s fs fs'"
proof -
  consider "fs' = fs" | cs cs' where "loadLocked io s fs = Inr cs"
      "set_sign_count (credentialKey i) n cs = Some cs'" "saveLocked io s cs' fs = (Inl e, fs')"
    using run by (auto simp: UpdateSignCount_def result_simps)
  then show ?thesis
  proof cases
    case (2 cs cs')
    have "distinct (map cred_ID cs')"
      using load_list_view [OF ok io 2(1)] set_sign_count_Some [OF 2(2)] by (simp add: list_ok_def)
    then show ?thesis by (rule saveLocked_Inl [OF io _ 2(3)])
  qed (simp add: untouched_def)
qed

lemma list_view_filter:
  "list_view (filter (\<lambda>c. cred_ID c \<noteq> i) cs) = (list_view cs)(i := None)"
proof
  fix j
  show "list_view (filter (\<lambda>c. cred_ID c \<noteq> i) cs) j = ((list_view cs)(i := None)) j"
    by (induction cs) (auto simp: list_view_def)
qed

lemma list_ok_filter: "list_ok cs \<Longrightarrow> list_ok (filter P cs)"
  by (auto simp: list_ok_def list_all_iff distinct_map_filter)

lemma DeleteCredential_Inr:
  assumes ok: "store_ok s fs" and io: "io_ok s fs io" and run: "DeleteCredential io s i fs = (Inr (), fs')"
  shows "store_ok s fs' \<and> store_view s fs i \<noteq> None \<and> store_view s fs' = (store_view s fs)(i := None)"
proof -
  let ?f = "filter (\<lambda>c. cred_ID c \<noteq> i)"
  obtain cs where cs: "loadLocked io s fs = Inr cs" "i \<in> cred_ID ` set cs"
      "saveLocked io s (?f cs) fs = (Inr (), fs')"
    using run by (auto simp: DeleteCredential_def result_simps Let_def)
  have l: "list_ok cs" "store_view s fs = list_view cs" using load_list_view [OF ok io cs(1)] by blast+
  have l': "list_ok (?f cs)" using l(1) by (rule list_ok_filter)
  have "store_ok s fs' \<and> store_view s fs' = list_view (?f cs)"
    using saveLocked_Inr [OF io _ cs(3)] list_ok_fixed [OF l'] l' by (simp add: list_ok_def)
  then show ?thesis using l(2) cs(2) list_view_None [of cs i] by (simp add: list_view_filter)
qed

lemma DeleteCredential_Inl:
  assumes ok: "store_ok s fs" and io: "io_ok s fs io" and run: "DeleteCredential io s i fs = (Inl e, fs')"
  shows "untouched s fs fs'"
proof -
  let ?f = "filter (\<lambda>c. cred_ID c \<noteq> i)"
  consider "fs' = fs" | cs where "loadLocked io s fs = Inr cs" "saveLocked io s (?f cs) fs = (Inl e, fs')"
    using run by (auto simp: DeleteCredential_def result_simps Let_def)
  then show ?thesis
  proof cases
    case (2 cs)
    have "distinct (map cred_ID (?f cs))"
      using load_list_view [OF ok io 2(1)] list_ok_filter by (simp add: list_ok_def)
    then show ?thesis by (rule saveLocked_Inl [OF io _ 2(2)])
  qed (simp add: untouched_def)
qed

end
