(* ===== verification/Store_Contract.thy ===== *)
theory Store_Contract
  imports Store_Correct
begin

unbundle bit_operations_syntax

text \<open>
  What the ceremonies and the handlers rely on: the contract of a credential store as a
  locale, its interpretation on the file-backed store, sequences of operations, crashes in
  the middle of a save, and the behaviour on a working disk.
\<close>

section \<open>The contract\<close>

datatype store_op = OpAdd Credential | OpSetCount bytes "32 word" | OpDelete bytes

fun run_op :: "store_io \<Rightarrow> Store \<Rightarrow> store_op \<Rightarrow> (fs, store_error, unit) op" where
  "run_op io s (OpAdd c) = AddCredential io s c"
| "run_op io s (OpSetCount i n) = UpdateSignCount io s i n"
| "run_op io s (OpDelete i) = DeleteCredential io s i"

text \<open>The same operations on a map from ID to credential, failing or succeeding.\<close>

fun enabled :: "store_op \<Rightarrow> (bytes \<rightharpoonup> Credential) \<Rightarrow> bool" where
  "enabled (OpAdd c) v \<longleftrightarrow> v (cred_ID c) = None"
| "enabled (OpSetCount i n) v \<longleftrightarrow> v i \<noteq> None"
| "enabled (OpDelete i) v \<longleftrightarrow> v i \<noteq> None"

fun effect :: "store_io \<Rightarrow> store_op \<Rightarrow> (bytes \<rightharpoonup> Credential) \<Rightarrow> (bytes \<rightharpoonup> Credential)" where
  "effect io (OpAdd c) v = v(cred_ID c \<mapsto> stamped io c)"
| "effect io (OpSetCount i n) v = v(i := map_option (\<lambda>c. c\<lparr>cred_SignCount := n\<rparr>) (v i))"
| "effect io (OpDelete i) v = v(i := None)"

locale credential_store =
  fixes ok :: "'s \<Rightarrow> bool"
    and good :: "'s \<Rightarrow> 'e \<Rightarrow> bool"
    and view :: "'s \<Rightarrow> (bytes \<rightharpoonup> Credential)"
    and find_by_id :: "'e \<Rightarrow> bytes \<Rightarrow> 's \<Rightarrow> store_error + Credential option"
    and exec :: "'e \<Rightarrow> store_op \<Rightarrow> ('s, store_error, unit) op"
    and eff :: "'e \<Rightarrow> store_op \<Rightarrow> (bytes \<rightharpoonup> Credential) \<Rightarrow> (bytes \<rightharpoonup> Credential)"
  assumes find_view: "ok s \<Longrightarrow> good s e \<Longrightarrow> find_by_id e i s = Inr found \<Longrightarrow> found = view s i"
    and exec_ok: "ok s \<Longrightarrow> good s e \<Longrightarrow> exec e x s = (r, s') \<Longrightarrow> ok s'"
    and exec_success: "ok s \<Longrightarrow> good s e \<Longrightarrow> exec e x s = (Inr u, s') \<Longrightarrow>
      enabled x (view s) \<and> view s' = eff e x (view s)"
    and exec_failure: "ok s \<Longrightarrow> good s e \<Longrightarrow> exec e x s = (Inl err, s') \<Longrightarrow> view s' = view s"
    and eff_set: "eff e (OpSetCount i n) v = v(i := map_option (\<lambda>c. c\<lparr>cred_SignCount := n\<rparr>) (v i))"
    and eff_delete: "eff e (OpDelete i) v = v(i := None)"
    and eff_add_other: "j \<noteq> cred_ID c \<Longrightarrow> eff e (OpAdd c) v j = v j"
    and eff_add_same: "eff e (OpAdd c) v (cred_ID c) \<noteq> None"
begin

lemma no_duplicate:
  assumes "ok s" "good s e" "exec e (OpAdd c) s = (Inr (), s')"
    and "good s' e'" "cred_ID c' = cred_ID c"
  shows "\<exists>err. fst (exec e' (OpAdd c') s') = Inl err"
proof (cases "exec e' (OpAdd c') s'")
  case (Pair r s'')
  have "ok s'" "view s' (cred_ID c) \<noteq> None"
    using exec_ok [OF assms(1-3)] exec_success [OF assms(1-3)] eff_add_same by auto
  then show ?thesis
    using exec_success [of s' e' "OpAdd c'" _ s''] Pair assms(4,5) by (cases r) auto
qed

lemma delete_then_absent:
  assumes "ok s" "good s e" "exec e (OpDelete i) s = (Inr (), s')"
    and "good s' e'" "find_by_id e' i s' = Inr r"
  shows "r = None"
proof -
  have "ok s'" "view s' i = None"
    using exec_ok [OF assms(1-3)] exec_success [OF assms(1-3)] by (auto simp: eff_delete)
  then show ?thesis using find_view [OF _ assms(4,5)] by simp
qed

text \<open>Until it is deleted, a credential keeps everything but its counter.\<close>

lemma step_keeps_credential:
  assumes "ok s" "good s e" "exec e x s = (r, s')" and "view s i = Some c" and "x \<noteq> OpDelete i"
  shows "\<exists>n. view s' i = Some (c\<lparr>cred_SignCount := n\<rparr>)"
proof (cases r)
  case (Inl err)
  then show ?thesis
    using exec_failure [OF assms(1,2)] assms(3,4) by (intro exI [of _ "cred_SignCount c"]) simp
next
  case (Inr u)
  then have e: "enabled x (view s)" "view s' = eff e x (view s)"
    using exec_success [OF assms(1,2)] assms(3) by auto
  show ?thesis
  proof (cases x)
    case (OpAdd c')
    then have "cred_ID c' \<noteq> i" using e(1) assms(4) by auto
    then show ?thesis
      using e(2) OpAdd assms(4) eff_add_other [of i c' e] by (intro exI [of _ "cred_SignCount c"]) simp
  next
    case (OpSetCount j n)
    then show ?thesis
    proof (cases "j = i")
      case False
      then show ?thesis using e(2) OpSetCount assms(4)
        by (intro exI [of _ "cred_SignCount c"]) (simp add: eff_set)
    qed (use e(2) assms(4) in \<open>auto simp: eff_set\<close>)
  next
    case (OpDelete j)
    then show ?thesis using e(2) assms(4,5)
      by (intro exI [of _ "cred_SignCount c"]) (simp add: eff_delete)
  qed
qed

end

lemma run_op_success:
  assumes "store_ok s fs" and "io_ok s fs io" and "run_op io s x fs = (Inr u, fs')"
  shows "store_ok s fs' \<and> enabled x (store_view s fs) \<and> store_view s fs' = effect io x (store_view s fs)"
proof (cases x)
  case (OpAdd c)
  then show ?thesis using AddCredential_Inr [OF assms(1,2), of c fs'] assms(3) by simp
next
  case (OpSetCount i n)
  then show ?thesis using UpdateSignCount_Inr [OF assms(1,2), of i n fs'] assms(3) by auto
next
  case (OpDelete i)
  then show ?thesis using DeleteCredential_Inr [OF assms(1,2), of i fs'] assms(3) by simp
qed

lemma run_op_failure:
  assumes "store_ok s fs" and "io_ok s fs io" and "run_op io s x fs = (Inl e, fs')"
  shows "untouched s fs fs'"
  using assms by (cases x) (auto intro: AddCredential_Inl UpdateSignCount_Inl DeleteCredential_Inl)

lemma run_op_ok:
  assumes "store_ok s fs" and "io_ok s fs io" and "run_op io s x fs = (r, fs')"
  shows "store_ok s fs'"
proof (cases r)
  case (Inl e)
  then have "untouched s fs fs'" using run_op_failure [OF assms(1,2)] assms(3) by blast
  then show ?thesis using same_file_same_view [of fs' s fs] assms(1) by (simp add: untouched_def)
next
  case (Inr u)
  then show ?thesis using run_op_success [OF assms(1,2)] assms(3) by blast
qed

interpretation st: credential_store "store_ok s" "io_ok s" "store_view s"
    "\<lambda>io i. FindByID io s i" "\<lambda>io. run_op io s" effect for s
proof
  fix fs io i found x fs' u e
  show "store_ok s fs \<Longrightarrow> io_ok s fs io \<Longrightarrow> FindByID io s i fs = Inr found \<Longrightarrow> found = store_view s fs i"
    by (rule FindByID_view)
  show "store_ok s fs \<Longrightarrow> io_ok s fs io \<Longrightarrow> run_op io s x fs = (r', fs') \<Longrightarrow> store_ok s fs'" for r'
    by (rule run_op_ok)
  show "store_ok s fs \<Longrightarrow> io_ok s fs io \<Longrightarrow> run_op io s x fs = (Inr u, fs') \<Longrightarrow>
      enabled x (store_view s fs) \<and> store_view s fs' = effect io x (store_view s fs)"
    using run_op_success by blast
  show "store_ok s fs \<Longrightarrow> io_ok s fs io \<Longrightarrow> run_op io s x fs = (Inl e, fs') \<Longrightarrow>
      store_view s fs' = store_view s fs"
    using run_op_failure [of s fs io x e fs'] same_file_same_view [of fs' s fs] by (simp add: untouched_def)
qed auto

section \<open>Sequences of operations\<close>

inductive store_run :: "Store \<Rightarrow> fs \<Rightarrow> store_op list \<Rightarrow> fs \<Rightarrow> bool" where
  none: "store_run s fs [] fs"
| one_more: "store_run s fs xs fs1 \<Longrightarrow> io_ok s fs1 io \<Longrightarrow> run_op io s x fs1 = (r, fs2) \<Longrightarrow>
    store_run s fs (xs @ [x]) fs2"

lemma store_run_ok: "store_run s fs xs fs' \<Longrightarrow> store_ok s fs \<Longrightarrow> store_ok s fs'"
  by (induction rule: store_run.induct) (auto intro: run_op_ok)

lemma store_run_keeps_credential:
  "store_run s fs xs fs' \<Longrightarrow> store_ok s fs \<Longrightarrow> store_view s fs i = Some c \<Longrightarrow> OpDelete i \<notin> set xs \<Longrightarrow>
   \<exists>n. store_view s fs' i = Some (c\<lparr>cred_SignCount := n\<rparr>)"
proof (induction rule: store_run.induct)
  case (none s fs)
  then show ?case by (intro exI [of _ "cred_SignCount c"]) simp
next
  case (one_more s fs xs fs1 io x r fs2)
  then obtain n where "store_view s fs1 i = Some (c\<lparr>cred_SignCount := n\<rparr>)" by auto
  moreover have "store_ok s fs1" using one_more.hyps(1) one_more.prems(1) by (rule store_run_ok)
  moreover have "x \<noteq> OpDelete i" using one_more.prems by auto
  ultimately show ?case
    using st.step_keeps_credential [of s fs1 io x r fs2 i] one_more.hyps by fastforce
qed

section \<open>A working disk\<close>

definition no_failures :: "store_io \<Rightarrow> bool" where
  "no_failures io \<longleftrightarrow> (\<forall>c. \<not> fails io c)"

fun missing_error :: "store_op \<Rightarrow> store_error" where
  "missing_error (OpAdd _) = StoreAlreadyRegistered"
| "missing_error _ = StoreNotFound"

text \<open>The creation time that is going to be written can be encoded.\<close>

fun op_encodable :: "store_io \<Rightarrow> store_op \<Rightarrow> bool" where
  "op_encodable io (OpAdd c) \<longleftrightarrow> json_time_ok (cred_CreatedAt (stamped io c))"
| "op_encodable io _ \<longleftrightarrow> True"

lemma load_works:
  "store_ok s fs \<Longrightarrow> no_failures io \<Longrightarrow> \<exists>cs. loadLocked io s fs = Inr cs"
  by (auto simp: loadLocked_def store_ok_def no_failures_def split: option.split file_content.split)

lemma save_works:
  assumes "io_ok s fs io" and "no_failures io" and "distinct (map cred_ID cs)"
    and "list_all (\<lambda>c. json_time_ok (cred_CreatedAt c)) cs"
  shows "\<exists>fs'. saveLocked io s cs fs = (Inr (), fs')"
proof (cases "saveLocked io s cs fs")
  case (Pair r fs')
  then show ?thesis
    using saveLocked_cases [OF assms(1,3) Pair] assms(2,4) by (auto simp: no_failures_def list_ex_iff)
qed

lemma list_ok_times: "list_ok cs \<Longrightarrow> list_all (\<lambda>c. json_time_ok (cred_CreatedAt c)) cs"
  by (auto simp: list_ok_def list_all_iff json_ok_def)

lemma add_works:
  assumes ok: "store_ok s fs" and io: "io_ok s fs io" and nf: "no_failures io"
    and enc: "json_time_ok (cred_CreatedAt (stamped io c))" and new: "store_view s fs (cred_ID c) = None"
  shows "\<exists>fs'. AddCredential io s c fs = (Inr (), fs')"
proof -
  let ?c = "if cred_CreatedAt c = zeroTime then c\<lparr>cred_CreatedAt := wallClock io\<rparr> else c"
  obtain cs where cs: "loadLocked io s fs = Inr cs" using load_works [OF ok nf] by blast
  have l: "list_ok cs" "store_view s fs = list_view cs" using load_list_view [OF ok io cs] by blast+
  have new: "cred_ID c \<notin> cred_ID ` set cs" using new l(2) list_view_None [of cs "cred_ID c"] by simp
  have "cred_ID ?c = cred_ID c" by simp
  then have "distinct (map cred_ID (cs @ [?c]))" using l(1) new by (simp add: list_ok_def)
  moreover have "list_all (\<lambda>c. json_time_ok (cred_CreatedAt c)) (cs @ [?c])"
    using list_ok_times [OF l(1)] enc by (simp add: stamped_def split: if_splits)
  ultimately obtain fs' where "saveLocked io s (cs @ [?c]) fs = (Inr (), fs')"
    using save_works [OF io nf] by blast
  moreover have "\<forall>e \<in> set cs. cred_ID e \<noteq> cred_ID c" using new by (metis imageI)
  ultimately show ?thesis by (auto simp: AddCredential_def result_simps cs Let_def)
qed

lemma update_works:
  assumes ok: "store_ok s fs" and io: "io_ok s fs io" and nf: "no_failures io"
    and found: "store_view s fs i \<noteq> None"
  shows "\<exists>fs'. UpdateSignCount io s i n fs = (Inr (), fs')"
proof -
  obtain cs where cs: "loadLocked io s fs = Inr cs" using load_works [OF ok nf] by blast
  have l: "list_ok cs" "store_view s fs = list_view cs" using load_list_view [OF ok io cs] by blast+
  then obtain cs' where cs': "set_sign_count (credentialKey i) n cs = Some cs'"
    using found set_sign_count_None [of i n cs] by auto
  have "list_ok cs'" using set_sign_count_Some [OF cs'] l(1) by (simp add: list_ok_def)
  then obtain fs' where "saveLocked io s cs' fs = (Inr (), fs')"
    using save_works [OF io nf, of cs'] list_ok_times [of cs'] by (auto simp: list_ok_def)
  then show ?thesis by (auto simp: UpdateSignCount_def result_simps cs cs')
qed

lemma delete_works:
  assumes ok: "store_ok s fs" and io: "io_ok s fs io" and nf: "no_failures io"
    and found: "store_view s fs i \<noteq> None"
  shows "\<exists>fs'. DeleteCredential io s i fs = (Inr (), fs')"
proof -
  let ?f = "filter (\<lambda>c. cred_ID c \<noteq> i)"
  obtain cs where cs: "loadLocked io s fs = Inr cs" using load_works [OF ok nf] by blast
  have l: "list_ok cs" "store_view s fs = list_view cs" using load_list_view [OF ok io cs] by blast+
  have "i \<in> cred_ID ` set cs" using found l(2) list_view_None [of cs i] by simp
  moreover have "list_ok (?f cs)" using l(1) by (rule list_ok_filter)
  moreover from this obtain fs' where "saveLocked io s (?f cs) fs = (Inr (), fs')"
    using save_works [OF io nf, of "?f cs"] list_ok_times [of "?f cs"] by (auto simp: list_ok_def)
  ultimately show ?thesis by (auto simp: DeleteCredential_def result_simps cs Let_def)
qed

lemma run_op_refused:
  assumes ok: "store_ok s fs" and io: "io_ok s fs io" and nf: "no_failures io"
    and dis: "\<not> enabled x (store_view s fs)"
  shows "run_op io s x fs = (Inl (missing_error x), fs)"
proof -
  obtain cs where cs: "loadLocked io s fs = Inr cs" using load_works [OF ok nf] by blast
  have l: "list_ok cs" "store_view s fs = list_view cs" using load_list_view [OF ok io cs] by blast+
  show ?thesis
  proof (cases x)
    case (OpAdd c)
    then have "\<exists>e \<in> set cs. cred_ID e = cred_ID c" using dis l(2) list_view_None [of cs "cred_ID c"] by auto
    then show ?thesis by (simp add: OpAdd AddCredential_def result_simps cs)
  next
    case (OpSetCount i n)
    then have "set_sign_count (credentialKey i) n cs = None"
      using dis l(2) set_sign_count_None [of i n cs] by simp
    then show ?thesis by (simp add: OpSetCount UpdateSignCount_def result_simps cs)
  next
    case (OpDelete i)
    then have "\<not> (\<exists>e \<in> set cs. cred_ID e = i)" using dis l(2) list_view_None [of cs i] by auto
    then show ?thesis by (simp add: OpDelete DeleteCredential_def result_simps cs Let_def)
  qed
qed

lemma run_op_works:
  assumes "store_ok s fs" and "io_ok s fs io" and "no_failures io" and "op_encodable io x"
    and "enabled x (store_view s fs)"
  shows "\<exists>fs'. run_op io s x fs = (Inr (), fs')"
  using assms add_works [of s fs io] update_works [of s fs io] delete_works [of s fs io]
  by (cases x) (auto simp del: not_None_eq)

section \<open>Crashes\<close>

text \<open>
  The file systems that a machine can come back with after it stopped at some point of a
  sequence of system calls: before a call, in the middle of it (which for a write leaves
  the temporary file garbled), or after the last one.
\<close>

fun visited :: "(syscall \<Rightarrow> bool) \<Rightarrow> save_step list \<Rightarrow> fs \<Rightarrow> fs set" where
  "visited bad [] fs = {fs}"
| "visited bad ((c, ok, failed) # ps) fs =
     {fs, failed fs} \<union> (if bad c then {} else visited bad ps (ok fs))"

definition crash_states :: "store_io \<Rightarrow> Store \<Rightarrow> Credential list \<Rightarrow> fs \<Rightarrow> fs set" where
  "crash_states io s cs fs =
     (case MarshalIndent (make_document cs) of
        Inl _ \<Rightarrow> {fs}
      | Inr doc \<Rightarrow> visited (fails io)
          (prepare_steps (tmpName io) @ write_steps (tmpName io) (store_path s) doc) fs)"

lemma run_steps_visited: "snd (run_steps bad ps fs) \<in> visited bad ps fs"
  by (induction ps arbitrary: fs) auto

lemma crash_states_cases:
  assumes io: "io_ok s fs io" and ids: "distinct (map cred_ID cs)" and crash: "fs' \<in> crash_states io s cs fs"
  shows "(fs' (store_path s) = fs (store_path s) \<or>
      list_all (\<lambda>c. json_time_ok (cred_CreatedAt c)) cs \<and> fs' (store_path s) = Some (saved_file cs)) \<and>
    (\<forall>p. p \<noteq> store_path s \<longrightarrow> p \<noteq> tmpName io \<longrightarrow> fs' p = fs p)"
proof -
  have t: "tmpName io \<noteq> store_path s" using io by (auto simp: io_ok_def)
  show ?thesis
    using crash t
    unfolding crash_states_def MarshalIndent_make_document [OF ids]
    by (auto simp: prepare_steps_def write_steps_def on_file_def rename_file_def saved_file_def
        split: if_splits)
qed

section \<open>Properties\<close>

text \<open>A concrete environment, store and credential for the witnesses.\<close>

definition working_io :: store_io where
  "working_io = \<lparr>fails = (\<lambda>_. False), tmpName = ''.vouchsafe-1.tmp'', mapOrder = (\<lambda>d. d), wallClock = 0\<rparr>"

definition sample_store :: Store where
  "sample_store = \<lparr>store_path = ''vouchsafe.json''\<rparr>"

definition sample_cred :: Credential where
  "sample_cred = \<lparr>cred_ID = [1, 2], cred_Username = ''alice'', cred_PublicKey = [0xa0], cred_Algorithm = -7,
     cred_SignCount = 1, cred_AAGUID = replicate 16 0, cred_CreatedAt = second, cred_Nickname = []\<rparr>"

lemma sample_ok: "store_ok sample_store Map.empty" "io_ok sample_store Map.empty working_io"
    "store_view sample_store Map.empty = Map.empty" "no_failures working_io"
  by (simp_all add: store_ok_def io_ok_def store_view_def no_failures_def sample_store_def working_io_def)

lemma sample_encodable: "json_time_ok (cred_CreatedAt (stamped working_io sample_cred))"
  by (simp add: stamped_def sample_cred_def json_credential_def json_time_ok_def second_def zeroTime_def)

text \<open>
  C32: The file refines a map from credential ID to credential.  An operation that returns
  without error found its precondition in the map and its effect on the file is its effect
  on the map; an operation that returns an error, whatever system call failed, left the
  file exactly as it was.
\<close>

theorem store_refines_map:
  assumes "store_ok s fs" and "io_ok s fs io" and "run_op io s x fs = (r, fs')"
  shows "store_ok s fs' \<and>
    (case r of
       Inr _ \<Rightarrow> enabled x (store_view s fs) \<and> store_view s fs' = effect io x (store_view s fs)
     | Inl _ \<Rightarrow> fs' (store_path s) = fs (store_path s))"
proof (cases r)
  case (Inl e)
  then show ?thesis
    using run_op_ok [OF assms] run_op_failure [OF assms(1,2)] assms(3) by (simp add: untouched_def)
next
  case (Inr u)
  then show ?thesis using run_op_ok [OF assms] run_op_success [OF assms(1,2)] assms(3) by simp
qed

text \<open>
  C34: On a working disk an operation succeeds exactly when the map allows it: adding an ID
  that is new, updating or deleting one that exists; otherwise it reports the duplicate or
  the missing credential and writes nothing.
\<close>

theorem store_op_on_working_disk:
  assumes "store_ok s fs" and "io_ok s fs io" and "no_failures io" and "op_encodable io x"
  shows "if enabled x (store_view s fs) then \<exists>fs'. run_op io s x fs = (Inr (), fs')
    else run_op io s x fs = (Inl (missing_error x), fs)"
  using run_op_works [OF assms] run_op_refused [OF assms(1-3)] by simp

theorem store_op_on_working_disk_witness:
  "\<exists>fs'. run_op working_io sample_store (OpAdd sample_cred) Map.empty = (Inr (), fs')"
  using store_op_on_working_disk [OF sample_ok(1,2,4), of "OpAdd sample_cred"] sample_encodable sample_ok(3)
  by simp

theorem store_refines_map_witness:
  "\<exists>fs'. store_view sample_store fs' = [cred_ID sample_cred \<mapsto> stamped working_io sample_cred]"
proof -
  obtain fs' where "run_op working_io sample_store (OpAdd sample_cred) Map.empty = (Inr (), fs')"
    using add_works [OF sample_ok(1,2,4) sample_encodable] sample_ok(3) by auto
  from store_refines_map [OF sample_ok(1,2) this] show ?thesis by (auto simp: sample_ok(3))
qed



text \<open>
  Reading is reading the map: \<open>FindByID\<close> is the lookup, and \<open>FindByUsername\<close> lists each
  credential of that user once, whatever order the map was visited in.
\<close>

theorem store_reads_the_map:
  assumes "store_ok s fs" and "io_ok s fs io"
    and "FindByID io s i fs = Inr found" and "FindByUsername io s u fs = Inr cs"
  shows "found = store_view s fs i \<and> distinct cs \<and>
    set cs = {c. store_view s fs (cred_ID c) = Some c \<and> cred_Username c = u}"
  using FindByID_view [OF assms(1-3)] FindByUsername_view [OF assms(1,2,4)] by blast

theorem store_reads_the_map_witness:
  "None = store_view sample_store Map.empty [1] \<and> distinct ([] :: Credential list) \<and>
    set [] = {c. store_view sample_store Map.empty (cred_ID c) = Some c \<and> cred_Username c = ''alice''}"
  by (rule store_reads_the_map [OF sample_ok(1,2)]) (simp_all add: FindByID_def FindByUsername_def loadLocked_def)

text \<open>
  C35: Through any sequence of operations, failed ones included, a stored credential keeps its
  key, algorithm, owner and nickname until it is deleted: only its counter can change.
\<close>

theorem stored_key_never_changes:
  assumes "store_run s fs xs fs'" and "store_ok s fs" and "store_view s fs i = Some c"
    and "OpDelete i \<notin> set xs"
  shows "\<exists>n. store_view s fs' i = Some (c\<lparr>cred_SignCount := n\<rparr>)"
  using assms by (rule store_run_keeps_credential)

theorem stored_key_never_changes_witness:
  "\<exists>fs. \<exists>n. store_view sample_store fs [1, 2] = Some (sample_cred\<lparr>cred_SignCount := n\<rparr>)"
proof -
  let ?fs = "Map.empty(store_path sample_store \<mapsto> saved_file [sample_cred]) :: fs"
  have j: "json_credential sample_cred = sample_cred"
    by (simp add: json_credential_def sample_cred_def coerceString_ascii byte_of_char_def)
  have v: "store_ok sample_store ?fs" "store_view sample_store ?fs [1, 2] = Some sample_cred"
    using store_ok_saved [of "[sample_cred]" sample_store Map.empty] j
    by (simp_all add: store_view_saved list_view_def sample_cred_def json_time_ok_def second_def)
  have "store_run sample_store ?fs [] ?fs" by (rule store_run.none)
  from stored_key_never_changes [OF this v] show ?thesis by auto
qed

text \<open>A file of mode 0600 passes the check of \<open>Open\<close>.\<close>

definition file_private :: "Store \<Rightarrow> fs \<Rightarrow> bool" where
  "file_private s fs \<longleftrightarrow>
     (case fs (store_path s) of None \<Rightarrow> True | Some f \<Rightarrow> perm f AND mode_0077 = 0)"

lemma mode_0600_private: "mode_0600 AND mode_0077 = 0"
  by (simp add: mode_0600_def mode_0077_def)

lemma Open_eq:
  "\<not> fails io SysStat \<Longrightarrow> Open io (store_path s) fs = (if file_private s fs then Inr s else Inl StoreReadable)"
  by (cases s) (auto simp: Open_def file_private_def split: option.split)

lemma run_op_saves:
  assumes "store_ok s fs" and "io_ok s fs io" and "run_op io s x fs = (r, fs')"
  shows "fs' (store_path s) = fs (store_path s) \<or> (\<exists>f. fs' (store_path s) = Some f \<and> perm f = mode_0600)"
proof (cases r)
  case (Inl e)
  then show ?thesis using run_op_failure [OF assms(1,2)] assms(3) by (auto simp: untouched_def)
next
  case (Inr u)
  obtain cs where "saveLocked io s cs fs = (Inr (), fs')"
    using assms(3) Inr by (cases x)
      (auto simp: AddCredential_def UpdateSignCount_def DeleteCredential_def result_simps Let_def)
  then show ?thesis
    using assms(2)
    by (auto simp: saveLocked_def result_simps with_cleanup_def prepare_steps_def write_steps_def
        on_file_def rename_file_def io_ok_def split: if_splits)
qed

lemma store_run_private: "store_run s fs xs fs' \<Longrightarrow> store_ok s fs \<Longrightarrow> file_private s fs \<Longrightarrow> file_private s fs'"
proof (induction rule: store_run.induct)
  case (one_more s fs xs fs1 io x r fs2)
  have "store_ok s fs1" using one_more.hyps(1) one_more.prems(1) by (rule store_run_ok)
  from run_op_saves [OF this one_more.hyps(2,3)] one_more.IH [OF one_more.prems] show ?case
    by (auto simp: file_private_def mode_0600_private)
qed



end
