(* ===== verification/Ceremony.thy ===== *)
theory Ceremony
  imports Authdata Cose Policy Challenge Store_Contract Json_Correct
begin

unbundle bit_operations_syntax

text \<open>
  The two ceremonies of \<open>internal/ceremony\<close>: \<open>register.go\<close>, \<open>attestation.go\<close> and
  \<open>login.go\<close>.  Their state is the challenge store and the file system; every call that
  changes it is a call of the component's own model.  The signature schemes and X.509 are
  a record of functions, and the sentinel errors of the packages are the constructors of
  \<open>ceremony_error\<close>.
\<close>

section \<open>Data\<close>

datatype ceremony_error =
    ClientDataType | MalformedClientData | MalformedAttestationObject | AttestationFormat
  | AttestationStatement | MissingAttestedData | CredentialNotFound | SignatureVerification
  | UnsupportedAlgorithm | CorruptStoredKey | CounterRegression
  | FromChallenge challenge_error | FromPolicy policy_error | FromAuthdata authdata_error
  | FromCose cose_error | FromStore store_error

text \<open>
  \<open>ecdsa.VerifyASN1\<close>, \<open>rsa.VerifyPKCS1v15\<close> (with SHA-256), \<open>ed25519.Verify\<close> and the public key
  of \<open>x509.ParseCertificate\<close>.
\<close>

record crypto =
  ecdsa_VerifyASN1 :: "Curve \<Rightarrow> int \<Rightarrow> int \<Rightarrow> bytes \<Rightarrow> bytes \<Rightarrow> bool"
  rsa_VerifyPKCS1v15 :: "int \<Rightarrow> int \<Rightarrow> bytes \<Rightarrow> bytes \<Rightarrow> bool"
  ed25519_Verify :: "bytes \<Rightarrow> bytes \<Rightarrow> bytes \<Rightarrow> bool"
  ParseCertificate :: "bytes \<Rightarrow> PublicKey option"

text \<open>The state that \<open>Registrar\<close> and \<open>Authenticator\<close> point to.\<close>

record world =
  challenges :: ChallengeStore
  disk :: fs

record Registrar =
  reg_Origins :: OriginAllowlist
  reg_Store :: Store
  reg_RPID :: string
  reg_UVPolicy :: UVPolicy

record RegistrationRequest =
  rr_Username :: string
  rr_CredentialID :: bytes
  rr_ClientDataJSON :: bytes
  rr_AttestationObject :: bytes
  rr_UVOverride :: UVPolicy
  rr_Nickname :: string

record Authenticator =
  auth_Origins :: OriginAllowlist
  auth_Store :: Store
  auth_RPID :: string
  auth_UVPolicy :: UVPolicy

record AssertionRequest =
  ar_Username :: string
  ar_CredentialID :: bytes
  ar_ClientDataJSON :: bytes
  ar_AuthenticatorData :: bytes
  ar_Signature :: bytes
  ar_UVOverride :: UVPolicy

record LoginResult =
  result_Username :: string
  result_UVPerformed :: bool

record clientDataFields =
  cd_Type :: string
  cd_Challenge :: string
  cd_Origin :: string

definition clientData_fields :: "(string \<times> clientDataFields field_setter) list" where
  "clientData_fields = [
     (''type'', set_string (\<lambda>x. cd_Type_update (\<lambda>_. x))),
     (''challenge'', set_string (\<lambda>x. cd_Challenge_update (\<lambda>_. x))),
     (''origin'', set_string (\<lambda>x. cd_Origin_update (\<lambda>_. x)))]"

definition Unmarshal_clientData :: "bytes \<Rightarrow> clientDataFields option" where
  "Unmarshal_clientData b =
     Unmarshal clientData_fields \<lparr>cd_Type = [], cd_Challenge = [], cd_Origin = []\<rparr> b"

section \<open>Signatures and attestation\<close>

definition verifySignature ::
    "crypto \<Rightarrow> int \<Rightarrow> PublicKey \<Rightarrow> bytes \<Rightarrow> bytes \<Rightarrow> ceremony_error + unit" where
  "verifySignature cr alg pub signedOver sig =
     (if alg = AlgES256 then
        (case pub of EcdsaKey c x y \<Rightarrow>
           failIf (\<not> ecdsa_VerifyASN1 cr c x y (sha256 signedOver) sig) SignatureVerification
         | _ \<Rightarrow> Inl UnsupportedAlgorithm)
      else if alg = AlgRS256 then
        (case pub of RsaKey n e \<Rightarrow>
           failIf (\<not> rsa_VerifyPKCS1v15 cr n e (sha256 signedOver) sig) SignatureVerification
         | _ \<Rightarrow> Inl UnsupportedAlgorithm)
      else if alg = AlgEdDSA then
        (case pub of Ed25519Key k \<Rightarrow>
           failIf (\<not> ed25519_Verify cr k signedOver sig) SignatureVerification
         | _ \<Rightarrow> Inl UnsupportedAlgorithm)
      else Inl UnsupportedAlgorithm)"

record packedAttStmt =
  stmt_Alg :: int
  stmt_Sig :: bytes
  stmt_X5C :: "bytes list"

definition decodeX5C :: "cbor_value \<Rightarrow> ceremony_error + bytes list" where
  "decodeX5C attStmt =
     (case MapGetText attStmt ''x5c'' of
        None \<Rightarrow> Inr []
      | Some x5c \<Rightarrow>
          bindE (failIf (Value_Type x5c \<noteq> TypeArray \<or> Value_Array x5c = []) AttestationStatement) (\<lambda>_.
          bindE (failIf (\<exists>item \<in> set (Value_Array x5c). Value_Type item \<noteq> TypeBytes) AttestationStatement) (\<lambda>_.
          Inr (map Value_Bytes (Value_Array x5c)))))"

definition decodePackedAttStmt :: "cbor_value \<Rightarrow> ceremony_error + packedAttStmt" where
  "decodePackedAttStmt attStmt =
     bindE (failIf (Value_Type attStmt \<noteq> TypeMap) AttestationStatement) (\<lambda>_.
     bindE (someOr (MapGetText attStmt ''alg'') AttestationStatement) (\<lambda>algVal.
     bindE (failIf (Value_Type algVal \<noteq> TypeUint \<and> Value_Type algVal \<noteq> TypeNegInt) AttestationStatement) (\<lambda>_.
     bindE (someOr (MapGetText attStmt ''sig'') AttestationStatement) (\<lambda>sigVal.
     bindE (failIf (Value_Type sigVal \<noteq> TypeBytes) AttestationStatement) (\<lambda>_.
     bindE (decodeX5C attStmt) (\<lambda>x5c.
     Inr \<lparr>stmt_Alg = Value_Int algVal, stmt_Sig = Value_Bytes sigVal, stmt_X5C = x5c\<rparr>))))))"

text \<open>The bytes that an authenticator signs.\<close>

definition signed_over :: "bytes \<Rightarrow> bytes \<Rightarrow> bytes" where
  "signed_over authData clientDataJSON = authData @ sha256 clientDataJSON"

definition verifyPackedAttestation ::
    "crypto \<Rightarrow> cbor_value \<Rightarrow> bytes \<Rightarrow> bytes \<Rightarrow> Key \<Rightarrow> ceremony_error + unit" where
  "verifyPackedAttestation cr attStmt rawAuthData clientDataJSON credKey =
     bindE (decodePackedAttStmt attStmt) (\<lambda>stmt.
     let signedOver = signed_over rawAuthData clientDataJSON in
     case stmt_X5C stmt of
       [] \<Rightarrow>
         bindE (failIf (stmt_Alg stmt \<noteq> Alg credKey) AttestationStatement) (\<lambda>_.
         wrapE (\<lambda>_. AttestationStatement)
           (verifySignature cr (stmt_Alg stmt) (Public credKey) signedOver (stmt_Sig stmt)))
     | der # _ \<Rightarrow>
         bindE (someOr (ParseCertificate cr der) AttestationStatement) (\<lambda>pub.
         wrapE (\<lambda>_. AttestationStatement)
           (verifySignature cr (stmt_Alg stmt) pub signedOver (stmt_Sig stmt))))"

definition verifyAttestation ::
    "crypto \<Rightarrow> string \<Rightarrow> cbor_value \<Rightarrow> bytes \<Rightarrow> bytes \<Rightarrow> Key \<Rightarrow> ceremony_error + unit" where
  "verifyAttestation cr fmtStr attStmt rawAuthData clientDataJSON credKey =
     (if fmtStr = ''none'' then
        failIf (Value_Type attStmt \<noteq> TypeMap \<or> Value_Map attStmt \<noteq> []) AttestationStatement
      else if fmtStr = ''packed'' then
        verifyPackedAttestation cr attStmt rawAuthData clientDataJSON credKey
      else Inl AttestationFormat)"

definition decodeAttestationObject :: "bytes \<Rightarrow> ceremony_error + string \<times> cbor_value \<times> bytes" where
  "decodeAttestationObject raw =
     bindE (wrapE (\<lambda>_. MalformedAttestationObject) (Decode raw)) (\<lambda>(v, n).
     bindE (failIf (n \<noteq> length raw) MalformedAttestationObject) (\<lambda>_.
     bindE (failIf (Value_Type v \<noteq> TypeMap) MalformedAttestationObject) (\<lambda>_.
     bindE (someOr (MapGetText v ''fmt'') MalformedAttestationObject) (\<lambda>fmtVal.
     bindE (failIf (Value_Type fmtVal \<noteq> TypeText) MalformedAttestationObject) (\<lambda>_.
     bindE (someOr (MapGetText v ''attStmt'') MalformedAttestationObject) (\<lambda>attStmtVal.
     bindE (failIf (Value_Type attStmtVal \<noteq> TypeMap) MalformedAttestationObject) (\<lambda>_.
     bindE (someOr (MapGetText v ''authData'') MalformedAttestationObject) (\<lambda>authDataVal.
     bindE (failIf (Value_Type authDataVal \<noteq> TypeBytes) MalformedAttestationObject) (\<lambda>_.
     Inr (Value_Text fmtVal, attStmtVal, Value_Bytes authDataVal))))))))))"

section \<open>Registration\<close>

type_synonym 'a ceremony_op = "(world, ceremony_error, 'a) op"

definition on_challenges :: "(ChallengeStore, challenge_error, 'a) op \<Rightarrow> 'a ceremony_op" where
  "on_challenges = onS challenges (\<lambda>c w. w\<lparr>challenges := c\<rparr>) FromChallenge"

definition on_disk :: "(fs, store_error, 'a) op \<Rightarrow> 'a ceremony_op" where
  "on_disk = onS disk (\<lambda>d w. w\<lparr>disk := d\<rparr>) FromStore"

text \<open>
  The checks from the clientDataJSON to the origin, which both ceremonies start with: type,
  challenge (consumed whatever follows), origin.
\<close>

definition checkClientData ::
    "string \<Rightarrow> Purpose \<Rightarrow> OriginAllowlist \<Rightarrow> string \<Rightarrow> bytes \<Rightarrow> time \<Rightarrow> unit ceremony_op" where
  "checkClientData typ purpose origins username json clock =
     bindS (liftS (someOr (Unmarshal_clientData json) MalformedClientData)) (\<lambda>cd.
     bindS (liftS (failIf (cd_Type cd \<noteq> typ) ClientDataType)) (\<lambda>_.
     bindS (liftS (someOr (RawURLEncoding_DecodeString (cd_Challenge cd)) MalformedClientData)) (\<lambda>challenge.
     bindS (on_challenges (Consume username purpose challenge clock)) (\<lambda>_.
     liftS (wrapE FromPolicy (CheckOrigin origins (cd_Origin cd)))))))"

text \<open>The authenticatorData checks that both ceremonies share: layout, rpIdHash, flags.\<close>

definition checkAuthData :: "string \<Rightarrow> UVPolicy \<Rightarrow> UVPolicy \<Rightarrow> bytes \<Rightarrow> ceremony_error + AuthData \<times> bool" where
  "checkAuthData rpID floor override raw =
     bindE (wrapE FromAuthdata (Parse raw)) (\<lambda>ad.
     bindE (wrapE FromPolicy (CheckRPIDHash rpID (RPIDHash ad))) (\<lambda>_.
     bindE (wrapE FromPolicy (CheckFlags (EffectivePolicy floor override) (UP ad) (UV ad))) (\<lambda>uv.
     Inr (ad, uv))))"

definition new_credential :: "string \<Rightarrow> string \<Rightarrow> AuthData \<Rightarrow> AttestedCredentialData \<Rightarrow> Key \<Rightarrow> time \<Rightarrow> Credential" where
  "new_credential username nickname ad at key clock =
     \<lparr>cred_ID = CredentialID at, cred_Username = username, cred_PublicKey = CredentialPublicKeyRaw at,
      cred_Algorithm = Alg key, cred_SignCount = SignCount ad, cred_AAGUID = AAGUID at,
      cred_CreatedAt = clock, cred_Nickname = nickname\<rparr>"

text \<open>Everything between the origin check and the store, which changes no state.\<close>

definition checkAttestation :: "crypto \<Rightarrow> Registrar \<Rightarrow> RegistrationRequest \<Rightarrow>
    ceremony_error + AuthData \<times> AttestedCredentialData \<times> Key" where
  "checkAttestation cr r req =
     bindE (decodeAttestationObject (rr_AttestationObject req)) (\<lambda>(fmtStr, attStmt, rawAuthData).
     bindE (checkAuthData (reg_RPID r) (reg_UVPolicy r) (rr_UVOverride req) rawAuthData) (\<lambda>(ad, _).
     bindE (someOr (if AT ad then Attested ad else None) MissingAttestedData) (\<lambda>at.
     bindE (wrapE FromCose (cose_Parse (CredentialPublicKey at))) (\<lambda>key.
     bindE (verifyAttestation cr fmtStr attStmt rawAuthData (rr_ClientDataJSON req) key) (\<lambda>_.
     Inr (ad, at, key))))))"

definition Register :: "crypto \<Rightarrow> store_io \<Rightarrow> Registrar \<Rightarrow> RegistrationRequest \<Rightarrow> unit ceremony_op" where
  "Register cr io r req =
     bindS (checkClientData ''webauthn.create'' PurposeRegister (reg_Origins r) (rr_Username req)
       (rr_ClientDataJSON req) (wallClock io)) (\<lambda>_.
     bindS (liftS (checkAttestation cr r req)) (\<lambda>(ad, at, key).
     on_disk (AddCredential io (reg_Store r)
       (new_credential (rr_Username req) (rr_Nickname req) ad at key (wallClock io)))))"

section \<open>Login\<close>

text \<open>
  The stored key, decoded and compared with the algorithm recorded beside it, and the
  assertion's signature and counter checked against it.
\<close>

definition checkAssertion :: "crypto \<Rightarrow> AssertionRequest \<Rightarrow> Credential \<Rightarrow> AuthData \<Rightarrow> ceremony_error + unit" where
  "checkAssertion cr req cred ad =
     bindE (wrapE (\<lambda>_. CorruptStoredKey) (Decode (cred_PublicKey cred))) (\<lambda>(keyVal, n).
     bindE (failIf (n \<noteq> length (cred_PublicKey cred)) CorruptStoredKey) (\<lambda>_.
     bindE (wrapE FromCose (cose_Parse keyVal)) (\<lambda>key.
     bindE (failIf (Alg key \<noteq> cred_Algorithm cred) CorruptStoredKey) (\<lambda>_.
     bindE (verifySignature cr (cred_Algorithm cred) (Public key)
        (signed_over (ar_AuthenticatorData req) (ar_ClientDataJSON req)) (ar_Signature req)) (\<lambda>_.
     failIf (cred_SignCount cred \<noteq> 0 \<and> SignCount ad \<noteq> 0 \<and> SignCount ad \<le> cred_SignCount cred)
       CounterRegression)))))"

text \<open>
  \<open>Login\<close> up to its last read of the store, and the write that ends it.  The store's mutex is
  free in between, so another request's steps may come between the two.
\<close>

definition Login_checks ::
    "crypto \<Rightarrow> store_io \<Rightarrow> Authenticator \<Rightarrow> AssertionRequest \<Rightarrow> (Credential \<times> AuthData \<times> bool) ceremony_op" where
  "Login_checks cr io a req =
     bindS (checkClientData ''webauthn.get'' PurposeLogin (auth_Origins a) (ar_Username req)
       (ar_ClientDataJSON req) (wallClock io)) (\<lambda>_.
     bindS (on_disk (readS (FindByID io (auth_Store a) (ar_CredentialID req)))) (\<lambda>found.
     bindS (liftS (someOr found CredentialNotFound)) (\<lambda>cred.
     bindS (liftS (checkAuthData (auth_RPID a) (auth_UVPolicy a) (ar_UVOverride req)
       (ar_AuthenticatorData req))) (\<lambda>(ad, uvPerformed).
     bindS (liftS (checkAssertion cr req cred ad)) (\<lambda>_.
     returnS (cred, ad, uvPerformed))))))"

definition Login_commit ::
    "store_io \<Rightarrow> Authenticator \<Rightarrow> AssertionRequest \<Rightarrow> Credential \<times> AuthData \<times> bool \<Rightarrow> LoginResult ceremony_op" where
  "Login_commit io a req = (\<lambda>(cred, ad, uvPerformed).
     bindS (on_disk (UpdateSignCount io (auth_Store a) (ar_CredentialID req) (SignCount ad))) (\<lambda>_.
     returnS \<lparr>result_Username = cred_Username cred, result_UVPerformed = uvPerformed\<rparr>))"

definition Login ::
    "crypto \<Rightarrow> store_io \<Rightarrow> store_io \<Rightarrow> Authenticator \<Rightarrow> AssertionRequest \<Rightarrow> LoginResult ceremony_op" where
  "Login cr io io' a req = bindS (Login_checks cr io a req) (Login_commit io' a req)"

end
