(* ===== verification/Httpapi.thy ===== *)
theory Httpapi
  imports Session Ceremony
begin

text \<open>
  The HTTP transport of \<open>internal/httpapi\<close>: \<open>api.go\<close> and the demo page of \<open>page.go\<close>.  A
  handler takes a request and the world to a response and the next world; what \<open>logErr\<close>
  writes is kept beside the response, which is all that a client sees.  Request bodies are
  decoded with the model of \<open>encoding/json\<close>, response bodies are written with it, and every
  call into the ceremonies, the store and the signer is a call of their models.
\<close>

section \<open>Requests, responses and the environment\<close>

text \<open>The segments of the cleaned path, and the value of the \<open>Authorization\<close> header (empty if absent).\<close>

record request =
  http_Method :: string
  http_Path :: "string list"
  http_Authorization :: string
  http_Body :: bytes

record response =
  resp_Status :: nat
  resp_ContentType :: "string option"
  resp_Body :: bytes

definition StatusOK :: nat where "StatusOK = 200"
definition StatusNoContent :: nat where "StatusNoContent = 204"
definition StatusBadRequest :: nat where "StatusBadRequest = 400"
definition StatusUnauthorized :: nat where "StatusUnauthorized = 401"
definition StatusNotFound :: nat where "StatusNotFound = 404"
definition StatusMethodNotAllowed :: nat where "StatusMethodNotAllowed = 405"
definition StatusInternalServerError :: nat where "StatusInternalServerError = 500"

lemmas status_defs = StatusOK_def StatusNoContent_def StatusBadRequest_def StatusUnauthorized_def
  StatusNotFound_def StatusMethodNotAllowed_def StatusInternalServerError_def

record Server =
  srv_Registrar :: Registrar
  srv_Authenticator :: Authenticator
  srv_Store :: Store
  srv_Sessions :: Signer
  srv_RPID :: string
  srv_RPName :: string
  srv_Log :: bool

text \<open>
  What one request meets: the two calls of \<open>rand.Read\<close>, for a challenge and for an ID, the
  environments of its first and second store operation (their clocks are the clocks of the
  request), and the standard library's signature schemes, time text and template engine.
  The template's output comes with whether its execution failed.
\<close>

record env =
  env_crypto :: crypto
  env_text :: time_text
  env_rand :: "nat \<Rightarrow> bytes option"
  env_rand_id :: "nat \<Rightarrow> bytes option"
  env_io :: store_io
  env_io' :: store_io
  env_template :: "string \<Rightarrow> bytes \<times> bool"

datatype logged_error =
    LogChallenge challenge_error | LogRand | LogStore store_error | LogCeremony ceremony_error
  | LogSession session_error | LogTemplate

type_synonym log_entry = "string \<times> logged_error"
type_synonym reply = "response \<times> log_entry list"

text \<open>A handler's steps: an early return is a reply, what goes on is a value.\<close>

type_synonym 'a handling = "(world, reply, 'a) op"

section \<open>Writing responses\<close>

fun decimal :: "nat \<Rightarrow> bytes" where
  "decimal n = (if n < 10 then [of_nat (48 + n)] else decimal (n div 10) @ [of_nat (48 + n mod 10)])"

declare decimal.simps [simp del]

definition Marshal_int :: "int \<Rightarrow> bytes" where
  "Marshal_int i = (if i < 0 then 0x2d # decimal (nat (- i)) else decimal (nat i))"

fun join_values :: "bytes list \<Rightarrow> bytes" where
  "join_values [] = []"
| "join_values [v] = v"
| "join_values (v # vs) = v @ [ch_comma] @ join_values vs"

definition Marshal_array :: "bytes list \<Rightarrow> bytes" where
  "Marshal_array vs = [ch_lbracket] @ join_values vs @ [ch_rbracket]"

text \<open>
  \<open>Encoder.Encode\<close> ends a value with a newline and writes nothing for a value that it cannot
  encode (\<open>None\<close>); the error is ignored.
\<close>

definition writeJSON :: "nat \<Rightarrow> bytes option \<Rightarrow> response" where
  "writeJSON status v =
     \<lparr>resp_Status = status, resp_ContentType = Some ''application/json'',
      resp_Body = (case v of None \<Rightarrow> [] | Some b \<Rightarrow> b @ [0x0a])\<rparr>"

abbreviation (input) errorResponse :: "string \<Rightarrow> bytes" where
  "errorResponse msg \<equiv> Marshal_object [(''error'', Marshal_string msg)]"

definition writeError :: "nat \<Rightarrow> string \<Rightarrow> response" where
  "writeError status msg = writeJSON status (Some (errorResponse msg))"

definition noContent :: response where
  "noContent = \<lparr>resp_Status = StatusNoContent, resp_ContentType = None, resp_Body = []\<rparr>"

definition logErr :: "Server \<Rightarrow> string \<Rightarrow> logged_error \<Rightarrow> log_entry list" where
  "logErr s what err = (if srv_Log s then [(what, err)] else [])"

definition refuse :: "nat \<Rightarrow> string \<Rightarrow> reply" where
  "refuse status msg = (writeError status msg, [])"

definition refuse_logged :: "Server \<Rightarrow> string \<Rightarrow> nat \<Rightarrow> string \<Rightarrow> logged_error \<Rightarrow> reply" where
  "refuse_logged s what status msg err = (writeError status msg, logErr s what err)"

definition answer :: "response handling \<Rightarrow> world \<Rightarrow> reply \<times> world" where
  "answer m w = (case m w of (Inl rep, w') \<Rightarrow> (rep, w') | (Inr resp, w') \<Rightarrow> ((resp, []), w'))"

section \<open>Sessions\<close>

definition bearer :: string where "bearer = ''Bearer ''"

definition authenticate :: "Server \<Rightarrow> env \<Rightarrow> request \<Rightarrow> session_error + Claims" where
  "authenticate s e r =
     (if take (length bearer) (http_Authorization r) \<noteq> bearer then Inl MalformedToken
      else Verify (env_text e) (srv_Sessions s) (drop (length bearer) (http_Authorization r))
        (wallClock (env_io e)))"

section \<open>Registration\<close>

record registerBeginRequest =
  rb_Username :: string

definition registerBegin_fields :: "(string \<times> registerBeginRequest field_setter) list" where
  "registerBegin_fields = [(''username'', set_string (\<lambda>x. rb_Username_update (\<lambda>_. x)))]"

definition publicKeyCredentialParam :: "int \<Rightarrow> bytes" where
  "publicKeyCredentialParam alg =
     Marshal_object [(''type'', Marshal_string ''public-key''), (''alg'', Marshal_int alg)]"

definition relyingParty :: "string \<Rightarrow> string \<Rightarrow> bytes" where
  "relyingParty rpID name = Marshal_object [(''id'', Marshal_string rpID), (''name'', Marshal_string name)]"

definition userEntity :: "string \<Rightarrow> string \<Rightarrow> string \<Rightarrow> bytes" where
  "userEntity userID name displayName =
     Marshal_object [(''id'', Marshal_string userID), (''name'', Marshal_string name),
       (''displayName'', Marshal_string displayName)]"

definition authenticatorSelection :: "string \<Rightarrow> bool \<Rightarrow> string \<Rightarrow> bytes" where
  "authenticatorSelection residentKey requireResidentKey userVerification =
     Marshal_object [(''residentKey'', Marshal_string residentKey),
       (''requireResidentKey'', Marshal_bool requireResidentKey),
       (''userVerification'', Marshal_string userVerification)]"

text \<open>The two durations are whole milliseconds; \<open>Duration / Duration\<close> truncates.\<close>

definition timeout_ms :: int where
  "timeout_ms = ChallengeTTL div 1000000"

definition creationOptions :: "Server \<Rightarrow> string \<Rightarrow> bytes \<Rightarrow> bytes \<Rightarrow> bytes" where
  "creationOptions s username userID chal =
     Marshal_object [
       (''rp'', relyingParty (srv_RPID s) (srv_RPName s)),
       (''user'', userEntity (RawURLEncoding_EncodeToString userID) username username),
       (''challenge'', Marshal_string (RawURLEncoding_EncodeToString chal)),
       (''pubKeyCredParams'', Marshal_array [
         publicKeyCredentialParam AlgES256, publicKeyCredentialParam AlgRS256,
         publicKeyCredentialParam AlgEdDSA]),
       (''timeout'', Marshal_int timeout_ms),
       (''attestation'', Marshal_string ''none''),
       (''authenticatorSelection'',
          authenticatorSelection ''required'' True (reg_UVPolicy (srv_Registrar s)))]"

definition handleRegisterBegin :: "Server \<Rightarrow> env \<Rightarrow> request \<Rightarrow> response handling" where
  "handleRegisterBegin s e r =
     bindS (liftS (someOr (Decoder_Decode registerBegin_fields \<lparr>rb_Username = []\<rparr> (http_Body r))
       (refuse StatusBadRequest ''invalid request''))) (\<lambda>req.
     bindS (liftS (failIf (rb_Username req = []) (refuse StatusBadRequest ''invalid request''))) (\<lambda>_.
     bindS (onS challenges (\<lambda>c w. w\<lparr>challenges := c\<rparr>)
       (\<lambda>err. refuse_logged s ''register/begin'' StatusInternalServerError ''could not start registration''
         (LogChallenge err))
       (Issue (rb_Username req) PurposeRegister (env_rand e) (wallClock (env_io e)))) (\<lambda>chal.
     bindS (liftS (someOr (env_rand_id e 16)
       (refuse_logged s ''register/begin'' StatusInternalServerError ''could not start registration'' LogRand))) (\<lambda>userID.
     returnS (writeJSON StatusOK (Some (creationOptions s (rb_Username req) userID chal)))))))"

record registerFinishRequest =
  rf_Username :: string
  rf_RawID :: string
  rf_ClientDataJSON :: string
  rf_AttestationObject :: string
  rf_Nickname :: string
  rf_UV :: string

definition registerFinish_fields :: "(string \<times> registerFinishRequest field_setter) list" where
  "registerFinish_fields = [
     (''username'', set_string (\<lambda>x. rf_Username_update (\<lambda>_. x))),
     (''rawId'', set_string (\<lambda>x. rf_RawID_update (\<lambda>_. x))),
     (''clientDataJSON'', set_string (\<lambda>x. rf_ClientDataJSON_update (\<lambda>_. x))),
     (''attestationObject'', set_string (\<lambda>x. rf_AttestationObject_update (\<lambda>_. x))),
     (''nickname'', set_string (\<lambda>x. rf_Nickname_update (\<lambda>_. x))),
     (''uv'', set_string (\<lambda>x. rf_UV_update (\<lambda>_. x)))]"

definition zeroRegisterFinish :: registerFinishRequest where
  "zeroRegisterFinish = \<lparr>rf_Username = [], rf_RawID = [], rf_ClientDataJSON = [], rf_AttestationObject = [],
     rf_Nickname = [], rf_UV = []\<rparr>"

definition decodeRegisterFinish :: "registerFinishRequest \<Rightarrow> RegistrationRequest option" where
  "decodeRegisterFinish req =
     Option.bind (RawURLEncoding_DecodeString (rf_RawID req)) (\<lambda>credID.
     Option.bind (RawURLEncoding_DecodeString (rf_ClientDataJSON req)) (\<lambda>clientDataJSON.
     Option.bind (RawURLEncoding_DecodeString (rf_AttestationObject req)) (\<lambda>attestationObject.
     Some \<lparr>rr_Username = rf_Username req, rr_CredentialID = credID, rr_ClientDataJSON = clientDataJSON,
       rr_AttestationObject = attestationObject, rr_UVOverride = rf_UV req, rr_Nickname = rf_Nickname req\<rparr>)))"

definition handleRegisterFinish :: "Server \<Rightarrow> env \<Rightarrow> request \<Rightarrow> response handling" where
  "handleRegisterFinish s e r =
     bindS (liftS (someOr (Decoder_Decode registerFinish_fields zeroRegisterFinish (http_Body r))
       (refuse StatusBadRequest ''invalid request''))) (\<lambda>req.
     bindS (liftS (someOr (decodeRegisterFinish req) (refuse StatusBadRequest ''invalid request''))) (\<lambda>reg.
     bindS (onS (\<lambda>w. w) (\<lambda>w' _. w')
       (\<lambda>err. refuse_logged s ''register/finish'' StatusBadRequest ''registration failed'' (LogCeremony err))
       (Register (env_crypto e) (env_io e) (srv_Registrar s) reg)) (\<lambda>_.
     returnS noContent)))"

section \<open>Login\<close>

record loginBeginRequest =
  lb_Username :: string

definition loginBegin_fields :: "(string \<times> loginBeginRequest field_setter) list" where
  "loginBegin_fields = [(''username'', set_string (\<lambda>x. lb_Username_update (\<lambda>_. x)))]"

definition allowedCredential :: "Credential \<Rightarrow> bytes" where
  "allowedCredential c =
     Marshal_object [(''type'', Marshal_string ''public-key''),
       (''id'', Marshal_string (RawURLEncoding_EncodeToString (cred_ID c)))]"

definition requestOptions :: "Server \<Rightarrow> bytes \<Rightarrow> Credential list \<Rightarrow> string \<Rightarrow> bytes" where
  "requestOptions s chal allow flowID =
     Marshal_object ([
       (''rpId'', Marshal_string (srv_RPID s)),
       (''challenge'', Marshal_string (RawURLEncoding_EncodeToString chal)),
       (''timeout'', Marshal_int timeout_ms),
       (''userVerification'', Marshal_string (auth_UVPolicy (srv_Authenticator s)))] @
       (if allow = [] then [] else [(''allowCredentials'', Marshal_array (map allowedCredential allow))]) @
       (if flowID = [] then [] else [(''flowId'', Marshal_string flowID)]))"

definition randomFlowID :: "env \<Rightarrow> string option" where
  "randomFlowID e = map_option RawURLEncoding_EncodeToString (env_rand_id e 16)"

definition handleLoginBegin :: "Server \<Rightarrow> env \<Rightarrow> request \<Rightarrow> response handling" where
  "handleLoginBegin s e r =
     (let failed = refuse_logged s ''login/begin'' StatusInternalServerError ''could not start login'' in
     bindS (liftS (someOr (Decoder_Decode loginBegin_fields \<lparr>lb_Username = []\<rparr> (http_Body r))
       (refuse StatusBadRequest ''invalid request''))) (\<lambda>req.
     bindS (if lb_Username req = []
        then liftS (bindE (someOr (randomFlowID e) (failed LogRand)) (\<lambda>flowID. Inr (flowID, [])))
        else bindS (onS disk (\<lambda>d w. w\<lparr>disk := d\<rparr>) (\<lambda>err. failed (LogStore err))
             (readS (FindByUsername (env_io e) (srv_Store s) (lb_Username req)))) (\<lambda>creds.
           returnS (lb_Username req, creds))) (\<lambda>(challengeKey, allow).
     bindS (onS challenges (\<lambda>c w. w\<lparr>challenges := c\<rparr>) (\<lambda>err. failed (LogChallenge err))
       (Issue challengeKey PurposeLogin (env_rand e) (wallClock (env_io e)))) (\<lambda>chal.
     returnS (writeJSON StatusOK (Some (requestOptions s chal allow
       (if lb_Username req = [] then challengeKey else []))))))))"

record loginFinishRequest =
  lf_Username :: string
  lf_FlowID :: string
  lf_RawID :: string
  lf_ClientDataJSON :: string
  lf_AuthenticatorData :: string
  lf_Signature :: string
  lf_UV :: string

definition loginFinish_fields :: "(string \<times> loginFinishRequest field_setter) list" where
  "loginFinish_fields = [
     (''username'', set_string (\<lambda>x. lf_Username_update (\<lambda>_. x))),
     (''flowId'', set_string (\<lambda>x. lf_FlowID_update (\<lambda>_. x))),
     (''rawId'', set_string (\<lambda>x. lf_RawID_update (\<lambda>_. x))),
     (''clientDataJSON'', set_string (\<lambda>x. lf_ClientDataJSON_update (\<lambda>_. x))),
     (''authenticatorData'', set_string (\<lambda>x. lf_AuthenticatorData_update (\<lambda>_. x))),
     (''signature'', set_string (\<lambda>x. lf_Signature_update (\<lambda>_. x))),
     (''uv'', set_string (\<lambda>x. lf_UV_update (\<lambda>_. x)))]"

definition zeroLoginFinish :: loginFinishRequest where
  "zeroLoginFinish = \<lparr>lf_Username = [], lf_FlowID = [], lf_RawID = [], lf_ClientDataJSON = [],
     lf_AuthenticatorData = [], lf_Signature = [], lf_UV = []\<rparr>"

definition decodeLoginFinish :: "loginFinishRequest \<Rightarrow> AssertionRequest option" where
  "decodeLoginFinish req =
     Option.bind (RawURLEncoding_DecodeString (lf_RawID req)) (\<lambda>credID.
     Option.bind (RawURLEncoding_DecodeString (lf_ClientDataJSON req)) (\<lambda>clientDataJSON.
     Option.bind (RawURLEncoding_DecodeString (lf_AuthenticatorData req)) (\<lambda>authData.
     Option.bind (RawURLEncoding_DecodeString (lf_Signature req)) (\<lambda>sig.
     let challengeKey = (if lf_Username req = [] then lf_FlowID req else lf_Username req) in
     Some \<lparr>ar_Username = challengeKey, ar_CredentialID = credID, ar_ClientDataJSON = clientDataJSON,
       ar_AuthenticatorData = authData, ar_Signature = sig, ar_UVOverride = lf_UV req\<rparr>))))"

definition loginFinishResponse :: "string \<Rightarrow> LoginResult \<Rightarrow> bytes" where
  "loginFinishResponse token result =
     Marshal_object [
       (''token'', Marshal_string token),
       (''user'', Marshal_string (result_Username result)),
       (''uv'', Marshal_bool (result_UVPerformed result))]"

definition handleLoginFinish :: "Server \<Rightarrow> env \<Rightarrow> request \<Rightarrow> response handling" where
  "handleLoginFinish s e r =
     bindS (liftS (someOr (Decoder_Decode loginFinish_fields zeroLoginFinish (http_Body r))
       (refuse StatusBadRequest ''invalid request''))) (\<lambda>req.
     bindS (liftS (someOr (decodeLoginFinish req) (refuse StatusBadRequest ''invalid request''))) (\<lambda>assertion.
     bindS (onS (\<lambda>w. w) (\<lambda>w' _. w')
       (\<lambda>err. refuse_logged s ''login/finish'' StatusUnauthorized ''login failed'' (LogCeremony err))
       (Login (env_crypto e) (env_io e) (env_io' e) (srv_Authenticator s) assertion)) (\<lambda>result.
     bindS (liftS (wrapE
       (\<lambda>err. refuse_logged s ''login/finish'' StatusInternalServerError ''could not issue session'' (LogSession err))
       (session_Issue (env_text e) (srv_Sessions s) (result_Username result) (result_UVPerformed result)
         (wallClock (env_io' e))))) (\<lambda>token.
     returnS (writeJSON StatusOK (Some (loginFinishResponse token result)))))))"

section \<open>Credential management\<close>

definition credentialSummary :: "time_text \<Rightarrow> Credential \<Rightarrow> bytes option" where
  "credentialSummary tt c =
     (if json_time_ok (cred_CreatedAt c) then
        Some (Marshal_object ([
          (''id'', Marshal_string (RawURLEncoding_EncodeToString (cred_ID c))),
          (''algorithm'', Marshal_int (cred_Algorithm c)),
          (''createdAt'', Marshal_time tt (cred_CreatedAt c)),
          (''aaguid'', Marshal_string (RawURLEncoding_EncodeToString (cred_AAGUID c)))] @
          (if cred_Nickname c = [] then [] else [(''nickname'', Marshal_string (cred_Nickname c))])))
      else None)"

definition credentialSummaries :: "time_text \<Rightarrow> Credential list \<Rightarrow> bytes option" where
  "credentialSummaries tt cs =
     (if list_all (\<lambda>c. json_time_ok (cred_CreatedAt c)) cs
      then Some (Marshal_array (map (\<lambda>c. the (credentialSummary tt c)) cs)) else None)"

definition handleListCredentials :: "Server \<Rightarrow> env \<Rightarrow> request \<Rightarrow> response handling" where
  "handleListCredentials s e r =
     bindS (liftS (wrapE (\<lambda>_. refuse StatusUnauthorized ''authentication required'') (authenticate s e r))) (\<lambda>claims.
     bindS (onS disk (\<lambda>d w. w\<lparr>disk := d\<rparr>)
       (\<lambda>err. refuse_logged s ''credentials/list'' StatusInternalServerError ''could not list credentials'' (LogStore err))
       (readS (FindByUsername (env_io e) (srv_Store s) (claims_Username claims)))) (\<lambda>creds.
     returnS (writeJSON StatusOK (credentialSummaries (env_text e) creds))))"

text \<open>\<open>r.PathValue("id")\<close> is the segment that the route's wildcard matched.\<close>

definition handleDeleteCredential :: "Server \<Rightarrow> env \<Rightarrow> string \<Rightarrow> request \<Rightarrow> response handling" where
  "handleDeleteCredential s e pathID r =
     (let failed = (\<lambda>err. refuse_logged s ''credentials/delete'' StatusInternalServerError
            ''could not delete credential'' (LogStore err)) in
     bindS (liftS (wrapE (\<lambda>_. refuse StatusUnauthorized ''authentication required'') (authenticate s e r))) (\<lambda>claims.
     bindS (liftS (someOr (RawURLEncoding_DecodeString pathID)
       (refuse StatusBadRequest ''invalid credential id''))) (\<lambda>credID.
     bindS (onS disk (\<lambda>d w. w\<lparr>disk := d\<rparr>) failed (readS (FindByID (env_io e) (srv_Store s) credID))) (\<lambda>found.
     bindS (liftS (failIf (case found of None \<Rightarrow> True | Some cred \<Rightarrow> cred_Username cred \<noteq> claims_Username claims)
       (refuse StatusNotFound ''credential not found''))) (\<lambda>_.
     bindS (onS disk (\<lambda>d w. w\<lparr>disk := d\<rparr>) failed (DeleteCredential (env_io' e) (srv_Store s) credID)) (\<lambda>_.
     returnS noContent))))))"

section \<open>The demo page and the routes\<close>

definition handleDemoPage :: "Server \<Rightarrow> env \<Rightarrow> reply" where
  "handleDemoPage s e =
     (let (out, failed) = env_template e (srv_RPID s) in
      (\<lparr>resp_Status = StatusOK, resp_ContentType = Some ''text/html; charset=utf-8'', resp_Body = out\<rparr>,
       if failed then logErr s ''demo page'' LogTemplate else []))"

datatype route =
    RegisterBegin | RegisterFinish | LoginBegin | LoginFinish | DemoPage | ListCredentials
  | DeleteCredentialRoute string

text \<open>
  The patterns of \<open>Routes\<close> as \<open>http.ServeMux\<close> matches them: \<open>GET\<close> also serves \<open>HEAD\<close>, and a
  wildcard takes one segment that is not empty.
\<close>

definition route_of :: "string list \<Rightarrow> (string \<times> route) list" where
  "route_of path =
     (case path of
        [a, b] \<Rightarrow>
          (if a = ''register'' \<and> b = ''begin'' then [(''POST'', RegisterBegin)]
           else if a = ''register'' \<and> b = ''finish'' then [(''POST'', RegisterFinish)]
           else if a = ''login'' \<and> b = ''begin'' then [(''POST'', LoginBegin)]
           else if a = ''login'' \<and> b = ''finish'' then [(''POST'', LoginFinish)]
           else if a = ''credentials'' \<and> b \<noteq> [] then [(''DELETE'', DeleteCredentialRoute b)]
           else [])
      | [a] \<Rightarrow>
          (if a = ''demo'' then [(''GET'', DemoPage), (''HEAD'', DemoPage)]
           else if a = ''credentials'' then [(''GET'', ListCredentials), (''HEAD'', ListCredentials)]
           else [])
      | _ \<Rightarrow> [])"

definition handle :: "Server \<Rightarrow> env \<Rightarrow> request \<Rightarrow> route \<Rightarrow> world \<Rightarrow> reply \<times> world" where
  "handle s e r rt w =
     (case rt of
        RegisterBegin \<Rightarrow> answer (handleRegisterBegin s e r) w
      | RegisterFinish \<Rightarrow> answer (handleRegisterFinish s e r) w
      | LoginBegin \<Rightarrow> answer (handleLoginBegin s e r) w
      | LoginFinish \<Rightarrow> answer (handleLoginFinish s e r) w
      | DemoPage \<Rightarrow> (handleDemoPage s e, w)
      | ListCredentials \<Rightarrow> answer (handleListCredentials s e r) w
      | DeleteCredentialRoute pathID \<Rightarrow> answer (handleDeleteCredential s e pathID r) w)"

text \<open>A path of the server with another method is 405, any other path 404, both with plain text.\<close>

definition plainError :: "nat \<Rightarrow> string \<Rightarrow> response" where
  "plainError status msg =
     \<lparr>resp_Status = status, resp_ContentType = Some ''text/plain; charset=utf-8'',
      resp_Body = bytes_of_string msg @ [0x0a]\<rparr>"

definition Routes :: "Server \<Rightarrow> env \<Rightarrow> request \<Rightarrow> world \<Rightarrow> reply \<times> world" where
  "Routes s e r w =
     (case map_of (route_of (http_Path r)) (http_Method r) of
        Some rt \<Rightarrow> handle s e r rt w
      | None \<Rightarrow>
          ((if route_of (http_Path r) = [] then plainError StatusNotFound ''404 page not found''
            else plainError StatusMethodNotAllowed ''Method Not Allowed'', []), w))"

end
