(* ===== verification/Virtualauth.thy ===== *)
theory Virtualauth
  imports Ceremony
begin

unbundle bit_operations_syntax

text \<open>
  The synthetic authenticator of \<open>internal/webauthntest/virtualauth.go\<close>, with which the
  repository's tests drive the server: it builds clientDataJSON, authenticatorData,
  COSE keys and attestation objects and signs them.  Key generation, signing and
  \<open>x509.CreateCertificate\<close> are records of functions; a failing source of randomness or
  signer is \<open>None\<close>.
\<close>

section \<open>The authenticator\<close>

record ecdsa_PrivateKey =
  ec_Curve :: Curve
  ec_X :: int
  ec_Y :: int
  ec_D :: int

record rsa_PrivateKey =
  rsa_N :: int
  rsa_E :: int
  rsa_D :: int

record VirtualAuthenticator =
  v_AAGUID :: bytes
  v_Alg :: int
  v_ecPriv :: "ecdsa_PrivateKey option"
  v_rsaPriv :: "rsa_PrivateKey option"
  v_edPriv :: bytes
  v_edPub :: bytes
  v_signCount :: "32 word"
  v_zeroCounter :: bool

datatype virtual_error = VirtualRand | VirtualGenerate | VirtualAlgorithm | VirtualSign | VirtualCert

text \<open>\<open>rand.Read\<close> for the AAGUID and the three \<open>GenerateKey\<close> functions.\<close>

record key_source =
  rand_aaguid :: "bytes option"
  ecdsa_GenerateKey :: "ecdsa_PrivateKey option"
  rsa_GenerateKey :: "nat \<Rightarrow> rsa_PrivateKey option"
  ed25519_GenerateKey :: "(bytes \<times> bytes) option"

record signing =
  ecdsa_SignASN1 :: "ecdsa_PrivateKey \<Rightarrow> bytes \<Rightarrow> bytes option"
  rsa_SignPKCS1v15 :: "rsa_PrivateKey \<Rightarrow> bytes \<Rightarrow> bytes option"
  ed25519_Sign :: "bytes \<Rightarrow> bytes \<Rightarrow> bytes"
  x509_SelfSigned :: "ecdsa_PrivateKey \<Rightarrow> bytes option"

definition WithZeroCounter :: "VirtualAuthenticator \<Rightarrow> VirtualAuthenticator" where
  "WithZeroCounter v = v\<lparr>v_zeroCounter := True\<rparr>"

definition new_keys :: "key_source \<Rightarrow> int \<Rightarrow> VirtualAuthenticator \<Rightarrow> virtual_error + VirtualAuthenticator" where
  "new_keys g alg v =
     (if alg = AlgES256 then
        bindE (someOr (ecdsa_GenerateKey g) VirtualGenerate) (\<lambda>priv. Inr (v\<lparr>v_ecPriv := Some priv\<rparr>))
      else if alg = AlgRS256 then
        bindE (someOr (rsa_GenerateKey g 2048) VirtualGenerate) (\<lambda>priv. Inr (v\<lparr>v_rsaPriv := Some priv\<rparr>))
      else if alg = AlgEdDSA then
        bindE (someOr (ed25519_GenerateKey g) VirtualGenerate)
          (\<lambda>(pub, priv). Inr (v\<lparr>v_edPub := pub, v_edPriv := priv\<rparr>))
      else Inl VirtualAlgorithm)"

definition New :: "key_source \<Rightarrow> int \<Rightarrow> (VirtualAuthenticator \<Rightarrow> VirtualAuthenticator) list \<Rightarrow>
    virtual_error + VirtualAuthenticator" where
  "New g alg opts =
     bindE (someOr (rand_aaguid g) VirtualRand) (\<lambda>aaguid.
     bindE (new_keys g alg \<lparr>v_AAGUID = aaguid, v_Alg = alg, v_ecPriv = None, v_rsaPriv = None,
        v_edPriv = [], v_edPub = [], v_signCount = 1, v_zeroCounter = False\<rparr>) (\<lambda>v.
     let v = fold (\<lambda>opt v. opt v) opts v
     in Inr (if v_zeroCounter v then v\<lparr>v_signCount := 0\<rparr> else v)))"

definition SetSignCount :: "32 word \<Rightarrow> VirtualAuthenticator \<Rightarrow> VirtualAuthenticator" where
  "SetSignCount n v = v\<lparr>v_signCount := n\<rparr>"

definition v_PublicKey :: "VirtualAuthenticator \<Rightarrow> PublicKey" where
  "v_PublicKey v =
     (case v_ecPriv v of
        Some k \<Rightarrow> EcdsaKey (ec_Curve k) (ec_X k) (ec_Y k)
      | None \<Rightarrow>
          (case v_rsaPriv v of
             Some k \<Rightarrow> RsaKey (rsa_N k) (rsa_E k)
           | None \<Rightarrow> Ed25519Key (v_edPub v)))"

section \<open>Encodings\<close>

text \<open>\<open>big.Int.Bytes\<close>: big-endian, no leading zero byte.\<close>

fun int_Bytes :: "nat \<Rightarrow> bytes" where
  "int_Bytes n = (if n = 0 then [] else int_Bytes (n div 256) @ [of_nat n])"

declare int_Bytes.simps [simp del]

definition padBigInt :: "int \<Rightarrow> nat \<Rightarrow> bytes" where
  "padBigInt n sz =
     (let b = int_Bytes (nat \<bar>n\<bar>) in
      if sz \<le> length b then drop (length b - sz) b
      else replicate (sz - length b) 0 @ b)"

definition appendUint16 :: "bytes \<Rightarrow> 16 word \<Rightarrow> bytes" where
  "appendUint16 b v = b @ be_bytes 2 (unat v)"

definition appendUint32 :: "bytes \<Rightarrow> 32 word \<Rightarrow> bytes" where
  "appendUint32 b v = b @ be_bytes 4 (unat v)"

text \<open>\<open>NegInt\<close> panics unless the algorithm is negative: \<open>None\<close>.\<close>

definition encodeCOSEKeyEC2 :: "Curve \<Rightarrow> int \<Rightarrow> int \<Rightarrow> int \<Rightarrow> bytes option" where
  "encodeCOSEKeyEC2 c x y alg =
     (let coordLen = (curve_BitSize c + 7) div 8 in
      Option.bind (NegInt alg) (\<lambda>a.
      Option.bind (NegInt (-1)) (\<lambda>m1.
      Option.bind (NegInt (-2)) (\<lambda>m2.
      Option.bind (NegInt (-3)) (\<lambda>m3.
      Some (Map [
        (Uint 1, Uint 2),
        (Uint 3, a),
        (m1, Uint 1),
        (m2, Bytes (padBigInt x coordLen)),
        (m3, Bytes (padBigInt y coordLen))]))))))"

definition encodeCOSEKeyRSA :: "int \<Rightarrow> int \<Rightarrow> int \<Rightarrow> bytes option" where
  "encodeCOSEKeyRSA n e alg =
     Option.bind (NegInt alg) (\<lambda>a.
     Option.bind (NegInt (-1)) (\<lambda>m1.
     Option.bind (NegInt (-2)) (\<lambda>m2.
     Some (Map [
       (Uint 1, Uint 3),
       (Uint 3, a),
       (m1, Bytes (int_Bytes (nat \<bar>n\<bar>))),
       (m2, Bytes (int_Bytes (nat \<bar>e\<bar>)))]))))"

definition encodeCOSEKeyOKP :: "bytes \<Rightarrow> int \<Rightarrow> bytes option" where
  "encodeCOSEKeyOKP pub alg =
     Option.bind (NegInt alg) (\<lambda>a.
     Option.bind (NegInt (-1)) (\<lambda>m1.
     Option.bind (NegInt (-2)) (\<lambda>m2.
     Some (Map [
       (Uint 1, Uint 1),
       (Uint 3, a),
       (m1, Uint 6),
       (m2, Bytes pub)]))))"

definition encodePublicKey :: "VirtualAuthenticator \<Rightarrow> bytes option" where
  "encodePublicKey v =
     (case v_ecPriv v of
        Some k \<Rightarrow> encodeCOSEKeyEC2 (ec_Curve k) (ec_X k) (ec_Y k) (v_Alg v)
      | None \<Rightarrow>
          (case v_rsaPriv v of
             Some k \<Rightarrow> encodeCOSEKeyRSA (rsa_N k) (rsa_E k) (v_Alg v)
           | None \<Rightarrow> encodeCOSEKeyOKP (v_edPub v) (v_Alg v)))"

definition buildAuthDataRegistration :: "VirtualAuthenticator \<Rightarrow> string \<Rightarrow> bytes \<Rightarrow> bytes option" where
  "buildAuthDataRegistration v rpID credentialID =
     Option.bind (encodePublicKey v) (\<lambda>key.
     let b = sha256 (bytes_of_string rpID) @ [flagUP OR flagUV OR flagAT];
         b = appendUint32 b (v_signCount v) @ v_AAGUID v;
         b = appendUint16 b (of_nat (length credentialID)) @ credentialID
     in Some (b @ key))"

text \<open>The counter is advanced before the data is built.\<close>

definition buildAuthDataAssertion :: "string \<Rightarrow> VirtualAuthenticator \<Rightarrow> bytes \<times> VirtualAuthenticator" where
  "buildAuthDataAssertion rpID v =
     (let v = (if \<not> v_zeroCounter v then v\<lparr>v_signCount := v_signCount v + 1\<rparr> else v)
      in (appendUint32 (sha256 (bytes_of_string rpID) @ [flagUP OR flagUV]) (v_signCount v), v))"

definition buildAttestationObjectNone :: "bytes \<Rightarrow> bytes" where
  "buildAttestationObjectNone authData =
     Map [
       (Text ''fmt'', Text ''none''),
       (Text ''attStmt'', Map []),
       (Text ''authData'', Bytes authData)]"

definition buildAttestationObjectPacked :: "bytes \<Rightarrow> int \<Rightarrow> bytes \<Rightarrow> bytes list \<Rightarrow> bytes option" where
  "buildAttestationObjectPacked authData alg sig x5c =
     Option.bind (NegInt alg) (\<lambda>a.
     let entries = [(Text ''alg'', a), (Text ''sig'', Bytes sig)];
         entries = (if x5c \<noteq> [] then entries @ [(Text ''x5c'', Array (map Bytes x5c))] else entries)
     in Some (Map [
       (Text ''fmt'', Text ''packed''),
       (Text ''attStmt'', Map entries),
       (Text ''authData'', Bytes authData)]))"

abbreviation (input) v_clientDataFields :: "string \<Rightarrow> string \<Rightarrow> string \<Rightarrow> bytes" where
  "v_clientDataFields typ chal origin \<equiv> Marshal_object [
     (''type'', Marshal_string typ), (''challenge'', Marshal_string chal), (''origin'', Marshal_string origin)]"

definition buildClientDataJSON :: "string \<Rightarrow> string \<Rightarrow> bytes \<Rightarrow> bytes" where
  "buildClientDataJSON typ origin chal =
     v_clientDataFields typ (RawURLEncoding_EncodeToString chal) origin"

section \<open>Ceremonies\<close>

definition v_sign :: "signing \<Rightarrow> VirtualAuthenticator \<Rightarrow> bytes \<Rightarrow> virtual_error + bytes" where
  "v_sign sg v signedOver =
     (if v_Alg v = AlgES256 then
        someOr (Option.bind (v_ecPriv v) (\<lambda>k. ecdsa_SignASN1 sg k (sha256 signedOver))) VirtualSign
      else if v_Alg v = AlgRS256 then
        someOr (Option.bind (v_rsaPriv v) (\<lambda>k. rsa_SignPKCS1v15 sg k (sha256 signedOver))) VirtualSign
      else if v_Alg v = AlgEdDSA then Inr (ed25519_Sign sg (v_edPriv v) signedOver)
      else Inl VirtualAlgorithm)"

record RegistrationResult =
  rres_CredentialID :: bytes
  rres_ClientDataJSON :: bytes
  rres_AttestationObject :: bytes

record AssertionResult =
  ares_CredentialID :: bytes
  ares_ClientDataJSON :: bytes
  ares_AuthenticatorData :: bytes
  ares_Signature :: bytes

text \<open>
  The three registrations.  A panic of \<open>NegInt\<close> ends the test program; it is reported as
  \<open>VirtualAlgorithm\<close> here and cannot happen for the algorithms that \<open>New\<close> accepts.
\<close>

definition v_Register ::
    "VirtualAuthenticator \<Rightarrow> string \<Rightarrow> string \<Rightarrow> bytes \<Rightarrow> bytes \<Rightarrow> virtual_error + RegistrationResult" where
  "v_Register v rpID origin chal credentialID =
     (let cd = buildClientDataJSON ''webauthn.create'' origin chal in
      bindE (someOr (buildAuthDataRegistration v rpID credentialID) VirtualAlgorithm) (\<lambda>authData.
      Inr \<lparr>rres_CredentialID = credentialID, rres_ClientDataJSON = cd,
           rres_AttestationObject = buildAttestationObjectNone authData\<rparr>))"

definition v_RegisterPackedSelf :: "signing \<Rightarrow> VirtualAuthenticator \<Rightarrow> string \<Rightarrow> string \<Rightarrow> bytes \<Rightarrow> bytes \<Rightarrow>
    virtual_error + RegistrationResult" where
  "v_RegisterPackedSelf sg v rpID origin chal credentialID =
     (let cd = buildClientDataJSON ''webauthn.create'' origin chal in
      bindE (someOr (buildAuthDataRegistration v rpID credentialID) VirtualAlgorithm) (\<lambda>authData.
      bindE (v_sign sg v (authData @ sha256 cd)) (\<lambda>sig.
      bindE (someOr (buildAttestationObjectPacked authData (v_Alg v) sig []) VirtualAlgorithm) (\<lambda>attObj.
      Inr \<lparr>rres_CredentialID = credentialID, rres_ClientDataJSON = cd, rres_AttestationObject = attObj\<rparr>))))"

definition selfSignedCert :: "signing \<Rightarrow> ecdsa_PrivateKey \<Rightarrow> virtual_error + bytes" where
  "selfSignedCert sg key = someOr (x509_SelfSigned sg key) VirtualCert"

definition v_RegisterPackedFull :: "key_source \<Rightarrow> signing \<Rightarrow> VirtualAuthenticator \<Rightarrow> string \<Rightarrow> string \<Rightarrow>
    bytes \<Rightarrow> bytes \<Rightarrow> virtual_error + RegistrationResult" where
  "v_RegisterPackedFull g sg v rpID origin chal credentialID =
     (let cd = buildClientDataJSON ''webauthn.create'' origin chal in
      bindE (someOr (buildAuthDataRegistration v rpID credentialID) VirtualAlgorithm) (\<lambda>authData.
      bindE (someOr (ecdsa_GenerateKey g) VirtualGenerate) (\<lambda>attKey.
      bindE (selfSignedCert sg attKey) (\<lambda>certDER.
      bindE (someOr (ecdsa_SignASN1 sg attKey (sha256 (authData @ sha256 cd))) VirtualSign) (\<lambda>sig.
      bindE (someOr (buildAttestationObjectPacked authData AlgES256 sig [certDER]) VirtualAlgorithm) (\<lambda>attObj.
      Inr \<lparr>rres_CredentialID = credentialID, rres_ClientDataJSON = cd, rres_AttestationObject = attObj\<rparr>))))))"

definition v_Authenticate :: "signing \<Rightarrow> string \<Rightarrow> string \<Rightarrow> bytes \<Rightarrow> bytes \<Rightarrow>
    (VirtualAuthenticator, virtual_error, AssertionResult) op" where
  "v_Authenticate sg rpID origin chal credentialID v =
     (let cd = buildClientDataJSON ''webauthn.get'' origin chal;
          (authData, v) = buildAuthDataAssertion rpID v
      in case v_sign sg v (authData @ sha256 cd) of
           Inl e \<Rightarrow> (Inl e, v)
         | Inr sig \<Rightarrow> (Inr \<lparr>ares_CredentialID = credentialID, ares_ClientDataJSON = cd,
              ares_AuthenticatorData = authData, ares_Signature = sig\<rparr>, v))"

end
