(* ===== verification/Ceremony_Correct.thy ===== *)
theory Ceremony_Correct
  imports Ceremony
begin

unbundle bit_operations_syntax

text \<open>
  What the ceremonies guarantee: a success means that every check passed, and exactly the
  one change to the stores that the ceremony stands for; a failure changes no credential;
  a challenge serves one attempt.  The facts about challenges and the store come from the
  interpretations \<open>ch\<close> and \<open>st\<close> of their contracts.
\<close>

section \<open>The shared checks\<close>

text \<open>The clientDataJSON says what the ceremony expects, and carries this challenge.\<close>

definition client_data_ok :: "string \<Rightarrow> OriginAllowlist \<Rightarrow> bytes \<Rightarrow> bytes \<Rightarrow> bool" where
  "client_data_ok typ origins json chal \<longleftrightarrow>
     (\<exists>cd. Unmarshal_clientData json = Some cd \<and> cd_Type cd = typ \<and>
        RawURLEncoding_DecodeString (cd_Challenge cd) = Some chal \<and> cd_Origin cd \<in> allowed origins)"

lemma on_challenges_iff [result_simps]:
  "on_challenges m w = (r, w') \<longleftrightarrow>
     (\<exists>r' c. m (challenges w) = (r', c) \<and> wrapE FromChallenge r' = r \<and> w' = w\<lparr>challenges := c\<rparr>)"
  by (simp add: on_challenges_def result_simps)

lemma on_disk_iff [result_simps]:
  "on_disk m w = (r, w') \<longleftrightarrow>
     (\<exists>r' d. m (disk w) = (r', d) \<and> wrapE FromStore r' = r \<and> w' = w\<lparr>disk := d\<rparr>)"
  by (simp add: on_disk_def result_simps)

lemma Consume_redeemable:
  "Consume u p c t s = (Inr (), s') \<longleftrightarrow> redeemable (u, p) c t s \<and> s' = consumed_state (u, p) c t s"
  by (cases "Consume u p c t s") (auto simp: redeemable_def consumed_state_def)

lemma unit_ex [simp]: "(\<exists>u :: unit. P u) \<longleftrightarrow> P ()"
  by (metis old.unit.exhaust)

lemma checkClientData_Inr:
  "checkClientData typ p origins u json t w = (Inr x, w') \<longleftrightarrow>
     (\<exists>ch. client_data_ok typ origins json ch \<and> redeemable (u, p) ch t (challenges w) \<and>
        w' = w\<lparr>challenges := consumed_state (u, p) ch t (challenges w)\<rparr>)"
  by (auto simp: checkClientData_def result_simps client_data_ok_def Consume_redeemable)

lemma checkClientData_disk: "checkClientData typ p origins u json t w = (r, w') \<Longrightarrow> disk w' = disk w"
  by (cases r) (auto simp: checkClientData_def result_simps)

text \<open>Once the challenge has been read from the request, it is consumed.\<close>

lemma checkClientData_consumes:
  assumes "checkClientData typ p origins u json t w = (r, w')" and "client_data_ok typ origins' json c"
  shows "challenges w' = consumed_state (u, p) c t (challenges w)"
proof -
  obtain cd where cd: "Unmarshal_clientData json = Some cd" "cd_Type cd = typ"
      "RawURLEncoding_DecodeString (cd_Challenge cd) = Some c"
    using assms(2) by (auto simp: client_data_ok_def)
  then have "checkClientData typ p origins u json t w =
      bindS (on_challenges (Consume u p c t)) (\<lambda>_. liftS (wrapE FromPolicy (CheckOrigin origins (cd_Origin cd)))) w"
    by (simp add: checkClientData_def bindS_def liftS_def)
  then have "bindS (on_challenges (Consume u p c t)) (\<lambda>_. liftS (wrapE FromPolicy (CheckOrigin origins (cd_Origin cd)))) w = (r, w')"
    using assms(1) by simp
  then show ?thesis
    by (cases "Consume u p c t (challenges w)"; cases r)
      (auto simp: result_simps consumed_state_def)
qed

definition authdata_accepts :: "string \<Rightarrow> UVPolicy \<Rightarrow> UVPolicy \<Rightarrow> bytes \<Rightarrow> AuthData \<Rightarrow> bool" where
  "authdata_accepts rpID floor override raw ad \<longleftrightarrow>
     Parse raw = Inr ad \<and> RPIDHash ad = sha256 (bytes_of_string rpID) \<and> UP ad \<and>
     valid_policy (EffectivePolicy floor override) \<and>
     (floor = UVRequired \<or> override = UVRequired \<longrightarrow> UV ad)"

lemma checkAuthData_Inr:
  "checkAuthData rpID floor override raw = Inr (ad, uv) \<longleftrightarrow>
     authdata_accepts rpID floor override raw ad \<and> uv = UV ad"
  by (auto simp: checkAuthData_def result_simps CheckFlags_Inr_iff authdata_accepts_def EffectivePolicy_required)

section \<open>Signatures\<close>

text \<open>The three schemes, and nothing else.\<close>

definition signature_valid :: "crypto \<Rightarrow> int \<Rightarrow> PublicKey \<Rightarrow> bytes \<Rightarrow> bytes \<Rightarrow> bool" where
  "signature_valid cr alg pub msg sig \<longleftrightarrow>
     (case pub of
        EcdsaKey c x y \<Rightarrow> alg = AlgES256 \<and> ecdsa_VerifyASN1 cr c x y (sha256 msg) sig
      | RsaKey n e \<Rightarrow> alg = AlgRS256 \<and> rsa_VerifyPKCS1v15 cr n e (sha256 msg) sig
      | Ed25519Key k \<Rightarrow> alg = AlgEdDSA \<and> ed25519_Verify cr k msg sig
      | OtherKey \<Rightarrow> False)"

lemma alg_distinct [simp]:
  "AlgES256 \<noteq> AlgRS256" "AlgES256 \<noteq> AlgEdDSA" "AlgRS256 \<noteq> AlgEdDSA"
  "AlgRS256 \<noteq> AlgES256" "AlgEdDSA \<noteq> AlgES256" "AlgEdDSA \<noteq> AlgRS256"
  by (simp_all add: AlgES256_def AlgRS256_def AlgEdDSA_def)

lemma verifySignature_Inr: "verifySignature cr alg pub msg sig = Inr u \<longleftrightarrow> signature_valid cr alg pub msg sig"
  by (auto simp: verifySignature_def signature_valid_def result_simps split: PublicKey.split)

section \<open>Login\<close>

definition stored_key :: "Credential \<Rightarrow> Key \<Rightarrow> bool" where
  "stored_key cred key \<longleftrightarrow>
     (\<exists>v. Decode (cred_PublicKey cred) = Inr (v, length (cred_PublicKey cred)) \<and> cose_Parse v = Inr key) \<and>
     Alg key = cred_Algorithm cred"

definition counter_ok :: "32 word \<Rightarrow> 32 word \<Rightarrow> bool" where
  "counter_ok stored received \<longleftrightarrow> stored = 0 \<or> received = 0 \<or> stored < received"

lemma checkAssertion_Inr:
  "checkAssertion cr req cred ad = Inr u \<longleftrightarrow>
     (\<exists>key. stored_key cred key \<and>
        signature_valid cr (cred_Algorithm cred) (Public key)
          (ar_AuthenticatorData req @ sha256 (ar_ClientDataJSON req)) (ar_Signature req)) \<and>
     counter_ok (cred_SignCount cred) (SignCount ad)"
  by (auto simp: checkAssertion_def result_simps verifySignature_Inr stored_key_def signed_over_def
      counter_ok_def not_le)

text \<open>The conditions of a login, over the state it starts in.\<close>

definition login_accepts ::
    "crypto \<Rightarrow> Authenticator \<Rightarrow> AssertionRequest \<Rightarrow> time \<Rightarrow> world \<Rightarrow> bytes \<Rightarrow> Credential \<Rightarrow> AuthData \<Rightarrow> bool" where
  "login_accepts cr a req t w chal cred ad \<longleftrightarrow>
     client_data_ok ''webauthn.get'' (auth_Origins a) (ar_ClientDataJSON req) chal \<and>
     redeemable (ar_Username req, PurposeLogin) chal t (challenges w) \<and>
     store_view (auth_Store a) (disk w) (ar_CredentialID req) = Some cred \<and>
     authdata_accepts (auth_RPID a) (auth_UVPolicy a) (ar_UVOverride req) (ar_AuthenticatorData req) ad \<and>
     (\<exists>key. stored_key cred key \<and>
        signature_valid cr (cred_Algorithm cred) (Public key)
          (ar_AuthenticatorData req @ sha256 (ar_ClientDataJSON req)) (ar_Signature req)) \<and>
     counter_ok (cred_SignCount cred) (SignCount ad)"

lemma Login_checks_Inr:
  assumes "store_ok (auth_Store a) (disk w)" and "io_ok (auth_Store a) (disk w) io"
    and "Login_checks cr io a req w = (Inr (cred, ad, uv), w1)"
  shows "\<exists>chal. login_accepts cr a req (wallClock io) w chal cred ad \<and> uv = UV ad \<and>
    w1 = w\<lparr>challenges := consumed_state (ar_Username req, PurposeLogin) chal (wallClock io) (challenges w)\<rparr>"
proof -
  obtain ch where ch: "client_data_ok ''webauthn.get'' (auth_Origins a) (ar_ClientDataJSON req) ch"
      "redeemable (ar_Username req, PurposeLogin) ch (wallClock io) (challenges w)"
    and find: "FindByID io (auth_Store a) (ar_CredentialID req) (disk w) = Inr (Some cred)"
    and ad: "checkAuthData (auth_RPID a) (auth_UVPolicy a) (ar_UVOverride req) (ar_AuthenticatorData req) = Inr (ad, uv)"
    and ass: "checkAssertion cr req cred ad = Inr ()"
    and w1: "w1 = w\<lparr>challenges := consumed_state (ar_Username req, PurposeLogin) ch (wallClock io) (challenges w)\<rparr>"
    using assms(3) by (auto simp: Login_checks_def result_simps checkClientData_Inr split: prod.splits)
  have "store_view (auth_Store a) (disk w) (ar_CredentialID req) = Some cred"
    using st.find_view [OF assms(1,2) find] by simp
  then show ?thesis
    using ch ad ass w1 by (auto simp: login_accepts_def checkAuthData_Inr checkAssertion_Inr)
qed

lemma Login_Inr:
  assumes ok: "store_ok (auth_Store a) (disk w)"
    and io: "io_ok (auth_Store a) (disk w) io" "io_ok (auth_Store a) (disk w) io'"
    and run: "Login cr io io' a req w = (Inr res, w')"
  shows "\<exists>chal cred ad. login_accepts cr a req (wallClock io) w chal cred ad \<and>
    res = \<lparr>result_Username = cred_Username cred, result_UVPerformed = UV ad\<rparr> \<and>
    challenges w' = consumed_state (ar_Username req, PurposeLogin) chal (wallClock io) (challenges w) \<and>
    store_ok (auth_Store a) (disk w') \<and>
    store_view (auth_Store a) (disk w') =
      (store_view (auth_Store a) (disk w))(ar_CredentialID req \<mapsto> cred\<lparr>cred_SignCount := SignCount ad\<rparr>)"
proof -
  obtain cred ad uv w1 where checks: "Login_checks cr io a req w = (Inr (cred, ad, uv), w1)"
    and commit: "Login_commit io' a req (cred, ad, uv) w1 = (Inr res, w')"
    using run by (auto simp: Login_def result_simps)
  obtain ch where ch: "login_accepts cr a req (wallClock io) w ch cred ad" "uv = UV ad"
    and w1: "w1 = w\<lparr>challenges := consumed_state (ar_Username req, PurposeLogin) ch (wallClock io) (challenges w)\<rparr>"
    using Login_checks_Inr [OF ok io(1) checks] by blast
  obtain d where upd: "UpdateSignCount io' (auth_Store a) (ar_CredentialID req) (SignCount ad) (disk w) = (Inr (), d)"
    and res: "res = \<lparr>result_Username = cred_Username cred, result_UVPerformed = uv\<rparr>" and w': "w' = w1\<lparr>disk := d\<rparr>"
    using commit w1 by (auto simp: Login_commit_def result_simps)
  have "run_op io' (auth_Store a) (OpSetCount (ar_CredentialID req) (SignCount ad)) (disk w) = (Inr (), d)"
    using upd by simp
  from st.exec_success [OF ok io(2) this] st.exec_ok [OF ok io(2) this] show ?thesis
    using ch res w' w1 by (intro exI [of _ ch] exI [of _ cred] exI [of _ ad]) (auto simp: login_accepts_def)
qed

lemma Login_checks_disk: "Login_checks cr io a req w = (r, w1) \<Longrightarrow> disk w1 = disk w"
  by (cases r) (auto simp: Login_checks_def result_simps dest: checkClientData_disk split: prod.splits)

lemma Login_Inl:
  assumes ok: "store_ok (auth_Store a) (disk w)"
    and io: "io_ok (auth_Store a) (disk w) io'"
    and run: "Login cr io io' a req w = (Inl e, w')"
  shows "disk w' (store_path (auth_Store a)) = disk w (store_path (auth_Store a))"
proof -
  consider "Login_checks cr io a req w = (Inl e, w')"
    | cred ad uv w1 where "Login_checks cr io a req w = (Inr (cred, ad, uv), w1)"
        "Login_commit io' a req (cred, ad, uv) w1 = (Inl e, w')"
    using run by (auto simp: Login_def result_simps)
  then show ?thesis
  proof cases
    case 1
    then show ?thesis using Login_checks_disk by simp
  next
    case (2 cred ad uv w1)
    have d: "disk w1 = disk w" using Login_checks_disk 2(1) by simp
    obtain e' dd where "UpdateSignCount io' (auth_Store a) (ar_CredentialID req) (SignCount ad) (disk w1) = (Inl e', dd)"
        "w' = w1\<lparr>disk := dd\<rparr>"
      using 2(2) by (auto simp: Login_commit_def result_simps)
    then show ?thesis using UpdateSignCount_Inl [OF ok io] d by (auto simp: untouched_def)
  qed
qed

text \<open>A successful operation changes the store's own file and no other.\<close>

lemma run_op_other_files:
  assumes io: "io_ok s fs io" and run: "run_op io s x fs = (Inr u, fs')" and p: "p \<noteq> store_path s"
  shows "fs' p = fs p"
proof -
  obtain cs where save: "saveLocked io s cs fs = (Inr (), fs')"
    using run by (cases x)
      (auto simp: AddCredential_def UpdateSignCount_def DeleteCredential_def result_simps Let_def)
  have t: "tmpName io \<noteq> store_path s" "fs (tmpName io) = None" using io by (auto simp: io_ok_def)
  show ?thesis
    using save t p
    by (auto simp: saveLocked_def result_simps with_cleanup_def prepare_steps_def write_steps_def
        on_file_def rename_file_def split: if_splits)
qed

lemma io_ok_kept:
  assumes "io_ok s fs io" and "run_op io s x fs = (Inr u, fs')" and "io_ok s fs io2"
  shows "io_ok s fs' io2"
  using run_op_other_files [OF assms(1,2)] assms(3) by (auto simp: io_ok_def)

text \<open>With no failing system call the conditions are also enough.\<close>

lemma find_works:
  "store_ok s fs \<Longrightarrow> io_ok s fs io \<Longrightarrow> no_failures io \<Longrightarrow> FindByID io s i fs = Inr (store_view s fs i)"
  using load_works [of s fs io] FindByID_view [of s fs io i] by (auto simp: FindByID_def)

lemma Login_complete:
  assumes ok: "store_ok (auth_Store a) (disk w)"
    and io: "io_ok (auth_Store a) (disk w) io" "io_ok (auth_Store a) (disk w) io'"
    and nf: "no_failures io" "no_failures io'"
    and acc: "login_accepts cr a req (wallClock io) w chal cred ad"
  shows "\<exists>w'. Login cr io io' a req w =
      (Inr \<lparr>result_Username = cred_Username cred, result_UVPerformed = UV ad\<rparr>, w') \<and>
    (\<forall>io2. io_ok (auth_Store a) (disk w) io2 \<longrightarrow> io_ok (auth_Store a) (disk w') io2) \<and>
    challenges w' = consumed_state (ar_Username req, PurposeLogin) chal (wallClock io) (challenges w) \<and>
    store_ok (auth_Store a) (disk w') \<and>
    store_view (auth_Store a) (disk w') =
      (store_view (auth_Store a) (disk w))(ar_CredentialID req \<mapsto> cred\<lparr>cred_SignCount := SignCount ad\<rparr>)"
proof -
  note acc' = acc [unfolded login_accepts_def]
  let ?w1 = "w\<lparr>challenges := consumed_state (ar_Username req, PurposeLogin) chal (wallClock io) (challenges w)\<rparr>"
  have "checkClientData ''webauthn.get'' PurposeLogin (auth_Origins a) (ar_Username req)
      (ar_ClientDataJSON req) (wallClock io) w = (Inr (), ?w1)"
    using acc' by (auto simp: checkClientData_Inr)
  moreover have "FindByID io (auth_Store a) (ar_CredentialID req) (disk w) = Inr (Some cred)"
    using find_works [OF ok io(1) nf(1)] acc' by simp
  moreover have "checkAuthData (auth_RPID a) (auth_UVPolicy a) (ar_UVOverride req)
      (ar_AuthenticatorData req) = Inr (ad, UV ad)"
    using acc' by (simp add: checkAuthData_Inr)
  moreover have "checkAssertion cr req cred ad = Inr ()" using acc' by (simp add: checkAssertion_Inr)
  ultimately have checks: "Login_checks cr io a req w = (Inr (cred, ad, UV ad), ?w1)"
    by (auto simp: Login_checks_def result_simps)
  have "store_view (auth_Store a) (disk w) (ar_CredentialID req) \<noteq> None" using acc' by simp
  then obtain d where "UpdateSignCount io' (auth_Store a) (ar_CredentialID req) (SignCount ad) (disk w) = (Inr (), d)"
    using update_works [OF ok io(2) nf(2)] by blast
  then have "Login cr io io' a req w =
      (Inr \<lparr>result_Username = cred_Username cred, result_UVPerformed = UV ad\<rparr>, ?w1\<lparr>disk := d\<rparr>)"
    and run: "run_op io' (auth_Store a) (OpSetCount (ar_CredentialID req) (SignCount ad)) (disk w) = (Inr (), d)"
    using checks by (auto simp: Login_def Login_commit_def result_simps)
  moreover note st.exec_success [OF ok io(2) run] st.exec_ok [OF ok io(2) run] io_ok_kept [OF io(2) run]
  ultimately show ?thesis using acc' by simp
qed

text \<open>One attempt for each challenge: a request that was processed once is refused.\<close>

lemma Login_checks_challenges:
  assumes "Login_checks cr io a req w = (r, w1)"
  shows "\<exists>x w0. checkClientData ''webauthn.get'' PurposeLogin (auth_Origins a) (ar_Username req)
    (ar_ClientDataJSON req) (wallClock io) w = (x, w0) \<and> challenges w1 = challenges w0"
proof (cases "checkClientData ''webauthn.get'' PurposeLogin (auth_Origins a) (ar_Username req)
    (ar_ClientDataJSON req) (wallClock io) w")
  case (Pair x w0)
  then show ?thesis
    using assms by (cases x) (auto simp: Login_checks_def bindS_def on_disk_def onS_def readS_def liftS_def
        returnS_def split: sum.splits prod.splits)
qed

lemma Login_challenges:
  assumes "Login cr io io' a req w = (r, w')"
  shows "\<exists>x w0. checkClientData ''webauthn.get'' PurposeLogin (auth_Origins a) (ar_Username req)
    (ar_ClientDataJSON req) (wallClock io) w = (x, w0) \<and> challenges w' = challenges w0"
proof (cases "Login_checks cr io a req w")
  case (Pair r1 w1)
  have "challenges w' = challenges w1"
    using assms Pair by (cases r1)
      (auto simp: Login_def Login_commit_def bindS_def on_disk_def onS_def returnS_def split: sum.splits prod.splits)
  then show ?thesis using Login_checks_challenges [OF Pair] by auto
qed

lemma Login_replay:
  assumes first: "Login cr io io' a req w = (r, w')" and same: "challenges w2 = challenges w'"
  shows "\<exists>e. fst (Login cr2 io2 io2' a req w2) = Inl e"
proof (rule ccontr)
  assume "\<not> ?thesis"
  then obtain res w3 where "Login cr2 io2 io2' a req w2 = (Inr res, w3)"
    by (cases "Login cr2 io2 io2' a req w2"; cases "fst (Login cr2 io2 io2' a req w2)") auto
  then obtain x1 w4 where "checkClientData ''webauthn.get'' PurposeLogin (auth_Origins a) (ar_Username req)
      (ar_ClientDataJSON req) (wallClock io2) w2 = (Inr x1, w4)"
    by (auto simp: Login_def Login_checks_def result_simps split: prod.splits)
  then obtain ch where ch: "client_data_ok ''webauthn.get'' (auth_Origins a) (ar_ClientDataJSON req) ch"
      "redeemable (ar_Username req, PurposeLogin) ch (wallClock io2) (challenges w2)"
    by (auto simp: checkClientData_Inr)
  obtain x w0 where "checkClientData ''webauthn.get'' PurposeLogin (auth_Origins a) (ar_Username req)
      (ar_ClientDataJSON req) (wallClock io) w = (x, w0)" "challenges w' = challenges w0"
    using Login_challenges [OF first] by blast
  then have "challenges w' = consumed_state (ar_Username req, PurposeLogin) ch (wallClock io) (challenges w)"
    using checkClientData_consumes [OF _ ch(1)] by metis
  then show False using ch(2) ch.no_second_use same by auto
qed

section \<open>Registration\<close>

definition attestation_object :: "bytes \<Rightarrow> string \<Rightarrow> cbor_value \<Rightarrow> bytes \<Rightarrow> bool" where
  "attestation_object raw fmt attStmt authData \<longleftrightarrow>
     (\<exists>v. Decode raw = Inr (v, length raw) \<and> is_map v \<and> is_map attStmt \<and>
        MapGetText v ''fmt'' = Some (VText fmt) \<and> MapGetText v ''attStmt'' = Some attStmt \<and>
        MapGetText v ''authData'' = Some (VBytes authData))"

lemma Value_Type_text: "Value_Type v = TypeText \<longleftrightarrow> v = VText (Value_Text v)"
  by (cases v) auto

lemma Value_Type_bytes: "Value_Type v = TypeBytes \<longleftrightarrow> v = VBytes (Value_Bytes v)"
  by (cases v) auto

lemma decodeAttestationObject_Inr:
  "decodeAttestationObject raw = Inr (fmt, attStmt, authData) \<longleftrightarrow> attestation_object raw fmt attStmt authData"
proof
  assume "decodeAttestationObject raw = Inr (fmt, attStmt, authData)"
  then obtain v f b where "Decode raw = Inr (v, length raw)" "is_map v" "MapGetText v ''fmt'' = Some f"
      "Value_Type f = TypeText" "MapGetText v ''attStmt'' = Some attStmt" "is_map attStmt"
      "MapGetText v ''authData'' = Some b" "Value_Type b = TypeBytes" "fmt = Value_Text f" "authData = Value_Bytes b"
    by (auto simp: decodeAttestationObject_def result_simps is_map_def)
  then show "attestation_object raw fmt attStmt authData"
    by (auto simp: attestation_object_def Value_Type_text Value_Type_bytes)
next
  assume "attestation_object raw fmt attStmt authData"
  then show "decodeAttestationObject raw = Inr (fmt, attStmt, authData)"
    by (auto simp: attestation_object_def decodeAttestationObject_def result_simps is_map_def)
qed

text \<open>
  What each attestation format proves: \<open>none\<close> nothing, \<open>packed\<close> without certificates a
  signature by the credential's own key under its own algorithm, \<open>packed\<close> with certificates
  a signature by the key of the first one.
\<close>

definition attestation_ok :: "crypto \<Rightarrow> string \<Rightarrow> cbor_value \<Rightarrow> bytes \<Rightarrow> Key \<Rightarrow> bool" where
  "attestation_ok cr fmt attStmt msg key \<longleftrightarrow>
     fmt = ''none'' \<and> attStmt = VMap [] \<or>
     fmt = ''packed'' \<and>
       (\<exists>stmt. decodePackedAttStmt attStmt = Inr stmt \<and>
          (case stmt_X5C stmt of
             [] \<Rightarrow> stmt_Alg stmt = Alg key \<and> signature_valid cr (Alg key) (Public key) msg (stmt_Sig stmt)
           | der # _ \<Rightarrow> (\<exists>pub. ParseCertificate cr der = Some pub \<and>
               signature_valid cr (stmt_Alg stmt) pub msg (stmt_Sig stmt))))"

lemma empty_map_iff: "Value_Type v = TypeMap \<and> Value_Map v = [] \<longleftrightarrow> v = VMap []"
  by (cases v) auto

lemma verifyPacked_Inr:
  "verifyPackedAttestation cr attStmt raw json key = Inr u \<longleftrightarrow>
     (\<exists>stmt. decodePackedAttStmt attStmt = Inr stmt \<and>
        (case stmt_X5C stmt of
           [] \<Rightarrow> stmt_Alg stmt = Alg key \<and>
             signature_valid cr (Alg key) (Public key) (raw @ sha256 json) (stmt_Sig stmt)
         | der # _ \<Rightarrow> (\<exists>pub. ParseCertificate cr der = Some pub \<and>
             signature_valid cr (stmt_Alg stmt) pub (raw @ sha256 json) (stmt_Sig stmt))))"
  by (auto simp: verifyPackedAttestation_def result_simps Let_def verifySignature_Inr signed_over_def
      split: list.splits)

lemma verifyAttestation_Inr:
  "verifyAttestation cr fmt attStmt raw json key = Inr u \<longleftrightarrow>
     attestation_ok cr fmt attStmt (raw @ sha256 json) key"
  using empty_map_iff [of attStmt]
  by (auto simp: verifyAttestation_def attestation_ok_def result_simps verifyPacked_Inr)

definition register_accepts ::
    "crypto \<Rightarrow> Registrar \<Rightarrow> RegistrationRequest \<Rightarrow> time \<Rightarrow> world \<Rightarrow> bytes \<Rightarrow>
      AuthData \<Rightarrow> AttestedCredentialData \<Rightarrow> Key \<Rightarrow> bool" where
  "register_accepts cr r req t w chal ad at key \<longleftrightarrow>
     client_data_ok ''webauthn.create'' (reg_Origins r) (rr_ClientDataJSON req) chal \<and>
     redeemable (rr_Username req, PurposeRegister) chal t (challenges w) \<and>
     (\<exists>fmt attStmt raw. attestation_object (rr_AttestationObject req) fmt attStmt raw \<and>
        authdata_accepts (reg_RPID r) (reg_UVPolicy r) (rr_UVOverride req) raw ad \<and>
        attestation_ok cr fmt attStmt (raw @ sha256 (rr_ClientDataJSON req)) key) \<and>
     Attested ad = Some at \<and> cose_Parse (CredentialPublicKey at) = Inr key"

lemma Parse_AT: "Parse b = Inr ad \<Longrightarrow> AT ad \<longleftrightarrow> Attested ad \<noteq> None"
  by (auto simp: Parse_iff authdata_ok_def)

lemma checkAttestation_Inr:
  "checkAttestation cr r req = Inr (ad, at, key) \<longleftrightarrow>
     (\<exists>fmt attStmt raw. attestation_object (rr_AttestationObject req) fmt attStmt raw \<and>
        authdata_accepts (reg_RPID r) (reg_UVPolicy r) (rr_UVOverride req) raw ad \<and>
        attestation_ok cr fmt attStmt (raw @ sha256 (rr_ClientDataJSON req)) key) \<and>
     Attested ad = Some at \<and> cose_Parse (CredentialPublicKey at) = Inr key" (is "?L \<longleftrightarrow> ?R")
proof
  assume ?L
  then show ?R
    by (auto simp: checkAttestation_def result_simps decodeAttestationObject_Inr checkAuthData_Inr
        verifyAttestation_Inr split: prod.splits if_splits)
next
  assume ?R
  then obtain fmt attStmt raw where h: "attestation_object (rr_AttestationObject req) fmt attStmt raw"
      "authdata_accepts (reg_RPID r) (reg_UVPolicy r) (rr_UVOverride req) raw ad"
      "attestation_ok cr fmt attStmt (raw @ sha256 (rr_ClientDataJSON req)) key"
      "Attested ad = Some at" "cose_Parse (CredentialPublicKey at) = Inr key" by blast
  have "AT ad" using h(2,4) Parse_AT by (auto simp: authdata_accepts_def)
  moreover have "decodeAttestationObject (rr_AttestationObject req) = Inr (fmt, attStmt, raw)"
      "checkAuthData (reg_RPID r) (reg_UVPolicy r) (rr_UVOverride req) raw = Inr (ad, UV ad)"
      "verifyAttestation cr fmt attStmt raw (rr_ClientDataJSON req) key = Inr ()"
    using h by (simp_all add: decodeAttestationObject_Inr checkAuthData_Inr verifyAttestation_Inr)
  ultimately show ?L using h(4,5) by (simp add: checkAttestation_def)
qed

lemma Register_Inr:
  assumes ok: "store_ok (reg_Store r) (disk w)" and io: "io_ok (reg_Store r) (disk w) io"
    and run: "Register cr io r req w = (Inr u, w')"
  shows "\<exists>chal ad at key. register_accepts cr r req (wallClock io) w chal ad at key \<and>
    challenges w' = consumed_state (rr_Username req, PurposeRegister) chal (wallClock io) (challenges w) \<and>
    store_ok (reg_Store r) (disk w') \<and>
    store_view (reg_Store r) (disk w) (CredentialID at) = None \<and>
    store_view (reg_Store r) (disk w') = (store_view (reg_Store r) (disk w))
      (CredentialID at \<mapsto> stamped io
        (new_credential (rr_Username req) (rr_Nickname req) ad at key (wallClock io)))"
proof -
  obtain ch ad at key d where h: "client_data_ok ''webauthn.create'' (reg_Origins r) (rr_ClientDataJSON req) ch"
      "redeemable (rr_Username req, PurposeRegister) ch (wallClock io) (challenges w)"
      "checkAttestation cr r req = Inr (ad, at, key)"
    and add: "AddCredential io (reg_Store r)
      (new_credential (rr_Username req) (rr_Nickname req) ad at key (wallClock io)) (disk w) = (Inr (), d)"
    and w': "w' = w\<lparr>challenges := consumed_state (rr_Username req, PurposeRegister) ch (wallClock io) (challenges w),
      disk := d\<rparr>"
    using run by (auto simp: Register_def result_simps checkClientData_Inr split: prod.splits)
  let ?c = "new_credential (rr_Username req) (rr_Nickname req) ad at key (wallClock io)"
  have "run_op io (reg_Store r) (OpAdd ?c) (disk w) = (Inr (), d)" using add by simp
  from st.exec_success [OF ok io this] st.exec_ok [OF ok io this]
  have "store_ok (reg_Store r) d \<and> store_view (reg_Store r) (disk w) (CredentialID at) = None \<and>
      store_view (reg_Store r) d = (store_view (reg_Store r) (disk w))(CredentialID at \<mapsto> stamped io ?c)"
    by (simp add: new_credential_def)
  moreover have "register_accepts cr r req (wallClock io) w ch ad at key"
    using h unfolding register_accepts_def checkAttestation_Inr by blast
  ultimately show ?thesis using w' by auto
qed

lemma Register_Inl:
  assumes ok: "store_ok (reg_Store r) (disk w)" and io: "io_ok (reg_Store r) (disk w) io"
    and run: "Register cr io r req w = (Inl e, w')"
  shows "disk w' (store_path (reg_Store r)) = disk w (store_path (reg_Store r))"
proof -
  consider "disk w' = disk w"
    | c e' d where "AddCredential io (reg_Store r) c (disk w) = (Inl e', d)" "disk w' = d"
    using run by (auto simp: Register_def result_simps dest: checkClientData_disk split: prod.splits)
  then show ?thesis
    using AddCredential_Inl [OF ok io] by cases (auto simp: untouched_def)
qed

lemma Register_complete:
  assumes ok: "store_ok (reg_Store r) (disk w)" and io: "io_ok (reg_Store r) (disk w) io"
    and nf: "no_failures io" and clk: "json_time_ok (wallClock io)"
    and acc: "register_accepts cr r req (wallClock io) w chal ad at key"
    and new: "store_view (reg_Store r) (disk w) (CredentialID at) = None"
  shows "\<exists>w'. Register cr io r req w = (Inr (), w') \<and>
    (\<forall>io2. io_ok (reg_Store r) (disk w) io2 \<longrightarrow> io_ok (reg_Store r) (disk w') io2) \<and>
    challenges w' = consumed_state (rr_Username req, PurposeRegister) chal (wallClock io) (challenges w) \<and>
    store_ok (reg_Store r) (disk w') \<and>
    store_view (reg_Store r) (disk w') = (store_view (reg_Store r) (disk w))
      (CredentialID at \<mapsto> stamped io
        (new_credential (rr_Username req) (rr_Nickname req) ad at key (wallClock io)))"
proof -
  let ?c = "new_credential (rr_Username req) (rr_Nickname req) ad at key (wallClock io)"
  have "json_time_ok (cred_CreatedAt (stamped io ?c))"
    using clk by (cases "wallClock io = zeroTime") (simp_all add: stamped_def new_credential_def)
  then obtain d where add: "AddCredential io (reg_Store r) ?c (disk w) = (Inr (), d)"
    using add_works [OF ok io nf, of ?c] new by (auto simp: new_credential_def)
  have "checkAttestation cr r req = Inr (ad, at, key)"
    using acc unfolding register_accepts_def checkAttestation_Inr by blast
  moreover have "checkClientData ''webauthn.create'' PurposeRegister (reg_Origins r) (rr_Username req)
      (rr_ClientDataJSON req) (wallClock io) w =
      (Inr (), w\<lparr>challenges := consumed_state (rr_Username req, PurposeRegister) chal (wallClock io) (challenges w)\<rparr>)"
    using acc by (auto simp: register_accepts_def checkClientData_Inr)
  ultimately have "Register cr io r req w = (Inr (), w\<lparr>challenges :=
      consumed_state (rr_Username req, PurposeRegister) chal (wallClock io) (challenges w), disk := d\<rparr>)"
    using add by (auto simp: Register_def result_simps)
  moreover have run: "run_op io (reg_Store r) (OpAdd ?c) (disk w) = (Inr (), d)" using add by simp
  moreover note st.exec_success [OF ok io run] st.exec_ok [OF ok io run] io_ok_kept [OF io run]
  ultimately show ?thesis by (simp add: new_credential_def)
qed

end
