(* ===== verification/Virtual_Correct.thy ===== *)
theory Virtual_Correct
  imports Virtualauth Ceremony_Correct
begin

unbundle bit_operations_syntax

text \<open>
  What the virtual authenticator builds is what the server accepts: its COSE keys, its
  authenticatorData, its attestation objects and its clientDataJSON read back as the
  values they were built from.
\<close>

section \<open>Big integers\<close>

lemma be_nat_int_Bytes: "be_nat (int_Bytes n) = n"
proof (induction n rule: int_Bytes.induct)
  case (1 n)
  then show ?case by (subst int_Bytes.simps) (simp add: byte_simps)
qed

lemma length_int_Bytes: "n < 256 ^ k \<Longrightarrow> length (int_Bytes n) \<le> k"
proof (induction n arbitrary: k rule: int_Bytes.induct)
  case (1 n)
  show ?case
  proof (cases "n = 0")
    case True
    then show ?thesis by (simp add: int_Bytes.simps)
  next
    case False
    then obtain k' where k: "k = Suc k'" using 1(2) by (cases k) auto
    have "n div 256 < 256 ^ k'" using 1(2) by (simp add: k div_less_iff_less_mult mult.commute)
    then show ?thesis using 1(1) [OF False] False by (subst int_Bytes.simps) (simp add: k)
  qed
qed

lemma be_nat_append_zero: "be_nat (replicate m 0 @ b) = be_nat b"
proof -
  have z: "be_nat (replicate m 0) = 0" by (induction m) (simp_all add: be_nat_def)
  show ?thesis
    using z by (induction b rule: rev_induct) (simp_all add: byte_simps append_assoc [symmetric] del: append_assoc)
qed

lemma padBigInt_be_bytes:
  assumes "0 \<le> x" and "x < 256 ^ k"
  shows "padBigInt x k = be_bytes k (nat x)"
proof -
  let ?b = "int_Bytes (nat x)"
  have "nat x < 256 ^ k" using assms by (simp add: nat_less_iff)
  then have l: "length ?b \<le> k" by (rule length_int_Bytes)
  have p: "padBigInt x k = replicate (k - length ?b) 0 @ ?b"
    using l assms(1) by (auto simp: padBigInt_def Let_def)
  have "be_bytes k (be_nat (padBigInt x k)) = padBigInt x k"
    using l by (intro be_bytes_be_nat_len) (simp add: p)
  moreover have "be_nat (padBigInt x k) = nat x" by (simp add: p be_nat_append_zero be_nat_int_Bytes)
  ultimately show ?thesis by simp
qed

section \<open>COSE keys\<close>

definition ec2_value :: "int \<Rightarrow> bytes \<Rightarrow> bytes \<Rightarrow> cbor_value" where
  "ec2_value alg x y = VMap [(VUint 1, VUint 2), (VUint 3, VNegInt alg), (VNegInt (-1), VUint 1),
     (VNegInt (-2), VBytes x), (VNegInt (-3), VBytes y)]"

definition rsa_value :: "int \<Rightarrow> bytes \<Rightarrow> bytes \<Rightarrow> cbor_value" where
  "rsa_value alg n e = VMap [(VUint 1, VUint 3), (VUint 3, VNegInt alg),
     (VNegInt (-1), VBytes n), (VNegInt (-2), VBytes e)]"

definition okp_value :: "int \<Rightarrow> bytes \<Rightarrow> cbor_value" where
  "okp_value alg x = VMap [(VUint 1, VUint 1), (VUint 3, VNegInt alg), (VNegInt (-1), VUint 6),
     (VNegInt (-2), VBytes x)]"

lemmas cose_values = ec2_value_def rsa_value_def okp_value_def

text \<open>The five keys of these maps, in canonical order.\<close>

lemma label_order:
  "KeySpan (encode_value (VUint 1)) < KeySpan (encode_value (VUint 3))"
  "KeySpan (encode_value (VUint 3)) < KeySpan (encode_value (VNegInt (-1)))"
  "KeySpan (encode_value (VNegInt (-1))) < KeySpan (encode_value (VNegInt (-2)))"
  "KeySpan (encode_value (VNegInt (-2))) < KeySpan (encode_value (VNegInt (-3)))"
  by (simp_all add: less_key_span_def encode_eval canonicalCompare_def)

lemma cose_value_decodable:
  assumes "- (2 ^ 63) \<le> alg" and "alg < 0"
  shows "decodable (ec2_value alg x y)" "decodable (rsa_value alg x y)" "decodable (okp_value alg x)"
  using assms label_order
  by (auto simp: cose_values decodable_def MaxDepth_def MaxElements_def simp del: encode_value.simps
      intro: less_trans)

lemma encodeCOSEKeyEC2_value:
  assumes "alg < 0" and "on_curve c x y"
  shows "encodeCOSEKeyEC2 c x y alg =
    Some (encode_value (ec2_value alg (be_bytes (coord_len c) (nat x)) (be_bytes (coord_len c) (nat y))))"
proof -
  have "padBigInt x (coord_len c) = be_bytes (coord_len c) (nat x)"
      "padBigInt y (coord_len c) = be_bytes (coord_len c) (nat y)"
    using assms(2) curve_p_less [of c] by (auto simp: on_curve_def intro!: padBigInt_be_bytes)
  then show ?thesis
    using assms(1) by (simp add: encodeCOSEKeyEC2_def cose_values Let_def coord_len_def NegInt_def)
qed

lemma encodeCOSEKeyRSA_value:
  "alg < 0 \<Longrightarrow> encodeCOSEKeyRSA n e alg =
     Some (encode_value (rsa_value alg (int_Bytes (nat \<bar>n\<bar>)) (int_Bytes (nat \<bar>e\<bar>))))"
  by (simp add: encodeCOSEKeyRSA_def cose_values NegInt_def)

lemma encodeCOSEKeyOKP_value:
  "alg < 0 \<Longrightarrow> encodeCOSEKeyOKP pub alg = Some (encode_value (okp_value alg pub))"
  by (simp add: encodeCOSEKeyOKP_def cose_values NegInt_def)

lemma cose_Parse_ec2:
  assumes "on_curve P256 x y"
  shows "cose_Parse (ec2_value alg (be_bytes 32 (nat x)) (be_bytes 32 (nat y))) =
    Inr \<lparr>Public = EcdsaKey P256 x y, Alg = alg\<rparr>"
proof -
  have "coord_len P256 = 32" by (simp add: coord_len_def)
  then show ?thesis
    using assms by (simp add: cose_Parse_iff cose_values is_map_def int_at_def bytes_at_def MapGetInt_def is_int_value_def)
qed

lemma SetBytes_int_Bytes: "0 \<le> n \<Longrightarrow> SetBytes (int_Bytes (nat n)) = n"
  by (simp add: SetBytes_def be_nat_int_Bytes)

lemma modulus_nonneg: "2 ^ 2047 \<le> n \<Longrightarrow> 0 \<le> n" for n :: int
proof -
  have "(0 :: int) \<le> 2 ^ 2047" by (rule zero_le_power) simp
  then show "2 ^ 2047 \<le> n \<Longrightarrow> 0 \<le> n" by (rule order_trans)
qed

lemma cose_Parse_rsa:
  assumes "2 ^ 2047 \<le> n" and "0 < e" and "e < 2 ^ 31"
  shows "cose_Parse (rsa_value alg (int_Bytes (nat n)) (int_Bytes (nat e))) =
    Inr \<lparr>Public = RsaKey n e, Alg = alg\<rparr>"
proof -
  have "bytes_at (rsa_value alg (int_Bytes (nat n)) (int_Bytes (nat e))) (-1) (int_Bytes (nat n))"
      "bytes_at (rsa_value alg (int_Bytes (nat n)) (int_Bytes (nat e))) (-2) (int_Bytes (nat e))"
      "int_at (rsa_value alg (int_Bytes (nat n)) (int_Bytes (nat e))) 1 3"
    by (simp_all add: cose_values int_at_def bytes_at_def MapGetInt_def is_int_value_def)
  moreover have "n = SetBytes (int_Bytes (nat n))" "e = SetBytes (int_Bytes (nat e))"
    using SetBytes_int_Bytes [OF modulus_nonneg [OF assms(1)]] SetBytes_int_Bytes [of e] assms(2) by simp_all
  ultimately have "describes (rsa_value alg (int_Bytes (nat n)) (int_Bytes (nat e))) (RsaKey n e)"
    unfolding describes.simps using assms by blast
  then show ?thesis
    by (simp add: cose_Parse_iff cose_values is_map_def int_at_def MapGetInt_def is_int_value_def)
qed

lemma cose_Parse_okp:
  assumes "length b = 32"
  shows "cose_Parse (okp_value alg b) = Inr \<lparr>Public = Ed25519Key b, Alg = alg\<rparr>"
  using assms by (simp add: cose_Parse_iff cose_values is_map_def int_at_def bytes_at_def MapGetInt_def is_int_value_def)

section \<open>A consistent authenticator\<close>

text \<open>
  One key, of the kind that goes with the algorithm and of the size that the key
  generators promise: a point on P-256, a 2048-bit modulus, 32 bytes of Ed25519.
\<close>

definition v_good :: "VirtualAuthenticator \<Rightarrow> bool" where
  "v_good v \<longleftrightarrow> length (v_AAGUID v) = 16 \<and>
     (case v_ecPriv v of
        Some k \<Rightarrow> v_Alg v = AlgES256 \<and> ec_Curve k = P256 \<and> on_curve P256 (ec_X k) (ec_Y k)
      | None \<Rightarrow>
          (case v_rsaPriv v of
             Some k \<Rightarrow> v_Alg v = AlgRS256 \<and> 2 ^ 2047 \<le> rsa_N k \<and> rsa_N k < 2 ^ 2048 \<and> 0 < rsa_E k \<and> rsa_E k < 2 ^ 31
           | None \<Rightarrow> v_Alg v = AlgEdDSA \<and> length (v_edPub v) = 32))"

definition cose_value :: "VirtualAuthenticator \<Rightarrow> cbor_value" where
  "cose_value v =
     (case v_ecPriv v of
        Some k \<Rightarrow> ec2_value (v_Alg v) (be_bytes 32 (nat (ec_X k))) (be_bytes 32 (nat (ec_Y k)))
      | None \<Rightarrow>
          (case v_rsaPriv v of
             Some k \<Rightarrow> rsa_value (v_Alg v) (int_Bytes (nat (rsa_N k))) (int_Bytes (nat (rsa_E k)))
           | None \<Rightarrow> okp_value (v_Alg v) (v_edPub v)))"

lemma v_good_alg: "v_good v \<Longrightarrow> - (2 ^ 63) \<le> v_Alg v \<and> v_Alg v < 0"
  by (auto simp: v_good_def AlgES256_def AlgRS256_def AlgEdDSA_def split: option.splits)

lemma encodePublicKey_good: "v_good v \<Longrightarrow> encodePublicKey v = Some (encode_value (cose_value v))"
  using v_good_alg [of v] modulus_nonneg
  by (auto simp: v_good_def encodePublicKey_def cose_value_def encodeCOSEKeyRSA_value encodeCOSEKeyOKP_value
      encodeCOSEKeyEC2_value coord_len_def simp del: power_numeral split: option.splits)

lemma cose_value_good: "v_good v \<Longrightarrow> decodable (cose_value v) \<and> is_map (cose_value v)"
  using cose_value_decodable [of "v_Alg v"] v_good_alg [of v]
  by (auto simp: cose_value_def is_map_def cose_values split: option.splits)

lemma cose_Parse_good:
  "v_good v \<Longrightarrow> cose_Parse (cose_value v) = Inr \<lparr>Public = v_PublicKey v, Alg = v_Alg v\<rparr>"
  by (auto simp: v_good_def cose_value_def v_PublicKey_def cose_Parse_ec2 cose_Parse_rsa cose_Parse_okp
      simp del: power_numeral split: option.splits)

lemma length_encodeHeader: "length (encodeHeader m a) \<le> 9"
  by (simp add: encodeHeader_def Let_def)

lemma length_Bytes: "length (Bytes b) \<le> 9 + length b"
  using length_encodeHeader [of 2 "of_nat (length b)"] by (simp add: Bytes_def)

lemma length_Uint: "length (Uint n) \<le> 9"
  using length_encodeHeader [of 0 n] by (simp add: Uint_def)

lemma length_NegInt: "NegInt i = Some b \<Longrightarrow> length b \<le> 9"
  using length_encodeHeader by (auto simp: NegInt_def split: if_splits)

lemma length_encode_scalar:
  "length (encode_value (VUint i)) \<le> 9" "length (encode_value (VNegInt i)) \<le> 9"
  "length (encode_value (VBytes b)) \<le> 9 + length b"
  using length_Uint length_NegInt [of i] length_Bytes by (auto split: option.split)

lemma length_encode_map:
  "length (encode_value (VMap es)) \<le>
     9 + sum_list (map (\<lambda>(k, v). length (encode_value k) + length (encode_value v)) es)"
proof -
  have "length (concat (map (\<lambda>(k, v). k @ v) (map (\<lambda>(k, v). (encode_value k, encode_value v)) es))) =
      sum_list (map (\<lambda>(k, v). length (encode_value k) + length (encode_value v)) es)"
    by (induction es) auto
  then show ?thesis
    using length_encodeHeader [of 5 "of_nat (length es)"] by (simp add: Map_def)
qed

text \<open>The encoded key is far below the size limit of the decoder.\<close>

lemma length_cose_value: "v_good v \<Longrightarrow> length (encode_value (cose_value v)) \<le> 400"
proof -
  assume g: "v_good v"
  note s = length_encode_scalar
  have ec2: "length (encode_value (ec2_value a x y)) \<le> 99 + length x + length y" for a x y
    unfolding ec2_value_def by (rule order_trans [OF length_encode_map])
      (use s(1) [of 1] s(1) [of 2] s(1) [of 3] s(2) [of a] s(2) [of "-1"] s(2) [of "-2"] s(2) [of "-3"] s(3) [of x] s(3) [of y]
        in \<open>simp del: encode_value.simps\<close>)
  have rsa: "length (encode_value (rsa_value a x y)) \<le> 99 + length x + length y" for a x y
    unfolding rsa_value_def by (rule order_trans [OF length_encode_map])
      (use s(1) [of 1] s(1) [of 3] s(2) [of a] s(2) [of "-1"] s(2) [of "-2"] s(3) [of x] s(3) [of y]
        in \<open>simp del: encode_value.simps\<close>)
  have okp: "length (encode_value (okp_value a x)) \<le> 99 + length x" for a x
    unfolding okp_value_def by (rule order_trans [OF length_encode_map])
      (use s(1) [of 1] s(1) [of 3] s(1) [of 6] s(2) [of a] s(2) [of "-1"] s(2) [of "-2"] s(3) [of x]
        in \<open>simp del: encode_value.simps\<close>)
  have n: "length (int_Bytes (nat n)) \<le> 256" if "0 \<le> n" "n < 2 ^ 2048" for n :: int
  proof -
    have "(2 :: int) ^ 2048 = 256 ^ 256" by simp
    then have "nat n < 256 ^ 256" using that by (simp only: nat_less_iff) simp
    then show ?thesis by (rule length_int_Bytes)
  qed
  have e: "length (int_Bytes (nat n)) \<le> 4" if "0 \<le> n" "n < 2 ^ 31" for n :: int
    using that by (intro length_int_Bytes) (simp add: nat_less_iff)
  show ?thesis
  proof (cases "v_ecPriv v")
    case (Some k)
    then show ?thesis using ec2 [of "v_Alg v"] by (simp add: cose_value_def order_trans [OF ec2])
  next
    case ec: None
    show ?thesis
    proof (cases "v_rsaPriv v")
      case None
      then show ?thesis using g ec by (simp add: cose_value_def v_good_def order_trans [OF okp])
    next
      case (Some k)
      then have k: "2 ^ 2047 \<le> rsa_N k" "rsa_N k < 2 ^ 2048" "0 < rsa_E k" "rsa_E k < 2 ^ 31"
        using g ec by (auto simp: v_good_def simp del: power_numeral)
      have z: "0 \<le> rsa_N k" using k(1) by (rule modulus_nonneg)
      have "length (int_Bytes (nat (rsa_N k))) \<le> 256" "length (int_Bytes (nat (rsa_E k))) \<le> 4"
        using n [OF z k(2)] e [OF _ k(4)] k(3) by simp_all
      then show ?thesis
        using ec Some rsa [of "v_Alg v" "int_Bytes (nat (rsa_N k))" "int_Bytes (nat (rsa_E k))"]
        by (simp add: cose_value_def)
    qed
  qed
qed

section \<open>clientDataJSON\<close>

lemma coerceString_base64 [simp]:
  "coerceString (RawURLEncoding_EncodeToString b) = RawURLEncoding_EncodeToString b"
proof (rule coerceString_ascii)
  have "list_all (\<lambda>c. byte_of_char c < 0x80) url_alphabet"
    by (simp add: url_alphabet_def b64_common_def byte_of_char_def)
  moreover have "set (RawURLEncoding_EncodeToString b) \<subseteq> set url_alphabet"
    using sextets_less [of b] by (auto simp: RawURLEncoding_EncodeToString_def list_all_iff)
  ultimately show "\<forall>c \<in> set (RawURLEncoding_EncodeToString b). byte_of_char c < 0x80"
    by (auto simp: list_all_iff)
qed

lemma Unmarshal_buildClientDataJSON:
  "Unmarshal_clientData (buildClientDataJSON typ origin chal) =
     Some \<lparr>cd_Type = coerceString typ, cd_Challenge = RawURLEncoding_EncodeToString chal,
       cd_Origin = coerceString origin\<rparr>"
proof -
  let ?ch = "RawURLEncoding_EncodeToString chal"
  let ?ms = "[(''type'', Marshal_string typ, JStr (quote (bytes_of_string typ))),
    (''challenge'', Marshal_string ?ch, JStr (quote (bytes_of_string ?ch))),
    (''origin'', Marshal_string origin, JStr (quote (bytes_of_string origin)))]"
  have b: "buildClientDataJSON typ origin chal = Marshal_object (encoded ?ms)"
    by (simp add: buildClientDataJSON_def)
  have "list_all (\<lambda>(k, e, v). scans v e) ?ms" by (simp add: scans_string)
  then have "parse_json (buildClientDataJSON typ origin chal) = Some (JObj (parsed ?ms))"
    unfolding b by (rule parse_json_object) simp
  moreover have "find_field clientData_fields (unquote (quote (bytes_of_string ''type''))) =
        Some (set_string (\<lambda>x. cd_Type_update (\<lambda>_. x)))"
      "find_field clientData_fields (unquote (quote (bytes_of_string ''challenge''))) =
        Some (set_string (\<lambda>x. cd_Challenge_update (\<lambda>_. x)))"
      "find_field clientData_fields (unquote (quote (bytes_of_string ''origin''))) =
        Some (set_string (\<lambda>x. cd_Origin_update (\<lambda>_. x)))"
    by (rule find_field_name; simp add: clientData_fields_def ascii_name_def byte_of_char_def)+
  moreover have "string_of_bytes (coerceUTF8 (bytes_of_string x)) = coerceString x" for x
    by (simp add: coerceString_def)
  ultimately show ?thesis
    by (simp add: Unmarshal_clientData_def Unmarshal_def set_struct_def set_string_def del: unquote_quote) simp
qed

lemma client_data_ok_build:
  assumes "coerceString typ = typ" and "coerceString origin \<in> allowed origins"
  shows "client_data_ok typ origins (buildClientDataJSON typ origin chal) chal"
  using assms Unmarshal_buildClientDataJSON [of "typ" origin chal] by (simp add: client_data_ok_def)

section \<open>authenticatorData\<close>

definition registration_flags :: byte where
  "registration_flags = flagUP OR flagUV OR flagAT"

definition assertion_flags :: byte where
  "assertion_flags = flagUP OR flagUV"

definition registration_at :: "VirtualAuthenticator \<Rightarrow> bytes \<Rightarrow> AttestedCredentialData" where
  "registration_at v credID = \<lparr>AAGUID = v_AAGUID v, CredentialID = credID,
     CredentialPublicKey = cose_value v, CredentialPublicKeyRaw = encode_value (cose_value v)\<rparr>"

definition registration_ad :: "VirtualAuthenticator \<Rightarrow> string \<Rightarrow> bytes \<Rightarrow> AuthData" where
  "registration_ad v rpID credID = \<lparr>RPIDHash = sha256 (bytes_of_string rpID), SignCount = v_signCount v,
     UP = True, UV = True, BE = False, BS = False, AT = True, ED = False,
     Attested = Some (registration_at v credID), Extensions = zeroValue\<rparr>"

definition assertion_ad :: "VirtualAuthenticator \<Rightarrow> string \<Rightarrow> AuthData" where
  "assertion_ad v rpID = \<lparr>RPIDHash = sha256 (bytes_of_string rpID), SignCount = v_signCount v,
     UP = True, UV = True, BE = False, BS = False, AT = False, ED = False,
     Attested = None, Extensions = zeroValue\<rparr>"

lemmas flag_defs = flagUP_def flagUV_def flagBE_def flagBS_def flagAT_def flagED_def

lemma registration_layout:
  assumes g: "v_good v" and c: "length credID < 2 ^ 16"
  shows "buildAuthDataRegistration v rpID credID =
      Some (authdata_bytes registration_flags (registration_ad v rpID credID))"
    and "Parse (authdata_bytes registration_flags (registration_ad v rpID credID)) =
      Inr (registration_ad v rpID credID)"
proof -
  have u: "unat (of_nat (length credID) :: 16 word) = length credID"
    using c by (simp add: unat_of_nat)
  show "buildAuthDataRegistration v rpID credID =
      Some (authdata_bytes registration_flags (registration_ad v rpID credID))"
    by (simp add: buildAuthDataRegistration_def encodePublicKey_good [OF g] appendUint32_def appendUint16_def
        authdata_bytes_def registration_ad_def registration_at_def attested_bytes_def registration_flags_def
        Let_def u del: be_bytes.simps)
  have "length (encode_value (cose_value v)) \<le> MaxInputSize"
    using length_cose_value [OF g] by (simp add: MaxInputSize_def)
  moreover have "length (v_AAGUID v) = 16" using g by (simp add: v_good_def)
  ultimately have "authdata_ok registration_flags (registration_ad v rpID credID)"
    using cose_value_good [OF g] c
    by (simp add: authdata_ok_def registration_ad_def registration_at_def flags_ok_def registration_flags_def
        flag_defs attested_ok_def extension_bytes_def)
  then show "Parse (authdata_bytes registration_flags (registration_ad v rpID credID)) =
      Inr (registration_ad v rpID credID)"
    by (rule Parse_complete)
qed

lemma assertion_layout:
  "buildAuthDataAssertion rpID v =
     (let v' = (if v_zeroCounter v then v else v\<lparr>v_signCount := v_signCount v + 1\<rparr>)
      in (authdata_bytes assertion_flags (assertion_ad v' rpID), v'))"
  "Parse (authdata_bytes assertion_flags (assertion_ad v rpID)) = Inr (assertion_ad v rpID)"
proof -
  show "buildAuthDataAssertion rpID v =
     (let v' = (if v_zeroCounter v then v else v\<lparr>v_signCount := v_signCount v + 1\<rparr>)
      in (authdata_bytes assertion_flags (assertion_ad v' rpID), v'))"
    by (simp add: buildAuthDataAssertion_def appendUint32_def authdata_bytes_def assertion_ad_def
        assertion_flags_def Let_def del: be_bytes.simps)
  have "authdata_ok assertion_flags (assertion_ad v rpID)"
    by (simp add: authdata_ok_def assertion_ad_def flags_ok_def assertion_flags_def flag_defs)
  then show "Parse (authdata_bytes assertion_flags (assertion_ad v rpID)) = Inr (assertion_ad v rpID)"
    by (rule Parse_complete)
qed

lemma authdata_accepts_built:
  assumes "valid_policy floor"
  shows "v_good v \<Longrightarrow> length credID < 2 ^ 16 \<Longrightarrow>
      authdata_accepts rpID floor override
        (authdata_bytes registration_flags (registration_ad v rpID credID)) (registration_ad v rpID credID)"
    and "authdata_accepts rpID floor override
        (authdata_bytes assertion_flags (assertion_ad v rpID)) (assertion_ad v rpID)"
  using assms EffectivePolicy_valid [OF assms, of override]
  by (simp_all add: authdata_accepts_def registration_layout assertion_layout)
    (simp_all add: registration_ad_def assertion_ad_def)

section \<open>Attestation objects\<close>

definition att_value :: "string \<Rightarrow> cbor_value \<Rightarrow> bytes \<Rightarrow> cbor_value" where
  "att_value fmt attStmt authData = VMap [(VText ''fmt'', VText fmt), (VText ''attStmt'', attStmt),
     (VText ''authData'', VBytes authData)]"

definition packed_value :: "int \<Rightarrow> bytes \<Rightarrow> bytes list \<Rightarrow> cbor_value" where
  "packed_value alg sig x5c = VMap ([(VText ''alg'', VNegInt alg), (VText ''sig'', VBytes sig)] @
     (if x5c \<noteq> [] then [(VText ''x5c'', VArray (map VBytes x5c))] else []))"

lemma buildNone_value: "buildAttestationObjectNone ad = encode_value (att_value ''none'' (VMap []) ad)"
  by (simp add: buildAttestationObjectNone_def att_value_def)

lemma buildPacked_value:
  "alg < 0 \<Longrightarrow> buildAttestationObjectPacked ad alg sig x5c =
     Some (encode_value (att_value ''packed'' (packed_value alg sig x5c) ad))"
  by (simp add: buildAttestationObjectPacked_def att_value_def packed_value_def NegInt_def Let_def comp_def)

lemma text_order:
  "KeySpan (encode_value (VText ''fmt'')) < KeySpan (encode_value (VText ''attStmt''))"
  "KeySpan (encode_value (VText ''attStmt'')) < KeySpan (encode_value (VText ''authData''))"
  "KeySpan (encode_value (VText ''alg'')) < KeySpan (encode_value (VText ''sig''))"
  "KeySpan (encode_value (VText ''sig'')) < KeySpan (encode_value (VText ''x5c''))"
  by (simp_all add: less_key_span_def encode_eval canonicalCompare_def bytes_of_string_def byte_of_char_def)

lemma att_value_decodable:
  assumes "canonical attStmt" and "value_depth attStmt \<le> 7" and "value_count attStmt \<le> 100"
  shows "decodable (att_value fmt attStmt ad)"
  using assms text_order less_trans [OF text_order(1,2)]
  by (simp add: att_value_def decodable_def MaxDepth_def MaxElements_def del: encode_value.simps)

lemma packed_value_canonical:
  assumes "- (2 ^ 63) \<le> alg" and "alg < 0" and "length x5c \<le> 1"
  shows "canonical (packed_value alg sig x5c)" "value_depth (packed_value alg sig x5c) \<le> 7"
    "value_count (packed_value alg sig x5c) \<le> 100"
proof -
  consider "x5c = []" | c where "x5c = [c]"
    using assms(3) by (cases x5c) auto
  then show "canonical (packed_value alg sig x5c)" "value_depth (packed_value alg sig x5c) \<le> 7"
    "value_count (packed_value alg sig x5c) \<le> 100"
    using assms(1,2) text_order(3,4) less_trans [OF text_order(3,4)]
    by (cases; simp add: packed_value_def del: encode_value.simps)+
qed

lemma attestation_object_value:
  assumes "decodable (att_value fmt attStmt ad)" and "is_map attStmt"
    and "length (encode_value (att_value fmt attStmt ad)) \<le> MaxInputSize"
  shows "attestation_object (encode_value (att_value fmt attStmt ad)) fmt attStmt ad"
proof -
  let ?v = "att_value fmt attStmt ad"
  have "Decode (encode_value ?v) = Inr (?v, length (encode_value ?v))"
    using Decode_encode_value [of ?v "[]"] assms(1,3) by simp
  then show ?thesis
    using assms(2) by (auto simp: attestation_object_def att_value_def is_map_def MapGetText_def)
qed

lemma decodePacked_value:
  "decodePackedAttStmt (packed_value alg sig x5c) = Inr \<lparr>stmt_Alg = alg, stmt_Sig = sig, stmt_X5C = x5c\<rparr>"
  by (auto simp: decodePackedAttStmt_def packed_value_def MapGetText_def decodeX5C_def comp_def)

section \<open>Registration and login payloads\<close>

text \<open>
  The two sides agree: a signature that the authenticator makes is one that the server's
  verification accepts under the public key (what the signature schemes promise).
\<close>

definition signing_correct :: "crypto \<Rightarrow> signing \<Rightarrow> VirtualAuthenticator \<Rightarrow> bool" where
  "signing_correct cr sg v \<longleftrightarrow>
     (\<forall>msg. \<exists>sig. v_sign sg v msg = Inr sig \<and> signature_valid cr (v_Alg v) (v_PublicKey v) msg sig)"

definition registration_request :: "string \<Rightarrow> UVPolicy \<Rightarrow> string \<Rightarrow> RegistrationResult \<Rightarrow> RegistrationRequest" where
  "registration_request u uv nick res = \<lparr>rr_Username = u, rr_CredentialID = rres_CredentialID res,
     rr_ClientDataJSON = rres_ClientDataJSON res, rr_AttestationObject = rres_AttestationObject res,
     rr_UVOverride = uv, rr_Nickname = nick\<rparr>"

definition assertion_request :: "string \<Rightarrow> UVPolicy \<Rightarrow> AssertionResult \<Rightarrow> AssertionRequest" where
  "assertion_request u uv res = \<lparr>ar_Username = u, ar_CredentialID = ares_CredentialID res,
     ar_ClientDataJSON = ares_ClientDataJSON res, ar_AuthenticatorData = ares_AuthenticatorData res,
     ar_Signature = ares_Signature res, ar_UVOverride = uv\<rparr>"

lemma register_accepts_built:
  assumes g: "v_good v" and c: "length credID < 2 ^ 16" and pol: "valid_policy (reg_UVPolicy r)"
    and origin: "coerceString origin \<in> allowed (reg_Origins r)"
    and red: "redeemable (u, PurposeRegister) chal t (challenges w)"
    and req: "rr_Username req = u" "rr_ClientDataJSON req = buildClientDataJSON ''webauthn.create'' origin chal"
      "rr_AttestationObject req = encode_value (att_value fmt attStmt
         (authdata_bytes registration_flags (registration_ad v (reg_RPID r) credID)))"
    and att: "decodable (att_value fmt attStmt
         (authdata_bytes registration_flags (registration_ad v (reg_RPID r) credID)))" "is_map attStmt"
      "length (rr_AttestationObject req) \<le> MaxInputSize"
      "attestation_ok cr fmt attStmt
         (authdata_bytes registration_flags (registration_ad v (reg_RPID r) credID) @
          sha256 (rr_ClientDataJSON req)) \<lparr>Public = v_PublicKey v, Alg = v_Alg v\<rparr>"
  shows "register_accepts cr r req t w chal (registration_ad v (reg_RPID r) credID)
    (registration_at v credID) \<lparr>Public = v_PublicKey v, Alg = v_Alg v\<rparr>"
proof -
  have ascii: "coerceString ''webauthn.create'' = ''webauthn.create''"
    by (simp add: coerceString_ascii byte_of_char_def)
  have "client_data_ok ''webauthn.create'' (reg_Origins r) (rr_ClientDataJSON req) chal"
    unfolding req(2) by (rule client_data_ok_build [OF ascii origin])
  moreover have "attestation_object (rr_AttestationObject req) fmt attStmt
      (authdata_bytes registration_flags (registration_ad v (reg_RPID r) credID))"
    unfolding req(3) by (rule attestation_object_value [OF att(1,2)]) (use att(3) req(3) in simp)
  moreover note authdata_accepts_built(1) [OF pol g c, of "reg_RPID r" "rr_UVOverride req"]
  moreover have "cose_Parse (CredentialPublicKey (registration_at v credID)) =
      Inr \<lparr>Public = v_PublicKey v, Alg = v_Alg v\<rparr>"
    using cose_Parse_good [OF g] by (simp add: registration_at_def)
  moreover have "Attested (registration_ad v (reg_RPID r) credID) = Some (registration_at v credID)"
    by (simp add: registration_ad_def)
  ultimately show ?thesis
    using red req(1) att(4) unfolding register_accepts_def by blast
qed

end
