(* ===== verification/End_To_End.thy ===== *)
theory End_To_End
  imports Virtual_Correct
begin

unbundle bit_operations_syntax

text \<open>
  The honest run reaches its end: a challenge that the server issued, answered by the
  virtual authenticator, registers a credential, and a second one logs its owner in.  The
  same run is the concrete input at which the properties of the ceremonies are applied.
\<close>

section \<open>Fresh authenticators\<close>

text \<open>What the key generators of the standard library promise.\<close>

definition key_source_ok :: "key_source \<Rightarrow> bool" where
  "key_source_ok g \<longleftrightarrow>
     (\<forall>b. rand_aaguid g = Some b \<longrightarrow> length b = 16) \<and>
     (\<forall>k. ecdsa_GenerateKey g = Some k \<longrightarrow> ec_Curve k = P256 \<and> on_curve P256 (ec_X k) (ec_Y k)) \<and>
     (\<forall>k. rsa_GenerateKey g 2048 = Some k \<longrightarrow>
        2 ^ 2047 \<le> rsa_N k \<and> rsa_N k < 2 ^ 2048 \<and> 0 < rsa_E k \<and> rsa_E k < 2 ^ 31) \<and>
     (\<forall>pub priv. ed25519_GenerateKey g = Some (pub, priv) \<longrightarrow> length pub = 32)"

lemma WithZeroCounter_fold:
  "set opts \<subseteq> {WithZeroCounter} \<Longrightarrow>
   fold (\<lambda>opt v. opt v) opts v = (if opts = [] then v else v\<lparr>v_zeroCounter := True\<rparr>)"
  by (induction opts arbitrary: v) (auto simp: WithZeroCounter_def)

lemma v_good_counters [simp]:
  "v_good (v\<lparr>v_zeroCounter := z\<rparr>) = v_good v" "v_good (v\<lparr>v_signCount := n\<rparr>) = v_good v"
  by (simp_all add: v_good_def split: option.split)

lemma New_good:
  assumes "key_source_ok g" and "set opts \<subseteq> {WithZeroCounter}" and "New g alg opts = Inr v"
  shows "v_good v \<and> v_Alg v = alg \<and> alg \<in> {AlgES256, AlgRS256, AlgEdDSA} \<and>
    (v_zeroCounter v \<longleftrightarrow> opts \<noteq> []) \<and> v_signCount v = (if opts = [] then 1 else 0)"
proof -
  obtain b v0 where b: "rand_aaguid g = Some b"
    and v0: "new_keys g alg \<lparr>v_AAGUID = b, v_Alg = alg, v_ecPriv = None, v_rsaPriv = None,
        v_edPriv = [], v_edPub = [], v_signCount = 1, v_zeroCounter = False\<rparr> = Inr v0"
    and v: "v = (let v' = fold (\<lambda>opt v. opt v) opts v0 in if v_zeroCounter v' then v'\<lparr>v_signCount := 0\<rparr> else v')"
    using assms(3) by (auto simp: New_def result_simps Let_def)
  have "v_good v0 \<and> v_Alg v0 = alg \<and> alg \<in> {AlgES256, AlgRS256, AlgEdDSA} \<and> \<not> v_zeroCounter v0 \<and> v_signCount v0 = 1"
    using v0 b assms(1)
    by (auto simp: new_keys_def result_simps key_source_ok_def v_good_def simp del: power_numeral split: if_splits)
  then show ?thesis using v by (auto simp: WithZeroCounter_fold [OF assms(2)] Let_def)
qed

section \<open>Registration\<close>

text \<open>A registration payload answers a challenge, for the server's RP ID and one of its origins.\<close>

definition server_ok :: "Registrar \<Rightarrow> Authenticator \<Rightarrow> string \<Rightarrow> bool" where
  "server_ok r a origin \<longleftrightarrow>
     reg_Store r = auth_Store a \<and> reg_RPID r = auth_RPID a \<and>
     valid_policy (reg_UVPolicy r) \<and> valid_policy (auth_UVPolicy a) \<and>
     coerceString origin \<in> allowed (reg_Origins r) \<and> coerceString origin \<in> allowed (auth_Origins a)"

definition ready_to_register :: "Registrar \<Rightarrow> store_io \<Rightarrow> string \<Rightarrow> bytes \<Rightarrow> bytes \<Rightarrow> world \<Rightarrow> bool" where
  "ready_to_register r io u chal credID w \<longleftrightarrow>
     redeemable (u, PurposeRegister) chal (wallClock io) (challenges w) \<and>
     store_ok (reg_Store r) (disk w) \<and> io_ok (reg_Store r) (disk w) io \<and> no_failures io \<and>
     json_time_ok (wallClock io) \<and> store_view (reg_Store r) (disk w) credID = None"

text \<open>What the store holds for a virtual authenticator after its registration.\<close>

definition registered :: "store_io \<Rightarrow> string \<Rightarrow> string \<Rightarrow> VirtualAuthenticator \<Rightarrow> string \<Rightarrow> bytes \<Rightarrow> Credential" where
  "registered io u nick v rpID credID = stamped io
     (new_credential u nick (registration_ad v rpID credID) (registration_at v credID)
        \<lparr>Public = v_PublicKey v, Alg = v_Alg v\<rparr> (wallClock io))"

lemma registered_fields:
  "cred_ID (registered io u nick v rpID credID) = credID"
  "cred_Username (registered io u nick v rpID credID) = coerceString u"
  "cred_PublicKey (registered io u nick v rpID credID) = encode_value (cose_value v)"
  "cred_Algorithm (registered io u nick v rpID credID) = v_Alg v"
  "cred_SignCount (registered io u nick v rpID credID) = v_signCount v"
  by (simp_all add: registered_def stamped_def new_credential_def registration_at_def registration_ad_def)

definition registers :: "crypto \<Rightarrow> store_io \<Rightarrow> Registrar \<Rightarrow> RegistrationRequest \<Rightarrow> bytes \<Rightarrow> world \<Rightarrow> Credential \<Rightarrow> bool" where
  "registers cr io r req chal w cred \<longleftrightarrow>
     (\<exists>w'. Register cr io r req w = (Inr (), w') \<and>
       (\<forall>io2. io_ok (reg_Store r) (disk w) io2 \<longrightarrow> io_ok (reg_Store r) (disk w') io2) \<and>
       challenges w' = consumed_state (rr_Username req, PurposeRegister) chal (wallClock io) (challenges w) \<and>
       store_ok (reg_Store r) (disk w') \<and>
       store_view (reg_Store r) (disk w') = (store_view (reg_Store r) (disk w))(cred_ID cred \<mapsto> cred))"

lemma accepted_registers:
  assumes "ready_to_register r io u chal credID w" and "rr_Username req = u" and "rr_Nickname req = nick"
    and "register_accepts cr r req (wallClock io) w chal (registration_ad v (reg_RPID r) credID)
      (registration_at v credID) \<lparr>Public = v_PublicKey v, Alg = v_Alg v\<rparr>"
  shows "registers cr io r req chal w (registered io u nick v (reg_RPID r) credID)"
proof -
  have "CredentialID (registration_at v credID) = credID" by (simp add: registration_at_def)
  then show ?thesis
    using Register_complete [OF _ _ _ _ assms(4)] assms(1-3)
    by (simp add: ready_to_register_def registers_def registered_fields(1)) (simp add: registered_def)
qed

text \<open>The three attestations that the authenticator can make.\<close>

lemma att_size:
  assumes g: "v_good v" and c: "length credID < 2 ^ 16"
  shows "length (authdata_bytes registration_flags (registration_ad v rpID credID)) \<le> 70000"
proof -
  have "length (v_AAGUID v) = 16" using g by (simp add: v_good_def)
  then show ?thesis
    using length_cose_value [OF g] c
    by (simp add: authdata_bytes_def registration_ad_def registration_at_def attested_bytes_def)
qed

lemma length_Text: "length (Text s) \<le> 9 + length s"
  using length_encodeHeader [of 3 "of_nat (length s)"] by (simp add: Text_def)

lemma length_att_value:
  "length (encode_value (att_value fmt attStmt ad)) \<le>
     80 + length fmt + length (encode_value attStmt) + length ad"
  unfolding att_value_def
  by (rule order_trans [OF length_encode_map])
    (use length_Text [of fmt] length_Text [of "''fmt''"] length_Text [of "''attStmt''"]
      length_Text [of "''authData''"] length_Bytes [of ad] in simp)

text \<open>
  One argument for the three: the statement is a small canonical map, and it proves what its
  format asks for.
\<close>

lemma built_registers:
  assumes srv: "server_ok r a origin" and g: "v_good v" and c: "length credID < 2 ^ 16"
    and rdy: "ready_to_register r io u chal credID w"
    and res: "rres_ClientDataJSON res = buildClientDataJSON ''webauthn.create'' origin chal"
      "rres_AttestationObject res = encode_value (att_value fmt attStmt
         (authdata_bytes registration_flags (registration_ad v (reg_RPID r) credID)))"
    and stmt: "canonical attStmt" "value_depth attStmt \<le> 7" "value_count attStmt \<le> 100" "is_map attStmt"
      "length (rres_AttestationObject res) \<le> MaxInputSize"
      "attestation_ok cr fmt attStmt (authdata_bytes registration_flags (registration_ad v (reg_RPID r) credID) @
         sha256 (buildClientDataJSON ''webauthn.create'' origin chal)) \<lparr>Public = v_PublicKey v, Alg = v_Alg v\<rparr>"
  shows "registers cr io r (registration_request u uv nick res) chal w (registered io u nick v (reg_RPID r) credID)"
proof (rule accepted_registers [OF rdy])
  show "register_accepts cr r (registration_request u uv nick res) (wallClock io) w chal
      (registration_ad v (reg_RPID r) credID) (registration_at v credID) \<lparr>Public = v_PublicKey v, Alg = v_Alg v\<rparr>"
    using srv rdy stmt att_value_decodable [OF stmt(1-3)]
    by (intro register_accepts_built [OF g c, where origin = origin and fmt = fmt and attStmt = attStmt])
      (auto simp: server_ok_def ready_to_register_def registration_request_def res)
qed (simp_all add: registration_request_def)

lemma none_registers:
  assumes srv: "server_ok r a origin" and g: "v_good v" and c: "length credID < 2 ^ 16"
    and rdy: "ready_to_register r io u chal credID w"
  shows "\<exists>res. v_Register v (reg_RPID r) origin chal credID = Inr res \<and>
    registers cr io r (registration_request u uv nick res) chal w (registered io u nick v (reg_RPID r) credID)"
proof -
  let ?ad = "authdata_bytes registration_flags (registration_ad v (reg_RPID r) credID)"
  let ?res = "\<lparr>rres_CredentialID = credID,
     rres_ClientDataJSON = buildClientDataJSON ''webauthn.create'' origin chal,
     rres_AttestationObject = encode_value (att_value ''none'' (VMap []) ?ad)\<rparr>"
  have "length (encode_value (VMap [])) \<le> 9" using length_encode_map [of "[]"] by simp
  then have size: "length (rres_AttestationObject ?res) \<le> MaxInputSize"
    using length_att_value [of "''none''" "VMap []" ?ad] att_size [OF g c, of "reg_RPID r"]
    by (simp add: MaxInputSize_def)
  have "v_Register v (reg_RPID r) origin chal credID = Inr ?res"
    by (simp add: v_Register_def registration_layout [OF g c] buildNone_value Let_def)
  moreover have "registers cr io r (registration_request u uv nick ?res) chal w
      (registered io u nick v (reg_RPID r) credID)"
    by (rule built_registers [OF srv g c rdy _ _ _ _ _ _ size, where fmt = "''none''" and attStmt = "VMap []"])
      (simp_all add: is_map_def attestation_ok_def del: encode_value.simps)
  ultimately show ?thesis by blast
qed

lemma packed_self_registers:
  assumes srv: "server_ok r a origin" and g: "v_good v" and c: "length credID < 2 ^ 16"
    and rdy: "ready_to_register r io u chal credID w" and sig: "signing_correct cr sg v"
    and res: "v_RegisterPackedSelf sg v (reg_RPID r) origin chal credID = Inr res"
    and size: "length (rres_AttestationObject res) \<le> MaxInputSize"
  shows "registers cr io r (registration_request u uv nick res) chal w (registered io u nick v (reg_RPID r) credID)"
proof -
  let ?ad = "authdata_bytes registration_flags (registration_ad v (reg_RPID r) credID)"
  let ?cd = "buildClientDataJSON ''webauthn.create'' origin chal"
  obtain s where s: "v_sign sg v (?ad @ sha256 ?cd) = Inr s"
      "signature_valid cr (v_Alg v) (v_PublicKey v) (?ad @ sha256 ?cd) s"
    using sig unfolding signing_correct_def by blast
  have alg: "- (2 ^ 63) \<le> v_Alg v" "v_Alg v < 0" using v_good_alg [OF g] by simp_all
  have r: "rres_ClientDataJSON res = ?cd"
      "rres_AttestationObject res = encode_value (att_value ''packed'' (packed_value (v_Alg v) s []) ?ad)"
    using res s(1) by (auto simp: v_RegisterPackedSelf_def registration_layout [OF g c]
        buildPacked_value [OF alg(2)] Let_def)
  have "attestation_ok cr ''packed'' (packed_value (v_Alg v) s []) (?ad @ sha256 ?cd)
      \<lparr>Public = v_PublicKey v, Alg = v_Alg v\<rparr>"
    using s(2) by (simp add: attestation_ok_def decodePacked_value)
  then show ?thesis
    by (intro built_registers [OF srv g c rdy r packed_value_canonical [OF alg] _ size])
      (simp_all add: packed_value_def is_map_def)
qed

text \<open>A certificate is one that \<open>x509.ParseCertificate\<close> reads as the key it was made for.\<close>

definition certificates_correct :: "crypto \<Rightarrow> key_source \<Rightarrow> signing \<Rightarrow> bool" where
  "certificates_correct cr gen sg \<longleftrightarrow>
     (\<forall>k msg der s. ecdsa_GenerateKey gen = Some k \<longrightarrow> x509_SelfSigned sg k = Some der \<longrightarrow>
        ecdsa_SignASN1 sg k (sha256 msg) = Some s \<longrightarrow>
        (\<exists>pub. ParseCertificate cr der = Some pub \<and> signature_valid cr AlgES256 pub msg s))"

lemma packed_full_registers:
  assumes srv: "server_ok r a origin" and g: "v_good v" and c: "length credID < 2 ^ 16"
    and rdy: "ready_to_register r io u chal credID w" and cert: "certificates_correct cr gen sg"
    and res: "v_RegisterPackedFull gen sg v (reg_RPID r) origin chal credID = Inr res"
    and size: "length (rres_AttestationObject res) \<le> MaxInputSize"
  shows "registers cr io r (registration_request u uv nick res) chal w (registered io u nick v (reg_RPID r) credID)"
proof -
  let ?ad = "authdata_bytes registration_flags (registration_ad v (reg_RPID r) credID)"
  let ?cd = "buildClientDataJSON ''webauthn.create'' origin chal"
  have alg: "- (2 ^ 63) \<le> AlgES256" "AlgES256 < 0" by (simp_all add: AlgES256_def)
  obtain k der s where k: "ecdsa_GenerateKey gen = Some k" "x509_SelfSigned sg k = Some der"
      "ecdsa_SignASN1 sg k (sha256 (?ad @ sha256 ?cd)) = Some s"
    and r: "rres_ClientDataJSON res = ?cd"
      "rres_AttestationObject res = encode_value (att_value ''packed'' (packed_value AlgES256 s [der]) ?ad)"
    using res by (auto simp: v_RegisterPackedFull_def registration_layout [OF g c] selfSignedCert_def
        buildPacked_value [OF alg(2)] Let_def result_simps)
  obtain pub where "ParseCertificate cr der = Some pub"
      "signature_valid cr AlgES256 pub (?ad @ sha256 ?cd) s"
    using cert k unfolding certificates_correct_def by blast
  then have "attestation_ok cr ''packed'' (packed_value AlgES256 s [der]) (?ad @ sha256 ?cd)
      \<lparr>Public = v_PublicKey v, Alg = v_Alg v\<rparr>"
    by (simp add: attestation_ok_def decodePacked_value)
  then show ?thesis
    by (intro built_registers [OF srv g c rdy r packed_value_canonical [OF alg] _ size])
      (simp_all add: packed_value_def is_map_def)
qed

section \<open>Login\<close>

definition v_next :: "VirtualAuthenticator \<Rightarrow> VirtualAuthenticator" where
  "v_next v = (if v_zeroCounter v then v else v\<lparr>v_signCount := v_signCount v + 1\<rparr>)"

lemma v_next_fields [simp]:
  "v_Alg (v_next v) = v_Alg v" "v_PublicKey (v_next v) = v_PublicKey v" "v_sign sg (v_next v) = v_sign sg v"
  by (simp_all add: v_next_def v_PublicKey_def v_sign_def fun_eq_iff split: option.split)

text \<open>The next value of the counter is accepted after the last one, also where it wraps to 0.\<close>

lemma counter_next: "counter_ok n (n + 1)"
proof (cases "n + 1 = 0")
  case False
  then have "n < n + 1" using inc_less_eq_triv_imp [of n] by (auto simp: not_le [symmetric])
  then show ?thesis by (simp add: counter_ok_def)
qed (simp add: counter_ok_def)

lemma counter_v_next:
  "v_zeroCounter v \<longrightarrow> v_signCount v = 0 \<Longrightarrow> counter_ok (v_signCount v) (v_signCount (v_next v))"
  using counter_next [of "v_signCount v"] by (auto simp: v_next_def counter_ok_def)

definition ready_to_login :: "Authenticator \<Rightarrow> store_io \<Rightarrow> store_io \<Rightarrow> string \<Rightarrow> bytes \<Rightarrow> bytes \<Rightarrow>
    VirtualAuthenticator \<Rightarrow> Credential \<Rightarrow> world \<Rightarrow> bool" where
  "ready_to_login a io io' u chal credID v cred w \<longleftrightarrow>
     redeemable (u, PurposeLogin) chal (wallClock io) (challenges w) \<and>
     store_ok (auth_Store a) (disk w) \<and> io_ok (auth_Store a) (disk w) io \<and> no_failures io \<and>
     io_ok (auth_Store a) (disk w) io' \<and> no_failures io' \<and>
     store_view (auth_Store a) (disk w) credID = Some cred \<and>
     cred_PublicKey cred = encode_value (cose_value v) \<and> cred_Algorithm cred = v_Alg v \<and>
     counter_ok (cred_SignCount cred) (v_signCount (v_next v))"

lemma stored_key_good:
  assumes g: "v_good v" and "cred_PublicKey cred = encode_value (cose_value v)" and "cred_Algorithm cred = v_Alg v"
  shows "stored_key cred \<lparr>Public = v_PublicKey v, Alg = v_Alg v\<rparr>"
proof -
  have "length (encode_value (cose_value v)) \<le> MaxInputSize"
    using length_cose_value [OF g] by (simp add: MaxInputSize_def)
  then have "Decode (encode_value (cose_value v)) = Inr (cose_value v, length (encode_value (cose_value v)))"
    using Decode_encode_value [of "cose_value v" "[]"] cose_value_good [OF g] by simp
  then show ?thesis using assms cose_Parse_good [OF g] by (simp add: stored_key_def)
qed

lemma assertion_runs:
  assumes srv: "server_ok r a origin" and g: "v_good v" and sig: "signing_correct cr sg v"
    and rdy: "ready_to_login a io io' u chal credID v cred w"
  shows "\<exists>res w'. v_Authenticate sg (auth_RPID a) origin chal credID v = (Inr res, v_next v) \<and>
    Login cr io io' a (assertion_request u uv res) w =
      (Inr \<lparr>result_Username = cred_Username cred, result_UVPerformed = True\<rparr>, w') \<and>
    (\<forall>io2. io_ok (auth_Store a) (disk w) io2 \<longrightarrow> io_ok (auth_Store a) (disk w') io2) \<and>
    challenges w' = consumed_state (u, PurposeLogin) chal (wallClock io) (challenges w) \<and>
    store_ok (auth_Store a) (disk w') \<and>
    store_view (auth_Store a) (disk w') = (store_view (auth_Store a) (disk w))
      (credID \<mapsto> cred\<lparr>cred_SignCount := v_signCount (v_next v)\<rparr>)"
proof -
  let ?ad = "authdata_bytes assertion_flags (assertion_ad (v_next v) (auth_RPID a))"
  let ?cd = "buildClientDataJSON ''webauthn.get'' origin chal"
  obtain s where s: "v_sign sg v (?ad @ sha256 ?cd) = Inr s"
      "signature_valid cr (v_Alg v) (v_PublicKey v) (?ad @ sha256 ?cd) s"
    using sig unfolding signing_correct_def by blast
  let ?res = "\<lparr>ares_CredentialID = credID, ares_ClientDataJSON = ?cd, ares_AuthenticatorData = ?ad, ares_Signature = s\<rparr>"
  have auth: "v_Authenticate sg (auth_RPID a) origin chal credID v = (Inr ?res, v_next v)"
    using s(1) assertion_layout(1) [of "auth_RPID a" v]
    by (simp add: v_Authenticate_def Let_def v_next_def [symmetric])
  have ascii: "coerceString ''webauthn.get'' = ''webauthn.get''"
    by (simp add: coerceString_ascii byte_of_char_def)
  have "client_data_ok ''webauthn.get'' (auth_Origins a) ?cd chal"
    using srv by (intro client_data_ok_build [OF ascii]) (simp add: server_ok_def)
  moreover have "authdata_accepts (auth_RPID a) (auth_UVPolicy a) uv ?ad (assertion_ad (v_next v) (auth_RPID a))"
    using srv by (intro authdata_accepts_built(2)) (simp add: server_ok_def)
  moreover have "stored_key cred \<lparr>Public = v_PublicKey v, Alg = v_Alg v\<rparr>"
    using rdy by (intro stored_key_good [OF g]) (simp_all add: ready_to_login_def)
  ultimately have "login_accepts cr a (assertion_request u uv ?res) (wallClock io) w chal cred
      (assertion_ad (v_next v) (auth_RPID a))"
    using rdy s(2)
    by (auto simp: login_accepts_def assertion_request_def ready_to_login_def assertion_ad_def)
  from Login_complete [OF _ _ _ _ _ this, of io'] show ?thesis
    using auth rdy by (auto simp: ready_to_login_def assertion_ad_def assertion_request_def)
qed

lemma assertion_logs_in:
  assumes srv: "server_ok r a origin" and g: "v_good v" and sig: "signing_correct cr sg v"
    and rdy: "ready_to_login a io io' u chal credID v cred w"
  shows "\<exists>res w'. v_Authenticate sg (auth_RPID a) origin chal credID v = (Inr res, v_next v) \<and>
    Login cr io io' a (assertion_request u uv res) w =
      (Inr \<lparr>result_Username = cred_Username cred, result_UVPerformed = True\<rparr>, w') \<and>
    store_view (auth_Store a) (disk w') = (store_view (auth_Store a) (disk w))
      (credID \<mapsto> cred\<lparr>cred_SignCount := v_signCount (v_next v)\<rparr>)"
  using assertion_runs [OF srv g sig rdy, of uv] by blast

section \<open>Packed attestations of a usual size\<close>

lemma length_packed_value:
  "length (encode_value (packed_value alg s [])) \<le> 100 + length s"
  "length (encode_value (packed_value alg s [d])) \<le> 200 + length s + length d"
proof -
  note b = length_encode_scalar(2) [of alg] length_encode_scalar(3) [of s] length_encode_scalar(3) [of d]
    length_Text [of "''alg''"] length_Text [of "''sig''"] length_Text [of "''x5c''"]
  have arr: "length (encode_value (VArray [VBytes d])) \<le> 18 + length d"
    using length_encodeHeader [of 4 "of_nat 1"] length_Bytes [of d] by (simp add: Array_def)
  show "length (encode_value (packed_value alg s [])) \<le> 100 + length s"
    unfolding packed_value_def by (rule order_trans [OF length_encode_map]) (use b in simp)
  show "length (encode_value (packed_value alg s [d])) \<le> 200 + length s + length d"
    unfolding packed_value_def by (rule order_trans [OF length_encode_map])
      (use b arr in \<open>simp del: encode_value.simps(5)\<close>)
qed

lemma packed_self_made:
  assumes g: "v_good v" and c: "length credID < 2 ^ 16" and sig: "signing_correct cr sg v"
    and short: "\<And>msg s. v_sign sg v msg = Inr s \<Longrightarrow> length s \<le> 10000"
  shows "\<exists>res. v_RegisterPackedSelf sg v rpID origin chal credID = Inr res \<and>
    length (rres_AttestationObject res) \<le> MaxInputSize"
proof -
  let ?ad = "authdata_bytes registration_flags (registration_ad v rpID credID)"
  let ?cd = "buildClientDataJSON ''webauthn.create'' origin chal"
  obtain s where s: "v_sign sg v (?ad @ sha256 ?cd) = Inr s" using sig unfolding signing_correct_def by blast
  have alg: "v_Alg v < 0" using v_good_alg [OF g] by simp
  have "length (encode_value (att_value ''packed'' (packed_value (v_Alg v) s []) ?ad)) \<le> MaxInputSize"
    using length_att_value [of "''packed''" "packed_value (v_Alg v) s []" ?ad] length_packed_value(1) [of "v_Alg v" s]
      short [OF s] att_size [OF g c, of rpID] by (simp add: MaxInputSize_def)
  then show ?thesis
    using s by (simp add: v_RegisterPackedSelf_def registration_layout [OF g c] buildPacked_value [OF alg] Let_def)
qed

lemma packed_full_made:
  assumes g: "v_good v" and c: "length credID < 2 ^ 16" and k: "ecdsa_GenerateKey gen = Some k" "x509_SelfSigned sg k = Some der"
    and s: "ecdsa_SignASN1 sg k (sha256 (authdata_bytes registration_flags (registration_ad v rpID credID) @
      sha256 (buildClientDataJSON ''webauthn.create'' origin chal))) = Some s"
    and short: "length s \<le> 10000" "length der \<le> 100000"
  shows "\<exists>res. v_RegisterPackedFull gen sg v rpID origin chal credID = Inr res \<and>
    length (rres_AttestationObject res) \<le> MaxInputSize"
proof -
  let ?ad = "authdata_bytes registration_flags (registration_ad v rpID credID)"
  have alg: "AlgES256 < 0" by (simp add: AlgES256_def)
  have "length (encode_value (att_value ''packed'' (packed_value AlgES256 s [der]) ?ad)) \<le> MaxInputSize"
    using length_att_value [of "''packed''" "packed_value AlgES256 s [der]" ?ad] length_packed_value(2) [of AlgES256 s der]
      short att_size [OF g c, of rpID] by (simp add: MaxInputSize_def)
  then show ?thesis
    using k s by (simp add: v_RegisterPackedFull_def registration_layout [OF g c] selfSignedCert_def buildPacked_value [OF alg] Let_def)
qed

section \<open>The whole run\<close>

lemma registration_then_login:
  assumes srv: "server_ok r a origin" and g: "v_good v" and c: "length credID < 2 ^ 16"
    and sig: "signing_correct cr sg v" and zero: "v_zeroCounter v \<longrightarrow> v_signCount v = 0"
    and rdy: "ready_to_register r io u chal credID w"
    and reg: "registers cr io r req chal w (registered io u nick v (reg_RPID r) credID)"
    and io: "io_ok (reg_Store r) (disk w) io1" "io_ok (reg_Store r) (disk w) io2"
      "no_failures io1" "no_failures io2"
    and t: "now (challenges w) (wallClock io1) - now (challenges w) t2 \<le> ttl (challenges w)"
  shows "\<exists>w1 res w2. Register cr io r req w = (Inr (), w1) \<and>
    v_Authenticate sg (auth_RPID a) origin chal2 credID v = (Inr res, v_next v) \<and>
    Login cr io1 io2 a (assertion_request u uv2 res)
      (w1\<lparr>challenges := issued_state (u, PurposeLogin) chal2 t2 (challenges w1)\<rparr>) =
      (Inr \<lparr>result_Username = coerceString u, result_UVPerformed = True\<rparr>, w2)"
proof -
  let ?cred = "registered io u nick v (reg_RPID r) credID"
  obtain w1 where w1: "Register cr io r req w = (Inr (), w1)"
      "\<forall>io2. io_ok (reg_Store r) (disk w) io2 \<longrightarrow> io_ok (reg_Store r) (disk w1) io2"
      "challenges w1 = consumed_state (rr_Username req, PurposeRegister) chal (wallClock io) (challenges w)"
      "store_ok (reg_Store r) (disk w1)"
      "store_view (reg_Store r) (disk w1) = (store_view (reg_Store r) (disk w))(cred_ID ?cred \<mapsto> ?cred)"
    using reg by (auto simp: registers_def)
  let ?w = "w1\<lparr>challenges := issued_state (u, PurposeLogin) chal2 t2 (challenges w1)\<rparr>"
  have "now (challenges w1) = now (challenges w)" "ttl (challenges w1) = ttl (challenges w)"
    by (simp_all add: w1(3) consumed_state_def)
  then have "redeemable (u, PurposeLogin) chal2 (wallClock io1) (challenges ?w)"
    using t ch.fresh_use [where s = "challenges w1" and t = t2] by simp
  moreover have "reg_Store r = auth_Store a" using srv by (simp add: server_ok_def)
  ultimately have "ready_to_login a io1 io2 u chal2 credID v ?cred ?w"
    using w1 io counter_v_next [OF zero] by (simp add: ready_to_login_def registered_fields)
  from assertion_logs_in [OF srv g sig this, of uv2] show ?thesis
    using w1(1) by (auto simp: registered_fields)
qed

end
