(* ===== verification/Httpapi_Correct.thy ===== *)
theory Httpapi_Correct
  imports Httpapi End_To_End
begin

text \<open>
  What the HTTP transport guarantees: a token only after an accepted login and only for the
  owner of the credential, credentials listed and deleted only by their owner, error
  responses that tell nothing, and every change of the store traced to a request that was
  entitled to it.
\<close>

section \<open>Outcomes of a handler\<close>

lemma answer_iff [result_simps]:
  "answer m w = ((resp, log), w') \<longleftrightarrow> m w = (Inl (resp, log), w') \<or> m w = (Inr resp, w') \<and> log = []"
  by (auto simp: answer_def split: prod.splits sum.splits)

lemmas reply_defs = refuse_def refuse_logged_def writeError_def writeJSON_def noContent_def plainError_def status_defs

lemma login_begin_key [result_simps]:
  "(if c then liftS a else m) w = (r, w') \<longleftrightarrow> (if c then a = r \<and> w' = w else m w = (r, w'))"
  by (auto simp: liftS_def)

section \<open>Error responses\<close>

definition generic_refusals :: "response set" where
  "generic_refusals =
     {writeError StatusBadRequest ''invalid request'', writeError StatusBadRequest ''registration failed'',
      writeError StatusInternalServerError ''could not start registration'',
      writeError StatusInternalServerError ''could not start login'',
      writeError StatusUnauthorized ''login failed'', writeError StatusInternalServerError ''could not issue session'',
      writeError StatusUnauthorized ''authentication required'',
      writeError StatusInternalServerError ''could not list credentials'',
      writeError StatusBadRequest ''invalid credential id'', writeError StatusNotFound ''credential not found'',
      writeError StatusInternalServerError ''could not delete credential'',
      plainError StatusNotFound ''404 page not found'', plainError StatusMethodNotAllowed ''Method Not Allowed''}"

definition success :: "response \<Rightarrow> bool" where
  "success resp \<longleftrightarrow> resp_Status resp = StatusOK \<or> resp_Status resp = StatusNoContent"

lemma success_replies:
  "success (writeJSON StatusOK v)" "success noContent"
  "\<not> success (writeError StatusBadRequest msg)" "\<not> success (writeError StatusUnauthorized msg)"
  "\<not> success (writeError StatusNotFound msg)" "\<not> success (writeError StatusInternalServerError msg)"
  by (simp_all add: success_def reply_defs)

lemma handler_refusals:
  "handleRegisterBegin s e r w = (Inl (resp, log), w') \<Longrightarrow> resp \<in> generic_refusals"
  "handleRegisterFinish s e r w = (Inl (resp, log), w') \<Longrightarrow> resp \<in> generic_refusals"
  "handleLoginBegin s e r w = (Inl (resp, log), w') \<Longrightarrow> resp \<in> generic_refusals"
  "handleLoginFinish s e r w = (Inl (resp, log), w') \<Longrightarrow> resp \<in> generic_refusals"
  "handleListCredentials s e r w = (Inl (resp, log), w') \<Longrightarrow> resp \<in> generic_refusals"
  "handleDeleteCredential s e pid r w = (Inl (resp, log), w') \<Longrightarrow> resp \<in> generic_refusals"
  unfolding generic_refusals_def
  by (auto simp: handleRegisterBegin_def handleRegisterFinish_def handleLoginBegin_def handleLoginFinish_def
      handleListCredentials_def handleDeleteCredential_def result_simps refuse_def refuse_logged_def Let_def
      split: if_splits)

lemma handler_success:
  "handleRegisterBegin s e r w = (Inr resp, w') \<Longrightarrow> success resp"
  "handleRegisterFinish s e r w = (Inr resp, w') \<Longrightarrow> success resp"
  "handleLoginBegin s e r w = (Inr resp, w') \<Longrightarrow> success resp"
  "handleLoginFinish s e r w = (Inr resp, w') \<Longrightarrow> success resp"
  "handleListCredentials s e r w = (Inr resp, w') \<Longrightarrow> success resp"
  "handleDeleteCredential s e pid r w = (Inr resp, w') \<Longrightarrow> success resp"
  by (auto simp: handleRegisterBegin_def handleRegisterFinish_def handleLoginBegin_def handleLoginFinish_def
      handleListCredentials_def handleDeleteCredential_def result_simps Let_def success_replies)

lemma refusals_fail: "resp \<in> generic_refusals \<Longrightarrow> \<not> success resp"
  by (auto simp: generic_refusals_def success_replies) (simp_all add: success_def reply_defs)

lemma handle_refusal:
  "handle s e r rt w = ((resp, log), w') \<Longrightarrow> \<not> success resp \<Longrightarrow> resp \<in> generic_refusals"
  by (cases rt)
    (auto simp: handle_def result_simps handleDemoPage_def success_def
      dest: handler_refusals handler_success split: prod.splits)

lemma Routes_refusal:
  assumes "Routes s e r w = ((resp, log), w')" and "\<not> success resp"
  shows "resp \<in> generic_refusals"
  using assms handle_refusal
  by (auto simp: Routes_def generic_refusals_def split: option.splits if_splits)

section \<open>A configured server\<close>

text \<open>One store and one relying party for both ceremonies, as \<open>runServe\<close> sets them up.\<close>

definition server_wf :: "Server \<Rightarrow> bool" where
  "server_wf s \<longleftrightarrow> reg_Store (srv_Registrar s) = srv_Store s \<and> auth_Store (srv_Authenticator s) = srv_Store s \<and>
     valid_policy (reg_UVPolicy (srv_Registrar s)) \<and> valid_policy (auth_UVPolicy (srv_Authenticator s))"

definition env_ok :: "Server \<Rightarrow> world \<Rightarrow> env \<Rightarrow> bool" where
  "env_ok s w e \<longleftrightarrow> io_ok (srv_Store s) (disk w) (env_io e) \<and> io_ok (srv_Store s) (disk w) (env_io' e)"

abbreviation view :: "Server \<Rightarrow> world \<Rightarrow> (bytes \<rightharpoonup> Credential)" where
  "view s w \<equiv> store_view (srv_Store s) (disk w)"

abbreviation sound :: "Server \<Rightarrow> world \<Rightarrow> bool" where
  "sound s w \<equiv> store_ok (srv_Store s) (disk w)"

text \<open>The requests that the bodies stand for.\<close>

definition asks_login :: "request \<Rightarrow> AssertionRequest \<Rightarrow> bool" where
  "asks_login r a \<longleftrightarrow>
     (\<exists>req. Decoder_Decode loginFinish_fields zeroLoginFinish (http_Body r) = Some req \<and>
        decodeLoginFinish req = Some a)"

definition asks_registration :: "request \<Rightarrow> RegistrationRequest \<Rightarrow> bool" where
  "asks_registration r q \<longleftrightarrow>
     (\<exists>req. Decoder_Decode registerFinish_fields zeroRegisterFinish (http_Body r) = Some req \<and>
        decodeRegisterFinish req = Some q)"

section \<open>Login\<close>

lemma login_finish_success:
  assumes wf: "server_wf s" and ok: "sound s w" and env: "env_ok s w e"
    and run: "handleLoginFinish s e r w = (Inr resp, w')"
  shows "\<exists>a chal cred ad token. asks_login r a \<and>
    login_accepts (env_crypto e) (srv_Authenticator s) a (wallClock (env_io e)) w chal cred ad \<and>
    session_Issue (env_text e) (srv_Sessions s) (cred_Username cred) (UV ad) (wallClock (env_io' e)) = Inr token \<and>
    resp = writeJSON StatusOK (Some (loginFinishResponse token
      \<lparr>result_Username = cred_Username cred, result_UVPerformed = UV ad\<rparr>)) \<and>
    challenges w' = consumed_state (ar_Username a, PurposeLogin) chal (wallClock (env_io e)) (challenges w) \<and>
    sound s w' \<and> view s w' = (view s w)(ar_CredentialID a \<mapsto> cred\<lparr>cred_SignCount := SignCount ad\<rparr>)"
proof -
  obtain req a res token where h: "Decoder_Decode loginFinish_fields zeroLoginFinish (http_Body r) = Some req"
      "decodeLoginFinish req = Some a"
    and login: "Login (env_crypto e) (env_io e) (env_io' e) (srv_Authenticator s) a w = (Inr res, w')"
    and token: "session_Issue (env_text e) (srv_Sessions s) (result_Username res) (result_UVPerformed res)
        (wallClock (env_io' e)) = Inr token"
    and resp: "resp = writeJSON StatusOK (Some (loginFinishResponse token res))"
    using run by (auto simp: handleLoginFinish_def result_simps)
  have "asks_login r a" using h by (auto simp: asks_login_def)
  moreover have st: "auth_Store (srv_Authenticator s) = srv_Store s" using wf by (simp add: server_wf_def)
  moreover note Login_Inr [OF _ _ _ login, unfolded st, OF ok]
  ultimately show ?thesis
    using env token resp unfolding env_ok_def by fastforce
qed

text \<open>Whatever else a login request leads to, no credential changes but through an accepted login.\<close>

lemma session_failure_after_login:
  assumes wf: "server_wf s" and ok: "sound s w" and env: "env_ok s w e"
    and run: "handleLoginFinish s e r w = (Inl rep, w')"
  shows "sound s w' \<and> (view s w' = view s w \<or>
    (\<exists>a chal cred ad. asks_login r a \<and>
      login_accepts (env_crypto e) (srv_Authenticator s) a (wallClock (env_io e)) w chal cred ad \<and>
      view s w' = (view s w)(ar_CredentialID a \<mapsto> cred\<lparr>cred_SignCount := SignCount ad\<rparr>)))"
proof -
  have st: "auth_Store (srv_Authenticator s) = srv_Store s" using wf by (simp add: server_wf_def)
  consider "w' = w"
    | a err where "Login (env_crypto e) (env_io e) (env_io' e) (srv_Authenticator s) a w = (Inl err, w')"
    | a res where "asks_login r a"
        "Login (env_crypto e) (env_io e) (env_io' e) (srv_Authenticator s) a w = (Inr res, w')"
    using run by (auto simp: handleLoginFinish_def result_simps asks_login_def)
  then show ?thesis
  proof cases
    case (2 a err)
    show ?thesis
      using Login_Inl [OF _ _ 2, unfolded st, OF ok] env same_file_same_view [of "disk w'" "srv_Store s" "disk w"] ok
      by (auto simp: env_ok_def)
  next
    case (3 a res)
    show ?thesis
      using Login_Inr [OF _ _ _ 3(2), unfolded st, OF ok] env 3(1) unfolding env_ok_def by blast
  qed (use ok in simp)
qed

section \<open>Registration\<close>

lemma register_finish_success:
  assumes wf: "server_wf s" and ok: "sound s w" and env: "env_ok s w e"
    and run: "handleRegisterFinish s e r w = (Inr resp, w')"
  shows "resp = noContent \<and> (\<exists>q chal ad at key. asks_registration r q \<and>
    register_accepts (env_crypto e) (srv_Registrar s) q (wallClock (env_io e)) w chal ad at key \<and>
    challenges w' = consumed_state (rr_Username q, PurposeRegister) chal (wallClock (env_io e)) (challenges w) \<and>
    sound s w' \<and> view s w (CredentialID at) = None \<and>
    view s w' = (view s w)(CredentialID at \<mapsto> stamped (env_io e)
      (new_credential (rr_Username q) (rr_Nickname q) ad at key (wallClock (env_io e)))))"
proof -
  obtain q where "asks_registration r q" "resp = noContent"
    and reg: "Register (env_crypto e) (env_io e) (srv_Registrar s) q w = (Inr (), w')"
    using run by (auto simp: handleRegisterFinish_def result_simps asks_registration_def)
  moreover have st: "reg_Store (srv_Registrar s) = srv_Store s" using wf by (simp add: server_wf_def)
  moreover note Register_Inr [OF _ _ reg, unfolded st, OF ok]
  ultimately show ?thesis
    using env unfolding env_ok_def by fast
qed

lemma register_finish_failure:
  assumes wf: "server_wf s" and ok: "sound s w" and env: "env_ok s w e"
    and run: "handleRegisterFinish s e r w = (Inl rep, w')"
  shows "sound s w' \<and> view s w' = view s w"
proof -
  have st: "reg_Store (srv_Registrar s) = srv_Store s" using wf by (simp add: server_wf_def)
  consider "w' = w"
    | q err where "Register (env_crypto e) (env_io e) (srv_Registrar s) q w = (Inl err, w')"
    using run by (auto simp: handleRegisterFinish_def result_simps)
  then show ?thesis
  proof cases
    case (2 q err)
    show ?thesis
      using Register_Inl [OF _ _ 2, unfolded st, OF ok] env same_file_same_view [of "disk w'" "srv_Store s" "disk w"] ok
      by (auto simp: env_ok_def)
  qed (use ok in simp)
qed

section \<open>Credential management\<close>

lemma list_success:
  assumes ok: "sound s w" and env: "env_ok s w e"
    and run: "handleListCredentials s e r w = (Inr resp, w')"
  shows "w' = w \<and> (\<exists>claims creds. authenticate s e r = Inr claims \<and>
    resp = writeJSON StatusOK (credentialSummaries (env_text e) creds) \<and> distinct creds \<and>
    set creds = {c. view s w (cred_ID c) = Some c \<and> cred_Username c = claims_Username claims})"
proof -
  obtain claims creds where h: "authenticate s e r = Inr claims"
      "FindByUsername (env_io e) (srv_Store s) (claims_Username claims) (disk w) = Inr creds"
      "resp = writeJSON StatusOK (credentialSummaries (env_text e) creds)" "w' = w"
    using run by (auto simp: handleListCredentials_def result_simps)
  then show ?thesis
    using FindByUsername_view [OF ok _ h(2)] env by (auto simp: env_ok_def)
qed

lemma list_world: "handleListCredentials s e r w = (x, w') \<Longrightarrow> w' = w"
  by (cases x) (auto simp: handleListCredentials_def result_simps)

lemma delete_success:
  assumes ok: "sound s w" and env: "env_ok s w e"
    and run: "handleDeleteCredential s e pathID r w = (Inr resp, w')"
  shows "resp = noContent \<and> challenges w' = challenges w \<and> sound s w' \<and>
    (\<exists>claims i cred. authenticate s e r = Inr claims \<and> RawURLEncoding_DecodeString pathID = Some i \<and>
      view s w i = Some cred \<and> cred_Username cred = claims_Username claims \<and>
      view s w' = (view s w)(i := None))"
proof -
  obtain claims i cred d where h: "authenticate s e r = Inr claims" "RawURLEncoding_DecodeString pathID = Some i"
      "FindByID (env_io e) (srv_Store s) i (disk w) = Inr (Some cred)" "cred_Username cred = claims_Username claims"
      "DeleteCredential (env_io' e) (srv_Store s) i (disk w) = (Inr (), d)" "w' = w\<lparr>disk := d\<rparr>" "resp = noContent"
    using run by (auto simp: handleDeleteCredential_def result_simps Let_def split: option.splits)
  have "view s w i = Some cred" using FindByID_view [OF ok _ h(3)] env by (simp add: env_ok_def)
  then show ?thesis
    using DeleteCredential_Inr [OF ok _ h(5)] env h by (auto simp: env_ok_def)
qed

lemma delete_failure:
  assumes ok: "sound s w" and env: "env_ok s w e"
    and run: "handleDeleteCredential s e pathID r w = (Inl rep, w')"
  shows "challenges w' = challenges w \<and> sound s w' \<and> view s w' = view s w"
proof -
  consider "w' = w"
    | i err d where "DeleteCredential (env_io' e) (srv_Store s) i (disk w) = (Inl err, d)" "w' = w\<lparr>disk := d\<rparr>"
    using run by (auto simp: handleDeleteCredential_def result_simps Let_def split: option.splits)
  then show ?thesis
  proof cases
    case (2 i err d)
    then show ?thesis
      using DeleteCredential_Inl [OF ok _ 2(1)] env same_file_same_view [of d "srv_Store s" "disk w"] ok
      by (auto simp: env_ok_def untouched_def)
  qed (use ok in simp)
qed

section \<open>The two begins\<close>

lemma begins_keep_disk:
  "preserves (\<lambda>w. disk w = d) (handleRegisterBegin s e r)" "preserves (\<lambda>w. disk w = d) (handleLoginBegin s e r)"
  unfolding handleRegisterBegin_def handleLoginBegin_def Let_def
  by (auto intro!: frame_intros simp: readS_def split: prod.split)

text \<open>
  Every change that a request makes to the stored credentials, with what entitled it: the
  registration of a new one, the counter of an accepted login, the deletion by its owner.
\<close>

definition authorised_change :: "Server \<Rightarrow> env \<Rightarrow> request \<Rightarrow> world \<Rightarrow> (bytes \<rightharpoonup> Credential) \<Rightarrow> bool" where
  "authorised_change s e r w new \<longleftrightarrow>
     (\<exists>q chal ad at key. asks_registration r q \<and>
        register_accepts (env_crypto e) (srv_Registrar s) q (wallClock (env_io e)) w chal ad at key \<and>
        view s w (CredentialID at) = None \<and>
        new = (view s w)(CredentialID at \<mapsto> stamped (env_io e)
          (new_credential (rr_Username q) (rr_Nickname q) ad at key (wallClock (env_io e))))) \<or>
     (\<exists>a chal cred ad. asks_login r a \<and>
        login_accepts (env_crypto e) (srv_Authenticator s) a (wallClock (env_io e)) w chal cred ad \<and>
        new = (view s w)(ar_CredentialID a \<mapsto> cred\<lparr>cred_SignCount := SignCount ad\<rparr>)) \<or>
     (\<exists>claims i cred. authenticate s e r = Inr claims \<and> view s w i = Some cred \<and>
        cred_Username cred = claims_Username claims \<and> new = (view s w)(i := None))"

lemma authorised_change_cases:
  assumes "authorised_change s e r w new"
  obtains (registration) q chal ad at key where "asks_registration r q"
      "register_accepts (env_crypto e) (srv_Registrar s) q (wallClock (env_io e)) w chal ad at key"
      "view s w (CredentialID at) = None"
      "new = (view s w)(CredentialID at \<mapsto> stamped (env_io e)
        (new_credential (rr_Username q) (rr_Nickname q) ad at key (wallClock (env_io e))))"
  | (login) a chal cred ad where "asks_login r a"
      "login_accepts (env_crypto e) (srv_Authenticator s) a (wallClock (env_io e)) w chal cred ad"
      "new = (view s w)(ar_CredentialID a \<mapsto> cred\<lparr>cred_SignCount := SignCount ad\<rparr>)"
  | (deletion) claims i cred where "authenticate s e r = Inr claims" "view s w i = Some cred"
      "cred_Username cred = claims_Username claims" "new = (view s w)(i := None)"
  using assms unfolding authorised_change_def by blast

lemma answer_cases:
  assumes "answer m w = (rep, w')"
  obtains (refused) "m w = (Inl rep, w')" | (answered) resp where "m w = (Inr resp, w')" "rep = (resp, [])"
  using assms by (auto simp: answer_def split: prod.splits sum.splits)

lemma handle_changes:
  assumes wf: "server_wf s" and ok: "sound s w" and env: "env_ok s w e"
    and run: "handle s e r rt w = (rep, w')"
  shows "sound s w' \<and> (view s w' = view s w \<or> authorised_change s e r w (view s w'))"
proof (cases rt)
  case RegisterBegin
  then show ?thesis using run preservesD [OF begins_keep_disk(1)] ok by (auto simp: handle_def elim!: answer_cases)
next
  case RegisterFinish
  then have "answer (handleRegisterFinish s e r) w = (rep, w')" using run by (simp add: handle_def)
  then show ?thesis
  proof (cases rule: answer_cases)
    case refused
    then show ?thesis using register_finish_failure [OF wf ok env] by blast
  next
    case (answered resp)
    from register_finish_success [OF wf ok env this(1)] show ?thesis unfolding authorised_change_def by blast
  qed
next
  case LoginBegin
  then show ?thesis using run preservesD [OF begins_keep_disk(2)] ok by (auto simp: handle_def elim!: answer_cases)
next
  case LoginFinish
  then have "answer (handleLoginFinish s e r) w = (rep, w')" using run by (simp add: handle_def)
  then show ?thesis
  proof (cases rule: answer_cases)
    case refused
    then show ?thesis using session_failure_after_login [OF wf ok env] unfolding authorised_change_def by blast
  next
    case (answered resp)
    from login_finish_success [OF wf ok env this(1)] show ?thesis unfolding authorised_change_def by blast
  qed
next
  case DemoPage
  then show ?thesis using run ok by (simp add: handle_def)
next
  case ListCredentials
  then have "answer (handleListCredentials s e r) w = (rep, w')" using run by (simp add: handle_def)
  then have "w' = w" by (cases rule: answer_cases) (rule list_world, assumption)+
  then show ?thesis using ok by simp
next
  case (DeleteCredentialRoute pathID)
  then have "answer (handleDeleteCredential s e pathID r) w = (rep, w')" using run by (simp add: handle_def)
  then show ?thesis
  proof (cases rule: answer_cases)
    case refused
    then show ?thesis using delete_failure [OF ok env] by blast
  next
    case (answered resp)
    from delete_success [OF ok env this(1)] show ?thesis unfolding authorised_change_def by blast
  qed
qed

lemma Routes_changes:
  assumes "server_wf s" and "sound s w" and "env_ok s w e" and "Routes s e r w = (rep, w')"
  shows "sound s w' \<and> (view s w' = view s w \<or> authorised_change s e r w (view s w'))"
  using assms handle_changes [OF assms(1-3)] by (auto simp: Routes_def split: option.splits)

end
