(* ===== verification/Sections.thy ===== *)
theory Sections
  imports Httpapi_Correct
begin

text \<open>
  The handlers of \<open>api.go\<close> cut where Go can switch to another request: a handler locks the
  challenge store or the credential store for one operation at a time, and what it does in
  between touches nothing that another request can see.  A handler is a program of such
  locked sections; run without interruption it is the handler of \<open>Httpapi\<close>.
\<close>

section \<open>Programs of locked sections\<close>

text \<open>A program has an answer, or asks for one locked section and goes on with its result.\<close>

datatype 'r prog =
    Return 'r
  | AskIssue string Purpose "nat \<Rightarrow> bytes option" time "challenge_error + bytes \<Rightarrow> 'r prog"
  | AskConsume string Purpose bytes time "challenge_error + unit \<Rightarrow> 'r prog"
  | AskFind Store store_io bytes "store_error + Credential option \<Rightarrow> 'r prog"
  | AskList Store store_io string "store_error + Credential list \<Rightarrow> 'r prog"
  | AskStore Store store_io store_op "store_error + unit \<Rightarrow> 'r prog"

definition put_challenges :: "ChallengeStore \<Rightarrow> world \<Rightarrow> world" where
  "put_challenges c w = w\<lparr>challenges := c\<rparr>"

definition put_disk :: "fs \<Rightarrow> world \<Rightarrow> world" where
  "put_disk d w = w\<lparr>disk := d\<rparr>"

lemma put_simps [simp]:
  "challenges (put_challenges c w) = c" "disk (put_challenges c w) = disk w"
  "challenges (put_disk d w) = challenges w" "disk (put_disk d w) = d"
  by (simp_all add: put_challenges_def put_disk_def)

fun advance :: "'r prog \<Rightarrow> world \<Rightarrow> 'r prog \<times> world" where
  "advance (Return x) w = (Return x, w)"
| "advance (AskIssue u p rnd t k) w =
     (case Issue u p rnd t (challenges w) of (res, c) \<Rightarrow> (k res, put_challenges c w))"
| "advance (AskConsume u p c t k) w =
     (case Consume u p c t (challenges w) of (res, c) \<Rightarrow> (k res, put_challenges c w))"
| "advance (AskFind s io i k) w = (k (FindByID io s i (disk w)), w)"
| "advance (AskList s io u k) w = (k (FindByUsername io s u (disk w)), w)"
| "advance (AskStore s io x k) w = (case run_op io s x (disk w) of (res, d) \<Rightarrow> (k res, put_disk d w))"

text \<open>The program alone, section after section.\<close>

primrec run_alone :: "'r prog \<Rightarrow> world \<Rightarrow> 'r \<times> world" where
  "run_alone (Return x) = (\<lambda>w. (x, w))"
| "run_alone (AskIssue u p rnd t k) = (\<lambda>w.
     case Issue u p rnd t (challenges w) of (res, c) \<Rightarrow> run_alone (k res) (put_challenges c w))"
| "run_alone (AskConsume u p c t k) = (\<lambda>w.
     case Consume u p c t (challenges w) of (res, c) \<Rightarrow> run_alone (k res) (put_challenges c w))"
| "run_alone (AskFind s io i k) = (\<lambda>w. run_alone (k (FindByID io s i (disk w))) w)"
| "run_alone (AskList s io u k) = (\<lambda>w. run_alone (k (FindByUsername io s u (disk w))) w)"
| "run_alone (AskStore s io x k) = (\<lambda>w.
     case run_op io s x (disk w) of (res, d) \<Rightarrow> run_alone (k res) (put_disk d w))"

section \<open>The handlers\<close>

definition orReply :: "reply + 'a \<Rightarrow> ('a \<Rightarrow> reply prog) \<Rightarrow> reply prog" where
  "orReply m f = (case m of Inl rep \<Rightarrow> Return rep | Inr x \<Rightarrow> f x)"

definition registerBegin_prog :: "Server \<Rightarrow> env \<Rightarrow> request \<Rightarrow> reply prog" where
  "registerBegin_prog s e r =
     (let failed = refuse_logged s ''register/begin'' StatusInternalServerError ''could not start registration'' in
     orReply (someOr (Decoder_Decode registerBegin_fields \<lparr>rb_Username = []\<rparr> (http_Body r))
       (refuse StatusBadRequest ''invalid request'')) (\<lambda>req.
     orReply (failIf (rb_Username req = []) (refuse StatusBadRequest ''invalid request'')) (\<lambda>_.
     AskIssue (rb_Username req) PurposeRegister (env_rand e) (wallClock (env_io e)) (\<lambda>res.
     orReply (wrapE (\<lambda>err. failed (LogChallenge err)) res) (\<lambda>chal.
     orReply (someOr (env_rand_id e 16) (failed LogRand)) (\<lambda>userID.
     Return (writeJSON StatusOK (Some (creationOptions s (rb_Username req) userID chal)), [])))))))"

definition clientData_prog :: "string \<Rightarrow> Purpose \<Rightarrow> OriginAllowlist \<Rightarrow> string \<Rightarrow> bytes \<Rightarrow> time \<Rightarrow>
    (ceremony_error \<Rightarrow> reply) \<Rightarrow> reply prog \<Rightarrow> reply prog" where
  "clientData_prog typ purpose origins username json clock failed rest =
     orReply (wrapE failed (someOr (Unmarshal_clientData json) MalformedClientData)) (\<lambda>cd.
     orReply (wrapE failed (failIf (cd_Type cd \<noteq> typ) ClientDataType)) (\<lambda>_.
     orReply (wrapE failed (someOr (RawURLEncoding_DecodeString (cd_Challenge cd)) MalformedClientData)) (\<lambda>chal.
     AskConsume username purpose chal clock (\<lambda>res.
     orReply (wrapE (\<lambda>err. failed (FromChallenge err)) res) (\<lambda>_.
     orReply (wrapE (\<lambda>err. failed (FromPolicy err)) (CheckOrigin origins (cd_Origin cd))) (\<lambda>_. rest))))))"

definition registerFinish_prog :: "Server \<Rightarrow> env \<Rightarrow> request \<Rightarrow> reply prog" where
  "registerFinish_prog s e r =
     (let rg = srv_Registrar s; clock = wallClock (env_io e);
          failed = (\<lambda>err. refuse_logged s ''register/finish'' StatusBadRequest ''registration failed'' (LogCeremony err)) in
     orReply (someOr (Decoder_Decode registerFinish_fields zeroRegisterFinish (http_Body r))
       (refuse StatusBadRequest ''invalid request'')) (\<lambda>req.
     orReply (someOr (decodeRegisterFinish req) (refuse StatusBadRequest ''invalid request'')) (\<lambda>q.
     clientData_prog ''webauthn.create'' PurposeRegister (reg_Origins rg) (rr_Username q) (rr_ClientDataJSON q) clock failed (
     orReply (wrapE failed (checkAttestation (env_crypto e) rg q)) (\<lambda>(ad, at, key).
     AskStore (reg_Store rg) (env_io e)
       (OpAdd (new_credential (rr_Username q) (rr_Nickname q) ad at key clock)) (\<lambda>res.
     orReply (wrapE (\<lambda>err. failed (FromStore err)) res) (\<lambda>_. Return (noContent, []))))))))"

definition loginBegin_prog :: "Server \<Rightarrow> env \<Rightarrow> request \<Rightarrow> reply prog" where
  "loginBegin_prog s e r =
     (let failed = refuse_logged s ''login/begin'' StatusInternalServerError ''could not start login'';
          go = (\<lambda>challengeKey allow flowID.
            AskIssue challengeKey PurposeLogin (env_rand e) (wallClock (env_io e)) (\<lambda>res.
            orReply (wrapE (\<lambda>err. failed (LogChallenge err)) res) (\<lambda>chal.
            Return (writeJSON StatusOK (Some (requestOptions s chal allow flowID)), [])))) in
     orReply (someOr (Decoder_Decode loginBegin_fields \<lparr>lb_Username = []\<rparr> (http_Body r))
       (refuse StatusBadRequest ''invalid request'')) (\<lambda>req.
     if lb_Username req = []
     then orReply (someOr (randomFlowID e) (failed LogRand)) (\<lambda>flowID. go flowID [] flowID)
     else AskList (srv_Store s) (env_io e) (lb_Username req) (\<lambda>res.
       orReply (wrapE (\<lambda>err. failed (LogStore err)) res) (\<lambda>creds. go (lb_Username req) creds []))))"

text \<open>The last section of a login and what follows it; the two before; the whole handler.\<close>

definition loginCommit_prog :: "Server \<Rightarrow> env \<Rightarrow> (ceremony_error \<Rightarrow> reply) \<Rightarrow> AssertionRequest \<Rightarrow>
    Credential \<Rightarrow> AuthData \<Rightarrow> bool \<Rightarrow> reply prog" where
  "loginCommit_prog s e failed a cred ad uvPerformed =
     AskStore (auth_Store (srv_Authenticator s)) (env_io' e) (OpSetCount (ar_CredentialID a) (SignCount ad)) (\<lambda>res.
     orReply (wrapE (\<lambda>err. failed (FromStore err)) res) (\<lambda>_.
     let result = \<lparr>result_Username = cred_Username cred, result_UVPerformed = uvPerformed\<rparr> in
     orReply (wrapE
       (\<lambda>err. refuse_logged s ''login/finish'' StatusInternalServerError ''could not issue session'' (LogSession err))
       (session_Issue (env_text e) (srv_Sessions s) (result_Username result) (result_UVPerformed result)
         (wallClock (env_io' e)))) (\<lambda>token.
     Return (writeJSON StatusOK (Some (loginFinishResponse token result)), []))))"

definition loginChecks_prog :: "Server \<Rightarrow> env \<Rightarrow> (ceremony_error \<Rightarrow> reply) \<Rightarrow> AssertionRequest \<Rightarrow> reply prog" where
  "loginChecks_prog s e failed a =
     (let au = srv_Authenticator s in
     AskFind (auth_Store au) (env_io e) (ar_CredentialID a) (\<lambda>res.
     orReply (wrapE (\<lambda>err. failed (FromStore err)) res) (\<lambda>found.
     orReply (wrapE failed (someOr found CredentialNotFound)) (\<lambda>cred.
     orReply (wrapE failed (checkAuthData (auth_RPID au) (auth_UVPolicy au) (ar_UVOverride a)
       (ar_AuthenticatorData a))) (\<lambda>(ad, uvPerformed).
     orReply (wrapE failed (checkAssertion (env_crypto e) a cred ad)) (\<lambda>_.
     loginCommit_prog s e failed a cred ad uvPerformed))))))"

definition loginFinish_prog :: "Server \<Rightarrow> env \<Rightarrow> request \<Rightarrow> reply prog" where
  "loginFinish_prog s e r =
     (let failed = (\<lambda>err. refuse_logged s ''login/finish'' StatusUnauthorized ''login failed'' (LogCeremony err)) in
     orReply (someOr (Decoder_Decode loginFinish_fields zeroLoginFinish (http_Body r))
       (refuse StatusBadRequest ''invalid request'')) (\<lambda>req.
     orReply (someOr (decodeLoginFinish req) (refuse StatusBadRequest ''invalid request'')) (\<lambda>a.
     clientData_prog ''webauthn.get'' PurposeLogin (auth_Origins (srv_Authenticator s)) (ar_Username a)
       (ar_ClientDataJSON a) (wallClock (env_io e)) failed (loginChecks_prog s e failed a))))"

definition listCredentials_prog :: "Server \<Rightarrow> env \<Rightarrow> request \<Rightarrow> reply prog" where
  "listCredentials_prog s e r =
     orReply (wrapE (\<lambda>_. refuse StatusUnauthorized ''authentication required'') (authenticate s e r)) (\<lambda>claims.
     AskList (srv_Store s) (env_io e) (claims_Username claims) (\<lambda>res.
     orReply (wrapE (\<lambda>err. refuse_logged s ''credentials/list'' StatusInternalServerError
       ''could not list credentials'' (LogStore err)) res) (\<lambda>creds.
     Return (writeJSON StatusOK (credentialSummaries (env_text e) creds), []))))"

definition deleteCredential_prog :: "Server \<Rightarrow> env \<Rightarrow> string \<Rightarrow> request \<Rightarrow> reply prog" where
  "deleteCredential_prog s e pathID r =
     (let failed = (\<lambda>err. refuse_logged s ''credentials/delete'' StatusInternalServerError
            ''could not delete credential'' (LogStore err)) in
     orReply (wrapE (\<lambda>_. refuse StatusUnauthorized ''authentication required'') (authenticate s e r)) (\<lambda>claims.
     orReply (someOr (RawURLEncoding_DecodeString pathID) (refuse StatusBadRequest ''invalid credential id'')) (\<lambda>credID.
     AskFind (srv_Store s) (env_io e) credID (\<lambda>res.
     orReply (wrapE failed res) (\<lambda>found.
     orReply (failIf (case found of None \<Rightarrow> True | Some cred \<Rightarrow> cred_Username cred \<noteq> claims_Username claims)
       (refuse StatusNotFound ''credential not found'')) (\<lambda>_.
     AskStore (srv_Store s) (env_io' e) (OpDelete credID) (\<lambda>res.
     orReply (wrapE failed res) (\<lambda>_. Return (noContent, [])))))))))"

definition handle_prog :: "Server \<Rightarrow> env \<Rightarrow> request \<Rightarrow> route \<Rightarrow> reply prog" where
  "handle_prog s e r rt =
     (case rt of
        RegisterBegin \<Rightarrow> registerBegin_prog s e r
      | RegisterFinish \<Rightarrow> registerFinish_prog s e r
      | LoginBegin \<Rightarrow> loginBegin_prog s e r
      | LoginFinish \<Rightarrow> loginFinish_prog s e r
      | DemoPage \<Rightarrow> Return (handleDemoPage s e)
      | ListCredentials \<Rightarrow> listCredentials_prog s e r
      | DeleteCredentialRoute pathID \<Rightarrow> deleteCredential_prog s e pathID r)"

definition Routes_prog :: "Server \<Rightarrow> env \<Rightarrow> request \<Rightarrow> reply prog" where
  "Routes_prog s e r =
     (case map_of (route_of (http_Path r)) (http_Method r) of
        Some rt \<Rightarrow> handle_prog s e r rt
      | None \<Rightarrow> Return
          (if route_of (http_Path r) = [] then plainError StatusNotFound ''404 page not found''
           else plainError StatusMethodNotAllowed ''Method Not Allowed'', []))"

section \<open>Without interruption\<close>

lemma run_orReply [simp]:
  "run_alone (orReply m f) w = (case m of Inl rep \<Rightarrow> (rep, w) | Inr x \<Rightarrow> run_alone (f x) w)"
  by (simp add: orReply_def split: sum.split)

lemmas op_defs = answer_def bindS_def liftS_def onS_def returnS_def readS_def wrapE_def put_challenges_def put_disk_def

lemma registerBegin_alone: "run_alone (registerBegin_prog s e r) w = answer (handleRegisterBegin s e r) w"
  by (simp add: registerBegin_prog_def handleRegisterBegin_def op_defs Let_def split: sum.split prod.split)

lemma listCredentials_alone: "run_alone (listCredentials_prog s e r) w = answer (handleListCredentials s e r) w"
  by (simp add: listCredentials_prog_def handleListCredentials_def op_defs Let_def split: sum.split prod.split)

lemma deleteCredential_alone:
  "run_alone (deleteCredential_prog s e pathID r) w = answer (handleDeleteCredential s e pathID r) w"
  by (simp add: deleteCredential_prog_def handleDeleteCredential_def op_defs Let_def split: sum.split prod.split)

lemma loginBegin_alone: "run_alone (loginBegin_prog s e r) w = answer (handleLoginBegin s e r) w"
  by (simp add: loginBegin_prog_def handleLoginBegin_def op_defs bindE_def Let_def split: sum.split prod.split)

lemma run_clientData:
  "run_alone (clientData_prog typ p origins u json t failed rest) w =
     (case checkClientData typ p origins u json t w of
        (Inl err, w') \<Rightarrow> (failed err, w')
      | (Inr _, w') \<Rightarrow> run_alone rest w')"
  by (simp add: clientData_prog_def checkClientData_def on_challenges_def op_defs split: sum.split prod.split)

lemma registerFinish_alone: "run_alone (registerFinish_prog s e r) w = answer (handleRegisterFinish s e r) w"
  by (simp add: registerFinish_prog_def handleRegisterFinish_def Register_def on_disk_def run_clientData op_defs Let_def
      split: sum.split prod.split)

lemma loginFinish_alone: "run_alone (loginFinish_prog s e r) w = answer (handleLoginFinish s e r) w"
  by (auto simp add: loginFinish_prog_def loginChecks_prog_def loginCommit_prog_def handleLoginFinish_def Login_def Login_checks_def Login_commit_def on_disk_def
      run_clientData op_defs Let_def split: sum.split prod.split)

lemma Routes_alone: "run_alone (Routes_prog s e r) w = Routes s e r w"
  by (simp add: Routes_prog_def Routes_def handle_prog_def handle_def registerBegin_alone registerFinish_alone
      loginBegin_alone loginFinish_alone listCredentials_alone deleteCredential_alone split: option.split route.split)

end
