(* ===== verification/Server_Run.thy ===== *)
theory Server_Run
  imports Httpapi_Correct
begin

text \<open>
  Histories of requests.  A run starts with an empty store and no pending challenge and
  serves requests one after the other, in any order and with any environment; its trace
  keeps, newest first, each request with the world that it met and the response it got.
\<close>

type_synonym served = "world \<times> env \<times> request \<times> response"

inductive server_run :: "Server \<Rightarrow> world \<Rightarrow> served list \<Rightarrow> bool" for s where
  start: "challenges w = NewChallengeStore \<Longrightarrow> sound s w \<Longrightarrow> view s w = Map.empty \<Longrightarrow> server_run s w []"
| serve: "server_run s w tr \<Longrightarrow> env_ok s w e \<Longrightarrow> Routes s e r w = ((resp, log), w') \<Longrightarrow>
    server_run s w' ((w, e, r, resp) # tr)"

inductive_cases server_run_ConsE: "server_run s w' ((w, e, r, resp) # tr)"

definition routed :: "request \<Rightarrow> route \<Rightarrow> bool" where
  "routed r rt \<longleftrightarrow> map_of (route_of (http_Path r)) (http_Method r) = Some rt"

text \<open>A begin request: the challenge it makes pending, for which user (or flow) and purpose, and when.\<close>

definition begins :: "env \<Rightarrow> request \<Rightarrow> string \<Rightarrow> Purpose \<Rightarrow> bytes \<Rightarrow> time \<Rightarrow> bool" where
  "begins e r k p c t0 \<longleftrightarrow> env_rand e ChallengeLength = Some c \<and> t0 = wallClock (env_io e) \<and>
     (routed r RegisterBegin \<and> p = PurposeRegister \<and> k \<noteq> [] \<and>
        Decoder_Decode registerBegin_fields \<lparr>rb_Username = []\<rparr> (http_Body r) = Some \<lparr>rb_Username = k\<rparr> \<or>
      routed r LoginBegin \<and> p = PurposeLogin \<and>
        (\<exists>req. Decoder_Decode loginBegin_fields \<lparr>lb_Username = []\<rparr> (http_Body r) = Some req \<and>
           (if lb_Username req = [] then randomFlowID e = Some k else k = lb_Username req)))"

section \<open>Pending challenges come from begin requests\<close>

definition pending_ok :: "(string \<Rightarrow> Purpose \<Rightarrow> bytes \<Rightarrow> time \<Rightarrow> bool) \<Rightarrow> ChallengeStore \<Rightarrow> bool" where
  "pending_ok Q cs \<longleftrightarrow> now cs = (\<lambda>t. t) \<and> ttl cs = ChallengeTTL \<and>
     (\<forall>k p c t0. pending cs (k, p) = Some \<lparr>challenge = c, issuedAt = t0\<rparr> \<longrightarrow> Q k p c t0)"

lemma pending_ok_Consume: "pending_ok Q cs \<Longrightarrow> pending_ok Q (snd (Consume u p got t cs))"
proof -
  assume ok: "pending_ok Q cs"
  have "pending (snd (Consume u p got t cs)) k = (if k = (u, p) then None else pending cs k)" for k
    using Consume_removes [of u p got t cs] Consume_frame [of k u p got t cs] by auto
  then show ?thesis using ok by (auto simp: pending_ok_def)
qed

lemma pending_ok_Issue:
  assumes ok: "pending_ok Q cs" and new: "\<And>c. rnd ChallengeLength = Some c \<Longrightarrow> Q u p c t"
  shows "pending_ok Q (snd (Issue u p rnd t cs))"
proof (cases "Issue u p rnd t cs")
  case (Pair r cs')
  show ?thesis
  proof (cases r)
    case (Inl e)
    then have "cs' = cs" using Pair by (auto simp: Issue_def Let_def split: option.splits)
    then show ?thesis using ok Pair by simp
  next
    case (Inr b)
    note I = Issue_pending [OF Pair [unfolded Inr]] Issue_frame [OF Pair [unfolded Inr]]
    have "Q k p' c t0" if "pending cs' (k, p') = Some \<lparr>challenge = c, issuedAt = t0\<rparr>" for k p' c t0
      using that I ok new by (cases "(k, p') = (u, p)") (auto simp: pending_ok_def)
    then show ?thesis using I(1) ok Pair by (simp add: pending_ok_def)
  qed
qed

lemma pending_ok_mono: "pending_ok Q cs \<Longrightarrow> (\<And>k p c t. Q k p c t \<Longrightarrow> Q' k p c t) \<Longrightarrow> pending_ok Q' cs"
  by (simp add: pending_ok_def)

abbreviation pending_in :: "(string \<Rightarrow> Purpose \<Rightarrow> bytes \<Rightarrow> time \<Rightarrow> bool) \<Rightarrow> world \<Rightarrow> bool" where
  "pending_in Q w \<equiv> pending_ok Q (challenges w)"

lemma checkClientData_pending [frame_intros]: "preserves (pending_in Q) (checkClientData typ p origins u json t)"
  unfolding checkClientData_def on_challenges_def
  by (auto intro!: frame_intros pending_ok_Consume)

lemma ceremonies_pending [frame_intros]:
  "preserves (pending_in Q) (Register cr io rg q)" "preserves (pending_in Q) (Login cr io io' a req)"
  unfolding Register_def Login_def Login_checks_def Login_commit_def on_disk_def
  by (auto intro!: frame_intros split: prod.split)

lemma handlers_pending:
  "preserves (pending_in Q) (handleRegisterFinish s e r)" "preserves (pending_in Q) (handleLoginFinish s e r)"
  "preserves (pending_in Q) (handleListCredentials s e r)" "preserves (pending_in Q) (handleDeleteCredential s e pid r)"
  unfolding handleRegisterFinish_def handleLoginFinish_def handleListCredentials_def handleDeleteCredential_def Let_def
  by (intro frame_intros; simp)+

lemma register_begin_pending:
  assumes "\<And>k c. begins e r k PurposeRegister c (wallClock (env_io e)) \<Longrightarrow> Q k PurposeRegister c (wallClock (env_io e))"
    and "routed r RegisterBegin"
  shows "preserves (pending_in Q) (handleRegisterBegin s e r)"
  unfolding handleRegisterBegin_def
proof (intro preserves_bind_liftS, goal_cases)
  case (1 req u)
  show ?case
  proof (intro frame_intros)
    fix w
    assume "pending_in Q w"
    moreover have "rb_Username req \<noteq> []" "req = \<lparr>rb_Username = rb_Username req\<rparr>"
        "Decoder_Decode registerBegin_fields \<lparr>rb_Username = []\<rparr> (http_Body r) = Some req"
      using 1 by (simp_all add: result_simps)
    then have "begins e r (rb_Username req) PurposeRegister c (wallClock (env_io e))" if "env_rand e ChallengeLength = Some c" for c
      using that assms(2) by (simp add: begins_def)
    ultimately show "pending_in Q (w\<lparr>challenges := snd (Issue (rb_Username req) PurposeRegister (env_rand e)
        (wallClock (env_io e)) (challenges w))\<rparr>)"
      using assms(1) by (auto intro!: pending_ok_Issue)
  qed
qed

lemma login_begin_pending:
  assumes new: "\<And>k c. begins e r k PurposeLogin c (wallClock (env_io e)) \<Longrightarrow> Q k PurposeLogin c (wallClock (env_io e))"
    and rt: "routed r LoginBegin"
  shows "preserves (pending_in Q) (handleLoginBegin s e r)"
  unfolding handleLoginBegin_def Let_def
proof (rule preserves_bind_liftS)
  fix req :: loginBeginRequest
  let ?key = "if lb_Username req = []
    then liftS (bindE (someOr (randomFlowID e) (refuse_logged s ''login/begin'' StatusInternalServerError
      ''could not start login'' LogRand)) (\<lambda>flowID. Inr (flowID, [])))
    else bindS (onS disk (\<lambda>d w. w\<lparr>disk := d\<rparr>) (\<lambda>err. refuse_logged s ''login/begin'' StatusInternalServerError
      ''could not start login'' (LogStore err)) (readS (FindByUsername (env_io e) (srv_Store s) (lb_Username req))))
      (\<lambda>creds. returnS (lb_Username req, creds)) :: (string \<times> Credential list) handling"
  let ?rest = "\<lambda>(challengeKey, allow). bindS (onS challenges (\<lambda>c w. w\<lparr>challenges := c\<rparr>)
      (\<lambda>err. refuse_logged s ''login/begin'' StatusInternalServerError ''could not start login'' (LogChallenge err))
      (Issue challengeKey PurposeLogin (env_rand e) (wallClock (env_io e)))) (\<lambda>chal.
      returnS (writeJSON StatusOK (Some (requestOptions s chal allow
        (if lb_Username req = [] then challengeKey else []))))) :: response handling"
  assume "someOr (Decoder_Decode loginBegin_fields \<lparr>lb_Username = []\<rparr> (http_Body r))
      (refuse StatusBadRequest ''invalid request'') = Inr req"
  then have req: "Decoder_Decode loginBegin_fields \<lparr>lb_Username = []\<rparr> (http_Body r) = Some req"
    by (simp add: result_simps)
  have "preserves (pending_in Q) ?key" by (auto intro!: frame_intros simp: readS_def)
  moreover have "preserves (pending_in Q) (?rest ka)" if "?key w = (Inr ka, w')" for w ka w'
  proof (cases ka)
    case (Pair k allow)
    have "if lb_Username req = [] then randomFlowID e = Some k else k = lb_Username req"
      using that Pair by (auto simp: result_simps split: if_splits)
    then have "begins e r k PurposeLogin c (wallClock (env_io e))" if "env_rand e ChallengeLength = Some c" for c
      using req rt that by (simp add: begins_def)
    then show ?thesis using new by (auto simp: Pair intro!: frame_intros pending_ok_Issue)
  qed
  ultimately show "preserves (pending_in Q) (bindS ?key ?rest)" by (rule preserves_bindS_result)
qed

lemma answer_preserves: "preserves P m \<Longrightarrow> answer m w = (rep, w') \<Longrightarrow> P w \<Longrightarrow> P w'"
  by (auto elim!: answer_cases dest: preservesD)

lemma Routes_pending:
  assumes run: "Routes s e r w = (rep, w')" and ok: "pending_in Q w"
    and new: "\<And>k p c t0. begins e r k p c t0 \<Longrightarrow> Q k p c t0"
  shows "pending_in Q w'"
proof (cases "map_of (route_of (http_Path r)) (http_Method r)")
  case None
  then show ?thesis using run ok by (simp add: Routes_def)
next
  case (Some rt)
  then have rt: "routed r rt" and run: "handle s e r rt w = (rep, w')" using run by (simp_all add: routed_def Routes_def)
  show ?thesis
    using rt run ok new
      answer_preserves [OF register_begin_pending [of e r Q s]] answer_preserves [OF login_begin_pending [of e r Q s]]
      answer_preserves [OF handlers_pending(1)] answer_preserves [OF handlers_pending(2)]
      answer_preserves [OF handlers_pending(3)] answer_preserves [OF handlers_pending(4)]
    by (cases rt) (auto simp: handle_def)
qed

lemma server_run_pending:
  "server_run s w tr \<Longrightarrow> pending_in (\<lambda>k p c t0. \<exists>(w0, e0, r0, resp0) \<in> set tr. begins e0 r0 k p c t0) w"
proof (induction rule: server_run.induct)
  case (start w)
  then show ?case by (simp add: pending_ok_def NewChallengeStore_def)
next
  case (serve w tr e r resp log w')
  have "pending_in (\<lambda>k p c t0. \<exists>(w0, e0, r0, resp0) \<in> set ((w, e, r, resp) # tr). begins e0 r0 k p c t0) w"
    using serve.IH by (rule pending_ok_mono) auto
  then show ?case by (rule Routes_pending [OF serve.hyps(3)]) auto
qed

section \<open>Stored credentials come from registrations\<close>

lemma server_run_sound: "server_run s w tr \<Longrightarrow> server_wf s \<Longrightarrow> sound s w"
  by (induction rule: server_run.induct) (use Routes_changes in blast)+

text \<open>The registration that a credential stems from: everything but its counter is as it was accepted.\<close>

fun registered_by :: "Server \<Rightarrow> served \<Rightarrow> bytes \<Rightarrow> Credential \<Rightarrow> bool" where
  "registered_by s (w0, e0, r0, resp0) i c \<longleftrightarrow>
     (\<exists>q chal ad at key n. asks_registration r0 q \<and>
        register_accepts (env_crypto e0) (srv_Registrar s) q (wallClock (env_io e0)) w0 chal ad at key \<and>
        i = CredentialID at \<and>
        c = (stamped (env_io e0) (new_credential (rr_Username q) (rr_Nickname q) ad at key
          (wallClock (env_io e0))))\<lparr>cred_SignCount := n\<rparr>)"

lemma registered_by_counter: "registered_by s x i c \<Longrightarrow> registered_by s x i (c\<lparr>cred_SignCount := n\<rparr>)"
  by (cases x) (auto, blast)

declare registered_by.simps [simp del]

lemma server_run_registered:
  "server_run s w tr \<Longrightarrow> server_wf s \<Longrightarrow> view s w i = Some c \<Longrightarrow> \<exists>x \<in> set tr. registered_by s x i c"
proof (induction arbitrary: i c rule: server_run.induct)
  case (start w)
  then show ?case by simp
next
  case (serve w tr e r resp log w')
  have old: "\<exists>x \<in> set ((w, e, r, resp) # tr). registered_by s x i c" if "view s w i = Some c" for i c
    using serve.IH serve.prems(1) that by auto
  from Routes_changes [OF serve.prems(1) server_run_sound [OF serve.hyps(1) serve.prems(1)] serve.hyps(2,3)]
  consider "view s w' = view s w" | "authorised_change s e r w (view s w')" by blast
  then show ?case
  proof cases
    case 1
    then show ?thesis using old serve.prems(2) by simp
  next
    case 2
    then show ?thesis
    proof (cases rule: authorised_change_cases)
      case (registration q chal ad at key)
      let ?c = "stamped (env_io e) (new_credential (rr_Username q) (rr_Nickname q) ad at key (wallClock (env_io e)))"
      have "?c = ?c\<lparr>cred_SignCount := cred_SignCount ?c\<rparr>" by simp
      then have "registered_by s (w, e, r, resp) (CredentialID at) ?c"
        using registration(1,2) unfolding registered_by.simps by blast
      then show ?thesis using registration(4) old serve.prems(2) by (auto split: if_splits)
    next
      case (login a chal cred ad)
      then have "view s w (ar_CredentialID a) = Some cred"
        using serve.prems(1) by (simp add: login_accepts_def server_wf_def)
      then obtain x where "x \<in> set ((w, e, r, resp) # tr)" "registered_by s x (ar_CredentialID a) cred"
        using old by blast
      then show ?thesis
        using login(3) old serve.prems(2) registered_by_counter [of s x "ar_CredentialID a" cred "SignCount ad"]
        by (metis fun_upd_apply option.inject)
    next
      case (deletion claims j cred)
      then show ?thesis using old serve.prems(2) by (auto split: if_splits)
    qed
  qed
qed

section \<open>A token traces back to a begin and a registration\<close>

lemma server_run_suffix:
  "server_run s w (pre @ (w1, e, r, resp) # rest) \<Longrightarrow>
     server_run s w1 rest \<and> env_ok s w1 e \<and> (\<exists>log w'. Routes s e r w1 = ((resp, log), w'))"
proof (induction pre arbitrary: w)
  case Nil
  then show ?case by (auto elim!: server_run_ConsE)
next
  case (Cons x pre)
  obtain wx ex rx respx where "x = (wx, ex, rx, respx)" by (cases x)
  then show ?case using Cons by (auto elim!: server_run_ConsE)
qed

lemma token_origin:
  assumes wf: "server_wf s" and run: "server_run s w (pre @ (w1, e, r, resp) # rest)"
    and rt: "routed r LoginFinish" and ok: "resp_Status resp = StatusOK"
  shows "\<exists>a chal cred ad token. asks_login r a \<and>
    login_accepts (env_crypto e) (srv_Authenticator s) a (wallClock (env_io e)) w1 chal cred ad \<and>
    session_Issue (env_text e) (srv_Sessions s) (cred_Username cred) (UV ad) (wallClock (env_io' e)) = Inr token \<and>
    resp = writeJSON StatusOK (Some (loginFinishResponse token
      \<lparr>result_Username = cred_Username cred, result_UVPerformed = UV ad\<rparr>)) \<and>
    (\<exists>(w0, e0, r0, resp0) \<in> set rest. \<exists>t0. begins e0 r0 (ar_Username a) PurposeLogin chal t0 \<and>
       wallClock (env_io e) - t0 \<le> ChallengeTTL) \<and>
    (\<exists>x \<in> set rest. registered_by s x (ar_CredentialID a) cred)"
proof -
  obtain log w' where before: "server_run s w1 rest" "env_ok s w1 e" and routes: "Routes s e r w1 = ((resp, log), w')"
    using server_run_suffix [OF run] by blast
  have "answer (handleLoginFinish s e r) w1 = ((resp, log), w')"
    using routes rt by (simp add: Routes_def routed_def handle_def)
  moreover have "success resp" using ok by (simp add: success_def)
  ultimately have "handleLoginFinish s e r w1 = (Inr resp, w')"
    using handler_refusals(4) refusals_fail by (auto elim!: answer_cases)
  from login_finish_success [OF wf server_run_sound [OF before(1) wf] before(2) this]
  obtain a chal cred ad token where h: "asks_login r a"
      "login_accepts (env_crypto e) (srv_Authenticator s) a (wallClock (env_io e)) w1 chal cred ad"
      "session_Issue (env_text e) (srv_Sessions s) (cred_Username cred) (UV ad) (wallClock (env_io' e)) = Inr token"
      "resp = writeJSON StatusOK (Some (loginFinishResponse token
        \<lparr>result_Username = cred_Username cred, result_UVPerformed = UV ad\<rparr>))"
    by blast
  have st: "auth_Store (srv_Authenticator s) = srv_Store s" using wf by (simp add: server_wf_def)
  have red: "redeemable (ar_Username a, PurposeLogin) chal (wallClock (env_io e)) (challenges w1)"
    and cred: "view s w1 (ar_CredentialID a) = Some cred"
    using h(2) st by (simp_all add: login_accepts_def)
  obtain t0 where t0: "pending (challenges w1) (ar_Username a, PurposeLogin) = Some \<lparr>challenge = chal, issuedAt = t0\<rparr>"
      "now (challenges w1) (wallClock (env_io e)) - t0 \<le> ttl (challenges w1)"
    using red by (auto simp: redeemable_iff outstanding_Some)
  have "\<exists>(w0, e0, r0, resp0) \<in> set rest. begins e0 r0 (ar_Username a) PurposeLogin chal t0"
      "wallClock (env_io e) - t0 \<le> ChallengeTTL"
    using server_run_pending [OF before(1)] t0 by (auto simp: pending_ok_def)
  then have "\<exists>(w0, e0, r0, resp0) \<in> set rest. \<exists>t0. begins e0 r0 (ar_Username a) PurposeLogin chal t0 \<and>
      wallClock (env_io e) - t0 \<le> ChallengeTTL" by blast
  moreover have "\<exists>x \<in> set rest. registered_by s x (ar_CredentialID a) cred"
    using server_run_registered [OF before(1) wf cred] .
  ultimately show ?thesis using h by blast
qed

end
