(* ===== verification/Interleaving.thy ===== *)
theory Interleaving
  imports Sections Server_Run
begin

text \<open>
  Requests that run at the same time.  Each is a thread that runs the program of its
  handler; a step runs the next locked section of one thread, with whatever its environment
  yields, and new requests arrive at any time.  The trace keeps, newest first, each section
  with the thread that ran it and the world that it met.
\<close>

section \<open>Threads and traces\<close>

record thread =
  th_env :: env
  th_request :: request
  th_prog :: "reply prog"

record locked =
  lk_thread :: nat
  lk_env :: env
  lk_request :: request
  lk_prog :: "reply prog"
  lk_world :: world

text \<open>A section can run unless the program has ended; its file operations meet a suitable disk.\<close>

fun may_run :: "'r prog \<Rightarrow> world \<Rightarrow> bool" where
  "may_run (Return x) w = False"
| "may_run (AskFind st io i k) w = io_ok st (disk w) io"
| "may_run (AskList st io u k) w = io_ok st (disk w) io"
| "may_run (AskStore st io x k) w = io_ok st (disk w) io"
| "may_run p w = True"

inductive interleaved :: "Server \<Rightarrow> world \<Rightarrow> world \<Rightarrow> thread list \<Rightarrow> locked list \<Rightarrow> bool" for s w0 where
  start: "challenges w0 = NewChallengeStore \<Longrightarrow> sound s w0 \<Longrightarrow> view s w0 = Map.empty \<Longrightarrow> interleaved s w0 w0 [] []"
| arrive: "interleaved s w0 w ts tr \<Longrightarrow>
    interleaved s w0 w (ts @ [\<lparr>th_env = e, th_request = r, th_prog = Routes_prog s e r\<rparr>]) tr"
| step: "interleaved s w0 w ts tr \<Longrightarrow> i < length ts \<Longrightarrow> ts ! i = th \<Longrightarrow> may_run (th_prog th) w \<Longrightarrow>
    advance (th_prog th) w = (p', w') \<Longrightarrow>
    interleaved s w0 w' (ts[i := th\<lparr>th_prog := p'\<rparr>])
      (\<lparr>lk_thread = i, lk_env = th_env th, lk_request = th_request th, lk_prog = th_prog th, lk_world = w\<rparr> # tr)"

section \<open>The history of one thread\<close>

fun follow :: "'r prog \<Rightarrow> world list \<Rightarrow> 'r prog" where
  "follow p [] = p"
| "follow p (w # ws) = follow (fst (advance p w)) ws"

lemma follow_snoc: "follow p (ws @ [w]) = fst (advance (follow p ws) w)"
  by (induction p ws rule: follow.induct) auto

text \<open>What holds of every program that a thread can get to, with the worlds of the sections before.\<close>

primrec all_paths :: "(world list \<Rightarrow> 'r prog \<Rightarrow> bool) \<Rightarrow> 'r prog \<Rightarrow> world list \<Rightarrow> bool" where
  "all_paths Q (Return x) = (\<lambda>ws. Q ws (Return x))"
| "all_paths Q (AskIssue u p rnd t k) = (\<lambda>ws. Q ws (AskIssue u p rnd t k) \<and>
     (\<forall>w. all_paths Q (k (fst (Issue u p rnd t (challenges w)))) (ws @ [w])))"
| "all_paths Q (AskConsume u p c t k) = (\<lambda>ws. Q ws (AskConsume u p c t k) \<and>
     (\<forall>w. all_paths Q (k (fst (Consume u p c t (challenges w)))) (ws @ [w])))"
| "all_paths Q (AskFind s io i k) = (\<lambda>ws. Q ws (AskFind s io i k) \<and>
     (\<forall>w. io_ok s (disk w) io \<longrightarrow> all_paths Q (k (FindByID io s i (disk w))) (ws @ [w])))"
| "all_paths Q (AskList s io u k) = (\<lambda>ws. Q ws (AskList s io u k) \<and>
     (\<forall>w. io_ok s (disk w) io \<longrightarrow> all_paths Q (k (FindByUsername io s u (disk w))) (ws @ [w])))"
| "all_paths Q (AskStore s io x k) = (\<lambda>ws. Q ws (AskStore s io x k) \<and>
     (\<forall>w. io_ok s (disk w) io \<longrightarrow> all_paths Q (k (fst (run_op io s x (disk w)))) (ws @ [w])))"

lemma all_paths_here: "all_paths Q p ws \<Longrightarrow> Q ws p"
  by (cases p) auto

lemma all_paths_advance:
  assumes "all_paths Q p ws" and "may_run p w"
  shows "all_paths Q (fst (advance p w)) (ws @ [w])"
proof (cases p)
  case (AskIssue u p rnd t k)
  then show ?thesis using assms by (cases "Issue u p rnd t (challenges w)") (auto dest: spec [of _ w])
next
  case (AskConsume u p c t k)
  then show ?thesis using assms by (cases "Consume u p c t (challenges w)") (auto dest: spec [of _ w])
next
  case (AskStore s io x k)
  then show ?thesis using assms by (cases "run_op io s x (disk w)") (auto dest: spec [of _ w])
qed (use assms in auto)

definition of_thread :: "nat \<Rightarrow> locked list \<Rightarrow> locked list" where
  "of_thread i tr = filter (\<lambda>x. lk_thread x = i) tr"

definition worlds_of :: "nat \<Rightarrow> locked list \<Rightarrow> world list" where
  "worlds_of i tr = rev (map lk_world (of_thread i tr))"

lemma worlds_of_Cons:
  "worlds_of i (x # tr) = (if lk_thread x = i then worlds_of i tr @ [lk_world x] else worlds_of i tr)"
  by (simp add: worlds_of_def of_thread_def)

lemma interleaved_threads: "interleaved s w0 w ts tr \<Longrightarrow> x \<in> set tr \<Longrightarrow> lk_thread x < length ts"
  by (induction rule: interleaved.induct) auto

lemma worlds_of_new: "interleaved s w0 w ts tr \<Longrightarrow> worlds_of (length ts) tr = []"
  using interleaved_threads [of s w0 w ts tr] by (fastforce simp: worlds_of_def of_thread_def filter_empty_conv)

text \<open>
  Whatever holds along every path of each handler's program holds of each thread, with the
  worlds that its own sections met.
\<close>

lemma interleaved_paths:
  assumes paths: "\<And>e r. all_paths (Q e r) (Routes_prog s e r) []"
  shows "interleaved s w0 w ts tr \<Longrightarrow> i < length ts \<Longrightarrow>
    all_paths (Q (th_env (ts ! i)) (th_request (ts ! i))) (th_prog (ts ! i)) (worlds_of i tr)"
proof (induction arbitrary: i rule: interleaved.induct)
  case start
  then show ?case by simp
next
  case (arrive w ts tr e r)
  then show ?case using paths worlds_of_new [OF arrive.hyps] by (auto simp: nth_append less_Suc_eq)
next
  case (step w ts tr j th p' w')
  then show ?case
    using all_paths_advance [of "Q (th_env th) (th_request th)" "th_prog th" "worlds_of j tr" w] step.IH [of j]
    by (cases "i = j") (auto simp: worlds_of_Cons nth_list_update)
qed

lemma interleaved_section:
  assumes "interleaved s w0 w ts (post @ x # pre)"
  shows "\<exists>ts'. interleaved s w0 (lk_world x) ts' pre \<and> lk_thread x < length ts' \<and>
    ts' ! lk_thread x = \<lparr>th_env = lk_env x, th_request = lk_request x, th_prog = lk_prog x\<rparr> \<and>
    may_run (lk_prog x) (lk_world x)"
  using assms
proof (induction "post @ x # pre" arbitrary: post rule: interleaved.induct)
  case (step w ts tr i th p' w')
  show ?case
  proof (cases post)
    case Nil
    then show ?thesis using step by (intro exI [of _ ts]) auto
  next
    case (Cons y ys)
    then show ?thesis using step by auto
  qed
qed auto

end
