(* ===== verification/Concurrent.thy ===== *)
theory Concurrent
  imports Interleaving
begin

text \<open>
  What holds however requests interleave: each store sees a sequence of its own operations,
  every section of a handler runs only after the checks that entitle it, so a token still
  traces back to a begin request and a registration, and every stored credential to one.
\<close>

section \<open>What entitles a section\<close>

text \<open>The checks of a login, with the worlds in which its challenge and its credential were read.\<close>

definition login_at :: "Server \<Rightarrow> env \<Rightarrow> request \<Rightarrow> world \<Rightarrow> world \<Rightarrow> AssertionRequest \<Rightarrow> bytes \<Rightarrow> Credential \<Rightarrow> AuthData \<Rightarrow> bool" where
  "login_at s e r w1 w2 a chal cred ad \<longleftrightarrow> asks_login r a \<and>
     client_data_ok ''webauthn.get'' (auth_Origins (srv_Authenticator s)) (ar_ClientDataJSON a) chal \<and>
     redeemable (ar_Username a, PurposeLogin) chal (wallClock (env_io e)) (challenges w1) \<and>
     io_ok (srv_Store s) (disk w2) (env_io e) \<and>
     FindByID (env_io e) (srv_Store s) (ar_CredentialID a) (disk w2) = Inr (Some cred) \<and>
     authdata_accepts (auth_RPID (srv_Authenticator s)) (auth_UVPolicy (srv_Authenticator s)) (ar_UVOverride a)
       (ar_AuthenticatorData a) ad \<and>
     checkAssertion (env_crypto e) a cred ad = Inr ()"

definition register_at :: "Server \<Rightarrow> env \<Rightarrow> request \<Rightarrow> world \<Rightarrow> RegistrationRequest \<Rightarrow> bytes \<Rightarrow> AuthData \<Rightarrow>
    AttestedCredentialData \<Rightarrow> Key \<Rightarrow> bool" where
  "register_at s e r w1 q chal ad at key \<longleftrightarrow> asks_registration r q \<and>
     register_accepts (env_crypto e) (srv_Registrar s) q (wallClock (env_io e)) w1 chal ad at key"

definition new_credential_of :: "env \<Rightarrow> RegistrationRequest \<Rightarrow> AuthData \<Rightarrow> AttestedCredentialData \<Rightarrow> Key \<Rightarrow> Credential" where
  "new_credential_of e q ad at key = new_credential (rr_Username q) (rr_Nickname q) ad at key (wallClock (env_io e))"

definition token_reply :: "Server \<Rightarrow> env \<Rightarrow> Credential \<Rightarrow> AuthData \<Rightarrow> string \<Rightarrow> response \<Rightarrow> bool" where
  "token_reply s e cred ad token resp \<longleftrightarrow>
     session_Issue (env_text e) (srv_Sessions s) (cred_Username cred) (UV ad) (wallClock (env_io' e)) = Inr token \<and>
     resp = writeJSON StatusOK (Some (loginFinishResponse token
       \<lparr>result_Username = cred_Username cred, result_UVPerformed = UV ad\<rparr>))"

fun entitled :: "Server \<Rightarrow> env \<Rightarrow> request \<Rightarrow> world list \<Rightarrow> reply prog \<Rightarrow> bool" where
  "entitled s e r ws (Return rep) \<longleftrightarrow>
     (routed r LoginFinish \<and> resp_Status (fst rep) = StatusOK \<longrightarrow>
        (\<exists>w1 w2 w3 a chal cred ad token. ws = [w1, w2, w3] \<and> login_at s e r w1 w2 a chal cred ad \<and>
           io_ok (srv_Store s) (disk w3) (env_io' e) \<and>
           fst (run_op (env_io' e) (srv_Store s) (OpSetCount (ar_CredentialID a) (SignCount ad)) (disk w3)) = Inr () \<and>
           token_reply s e cred ad token (fst rep)))"
| "entitled s e r ws (AskIssue k p rnd t next) \<longleftrightarrow>
     t = wallClock (env_io e) \<and> (\<forall>c. rnd ChallengeLength = Some c \<longrightarrow> begins e r k p c t)"
| "entitled s e r ws (AskConsume k p c t next) \<longleftrightarrow> t = wallClock (env_io e)"
| "entitled s e r ws (AskFind st io i next) \<longleftrightarrow> st = srv_Store s \<and> io = env_io e"
| "entitled s e r ws (AskList st io u next) \<longleftrightarrow> st = srv_Store s \<and> io = env_io e"
| "entitled s e r ws (AskStore st io (OpAdd c) next) \<longleftrightarrow> st = srv_Store s \<and> io = env_io e \<and>
     (\<exists>w1 q chal ad at key. ws = [w1] \<and> register_at s e r w1 q chal ad at key \<and> c = new_credential_of e q ad at key)"
| "entitled s e r ws (AskStore st io (OpSetCount i n) next) \<longleftrightarrow> st = srv_Store s \<and> io = env_io' e \<and>
     (\<exists>w1 w2 a chal cred ad. ws = [w1, w2] \<and> login_at s e r w1 w2 a chal cred ad \<and>
        i = ar_CredentialID a \<and> n = SignCount ad)"
| "entitled s e r ws (AskStore st io (OpDelete i) next) \<longleftrightarrow> st = srv_Store s \<and> io = env_io' e \<and>
     (\<exists>w1 claims cred. ws = [w1] \<and> authenticate s e r = Inr claims \<and> io_ok (srv_Store s) (disk w1) (env_io e) \<and>
        FindByID (env_io e) (srv_Store s) i (disk w1) = Inr (Some cred) \<and> cred_Username cred = claims_Username claims)"

lemma all_paths_orReply:
  assumes "\<And>rep. m = Inl rep \<Longrightarrow> Q ws (Return rep)" and "\<And>x. m = Inr x \<Longrightarrow> all_paths Q (f x) ws"
  shows "all_paths Q (orReply m f) ws"
  using assms by (cases m) (simp_all add: orReply_def)

lemma all_paths_clientData:
  assumes fail: "\<And>ws err. Q ws (Return (failed err))" and ask: "\<And>c k. Q ws (AskConsume u p c t k)"
    and rest: "\<And>w chal. client_data_ok typ origins json chal \<Longrightarrow> redeemable (u, p) chal t (challenges w) \<Longrightarrow>
      all_paths Q rest (ws @ [w])"
  shows "all_paths Q (clientData_prog typ p origins u json t failed rest) ws"
  unfolding clientData_prog_def
  using assms
  by (intro all_paths_orReply)
    (auto simp: result_simps client_data_ok_def redeemable_def intro!: all_paths_orReply)

lemma refused_status:
  "resp_Status (fst (refuse n msg)) = n" "resp_Status (fst (refuse_logged s what n msg err)) = n"
  by (simp_all add: refuse_def refuse_logged_def writeError_def writeJSON_def)

lemma refused_entitled:
  "n \<noteq> StatusOK \<Longrightarrow> entitled s e r ws (Return (refuse n msg))"
  "n \<noteq> StatusOK \<Longrightarrow> entitled s e r ws (Return (refuse_logged s what n msg err))"
  by (simp_all add: refused_status)

lemma not_ok [simp]:
  "StatusBadRequest \<noteq> StatusOK" "StatusUnauthorized \<noteq> StatusOK" "StatusNotFound \<noteq> StatusOK"
  "StatusMethodNotAllowed \<noteq> StatusOK" "StatusInternalServerError \<noteq> StatusOK" "StatusNoContent \<noteq> StatusOK"
  by (simp_all add: status_defs)

lemma other_route: "routed r rt \<Longrightarrow> rt \<noteq> LoginFinish \<Longrightarrow> \<not> routed r LoginFinish"
  by (simp add: routed_def)

lemma Inl_entitled: "\<not> routed r LoginFinish \<Longrightarrow> entitled s e r ws (Return rep)"
  by simp

lemma registerFinish_paths:
  assumes wf: "server_wf s" and rt: "\<not> routed r LoginFinish"
  shows "all_paths (entitled s e r) (registerFinish_prog s e r) []"
proof -
  have st: "reg_Store (srv_Registrar s) = srv_Store s" using wf by (simp add: server_wf_def)
  have q: "all_paths (entitled s e r)
      (orReply (wrapE failed (checkAttestation (env_crypto e) (srv_Registrar s) q)) (\<lambda>(ad, at, key).
       AskStore (reg_Store (srv_Registrar s)) (env_io e) (OpAdd (new_credential (rr_Username q) (rr_Nickname q) ad at key
         (wallClock (env_io e)))) (\<lambda>res. orReply (wrapE failed' res) (\<lambda>_. Return (noContent, []))))) [w]"
    if "asks_registration r q" and "client_data_ok ''webauthn.create'' (reg_Origins (srv_Registrar s)) (rr_ClientDataJSON q) chal"
      and "redeemable (rr_Username q, PurposeRegister) chal (wallClock (env_io e)) (challenges w)"
    for failed :: "ceremony_error \<Rightarrow> reply" and failed' q chal w
  proof (rule all_paths_orReply)
    fix x
    assume "wrapE failed (checkAttestation (env_crypto e) (srv_Registrar s) q) = Inr x"
    then obtain ad at key where x: "x = (ad, at, key)" "checkAttestation (env_crypto e) (srv_Registrar s) q = Inr (ad, at, key)"
      by (cases x) (auto simp: result_simps)
    then have reg: "register_at s e r w q chal ad at key"
      using that unfolding register_at_def register_accepts_def checkAttestation_Inr by blast
    have "entitled s e r [w] (AskStore (srv_Store s) (env_io e) (OpAdd (new_credential_of e q ad at key)) k)" for k
      using reg by simp blast
    then show "all_paths (entitled s e r) (case x of (ad, at, key) \<Rightarrow> AskStore (reg_Store (srv_Registrar s)) (env_io e)
        (OpAdd (new_credential (rr_Username q) (rr_Nickname q) ad at key (wallClock (env_io e))))
        (\<lambda>res. orReply (wrapE failed' res) (\<lambda>_. Return (noContent, [])))) [w]"
      using rt by (simp add: x(1) st new_credential_of_def all_paths_orReply)
  qed (use rt in simp)
  show ?thesis
    unfolding registerFinish_prog_def Let_def
    by (rule all_paths_orReply; (rule all_paths_orReply)?; (rule all_paths_clientData)?)
      (use rt in \<open>auto simp: result_simps asks_registration_def intro!: q\<close>)
qed

lemma registerBegin_paths:
  assumes "routed r RegisterBegin"
  shows "all_paths (entitled s e r) (registerBegin_prog s e r) []"
  unfolding registerBegin_prog_def Let_def
  by (rule all_paths_orReply; (rule all_paths_orReply)?)
    (use assms other_route [OF assms] in \<open>auto simp: result_simps begins_def intro!: all_paths_orReply\<close>)

lemma loginBegin_paths:
  assumes "routed r LoginBegin"
  shows "all_paths (entitled s e r) (loginBegin_prog s e r) []"
  unfolding loginBegin_prog_def Let_def
  by (rule all_paths_orReply)
    (use assms other_route [OF assms] in \<open>auto simp: result_simps begins_def intro!: all_paths_orReply\<close>)

lemma listCredentials_paths:
  assumes "\<not> routed r LoginFinish"
  shows "all_paths (entitled s e r) (listCredentials_prog s e r) []"
  unfolding listCredentials_prog_def
  by (rule all_paths_orReply) (use assms in \<open>auto intro!: all_paths_orReply\<close>)

lemma deleteCredential_paths:
  assumes "\<not> routed r LoginFinish"
  shows "all_paths (entitled s e r) (deleteCredential_prog s e pathID r) []"
  unfolding deleteCredential_prog_def Let_def
  by (rule all_paths_orReply; (rule all_paths_orReply)?)
    (use assms in \<open>auto simp: result_simps split: option.splits intro!: all_paths_orReply\<close>)

lemma loginCommit_paths:
  assumes wf: "server_wf s" and fail: "\<And>err. resp_Status (fst (failed err)) \<noteq> StatusOK"
    and at: "login_at s e r w1 w2 a chal cred ad"
  shows "all_paths (entitled s e r) (loginCommit_prog s e failed a cred ad (UV ad)) [w1, w2]"
proof -
  have st: "auth_Store (srv_Authenticator s) = srv_Store s" using wf by (simp add: server_wf_def)
  have "entitled s e r [w1, w2] (AskStore (srv_Store s) (env_io' e) (OpSetCount (ar_CredentialID a) (SignCount ad)) k)" for k
    using at by simp blast
  moreover have "entitled s e r [w1, w2, w3] (Return (writeJSON StatusOK (Some (loginFinishResponse token
      \<lparr>result_Username = cred_Username cred, result_UVPerformed = UV ad\<rparr>)), []))"
    if "io_ok (srv_Store s) (disk w3) (env_io' e)"
      "fst (run_op (env_io' e) (srv_Store s) (OpSetCount (ar_CredentialID a) (SignCount ad)) (disk w3)) = Inr ()"
      "session_Issue (env_text e) (srv_Sessions s) (cred_Username cred) (UV ad) (wallClock (env_io' e)) = Inr token" for w3 token
    using at that by (simp add: token_reply_def) blast
  moreover have "entitled s e r ws (Return (failed err))" for ws err using fail by simp
  ultimately show ?thesis
    unfolding loginCommit_prog_def Let_def st
    by (auto simp: result_simps refused_entitled simp del: entitled.simps intro!: all_paths_orReply)
qed

lemma loginChecks_paths:
  assumes wf: "server_wf s" and fail: "\<And>err. resp_Status (fst (failed err)) \<noteq> StatusOK"
    and a: "asks_login r a" "client_data_ok ''webauthn.get'' (auth_Origins (srv_Authenticator s)) (ar_ClientDataJSON a) chal"
      "redeemable (ar_Username a, PurposeLogin) chal (wallClock (env_io e)) (challenges w1)"
  shows "all_paths (entitled s e r) (loginChecks_prog s e failed a) [w1]"
proof -
  have st: "auth_Store (srv_Authenticator s) = srv_Store s" using wf by (simp add: server_wf_def)
  have "all_paths (entitled s e r) (loginCommit_prog s e failed a cred ad uv) [w1, w2]"
    if "io_ok (srv_Store s) (disk w2) (env_io e)"
      "FindByID (env_io e) (srv_Store s) (ar_CredentialID a) (disk w2) = Inr (Some cred)"
      "checkAuthData (auth_RPID (srv_Authenticator s)) (auth_UVPolicy (srv_Authenticator s)) (ar_UVOverride a)
         (ar_AuthenticatorData a) = Inr (ad, uv)"
      "checkAssertion (env_crypto e) a cred ad = Inr ()" for w2 cred ad uv
  proof -
    have "login_at s e r w1 w2 a chal cred ad" "uv = UV ad"
      using a that by (simp_all add: login_at_def checkAuthData_Inr)
    then show ?thesis using loginCommit_paths [OF wf fail, of e r w1 w2 a chal cred ad] by simp
  qed
  moreover have "entitled s e r ws (Return (failed err))" for ws err using fail by simp
  moreover have "entitled s e r ws (AskFind (srv_Store s) (env_io e) i k)" for ws i k by simp
  ultimately show ?thesis
    unfolding loginChecks_prog_def Let_def st
    by (auto simp: result_simps simp del: entitled.simps intro!: all_paths_orReply)
qed

lemma loginFinish_paths:
  assumes "server_wf s"
  shows "all_paths (entitled s e r) (loginFinish_prog s e r) []"
  unfolding loginFinish_prog_def Let_def
  by (rule all_paths_orReply; (rule all_paths_orReply)?; (rule all_paths_clientData)?)
    (auto simp: result_simps asks_login_def refused_status intro!: loginChecks_paths [OF assms])

lemma Routes_paths:
  assumes "server_wf s"
  shows "all_paths (entitled s e r) (Routes_prog s e r) []"
proof (cases "map_of (route_of (http_Path r)) (http_Method r)")
  case None
  then show ?thesis by (simp add: Routes_prog_def routed_def)
next
  case (Some rt)
  then have rt: "routed r rt" by (simp add: routed_def)
  then show ?thesis
    using assms Some other_route [OF rt]
    by (cases rt) (simp_all add: Routes_prog_def handle_prog_def registerBegin_paths registerFinish_paths loginBegin_paths
        loginFinish_paths listCredentials_paths deleteCredential_paths)
qed

section \<open>Every section is entitled\<close>

lemma thread_entitled:
  assumes "server_wf s" and "interleaved s w0 w ts tr" and "i < length ts"
  shows "entitled s (th_env (ts ! i)) (th_request (ts ! i)) (worlds_of i tr) (th_prog (ts ! i))"
  by (rule all_paths_here, rule interleaved_paths [OF Routes_paths [OF assms(1)] assms(2,3)])

lemma section_entitled:
  assumes "server_wf s" and "interleaved s w0 w ts (post @ x # pre)"
  shows "entitled s (lk_env x) (lk_request x) (worlds_of (lk_thread x) pre) (lk_prog x) \<and> may_run (lk_prog x) (lk_world x) \<and>
    (\<exists>ts'. interleaved s w0 (lk_world x) ts' pre)"
proof -
  obtain ts' where t: "interleaved s w0 (lk_world x) ts' pre" "lk_thread x < length ts'"
      "ts' ! lk_thread x = \<lparr>th_env = lk_env x, th_request = lk_request x, th_prog = lk_prog x\<rparr>"
      "may_run (lk_prog x) (lk_world x)"
    using interleaved_section [OF assms(2)] by blast
  then show ?thesis using thread_entitled [OF assms(1) t(1,2)] by auto
qed

section \<open>Each store sees its own operations, one after the other\<close>

fun challenge_part :: "'r prog \<Rightarrow> world \<Rightarrow> challenge_event list" where
  "challenge_part (AskIssue u p rnd t k) w =
     (case fst (Issue u p rnd t (challenges w)) of Inr b \<Rightarrow> [Issued u p b t] | Inl _ \<Rightarrow> [])"
| "challenge_part (AskConsume u p c t k) w =
     (case fst (Consume u p c t (challenges w)) of Inr _ \<Rightarrow> [Redeemed u p c t] | Inl _ \<Rightarrow> [Rejected u p])"
| "challenge_part _ w = []"

fun store_part :: "'r prog \<Rightarrow> store_op list" where
  "store_part (AskStore st io x k) = [x]"
| "store_part _ = []"

text \<open>The history of challenges is newest first, the sequence of store operations oldest first.\<close>

definition challenge_history :: "locked list \<Rightarrow> challenge_event list" where
  "challenge_history tr = concat (map (\<lambda>x. challenge_part (lk_prog x) (lk_world x)) tr)"

definition store_history :: "locked list \<Rightarrow> store_op list" where
  "store_history tr = concat (map (\<lambda>x. store_part (lk_prog x)) (rev tr))"

lemma history_Nil [simp]: "challenge_history [] = []" "store_history [] = []"
  by (simp_all add: challenge_history_def store_history_def)

lemma history_Cons [simp]:
  "challenge_history (x # tr) = challenge_part (lk_prog x) (lk_world x) @ challenge_history tr"
  "store_history (x # tr) = store_history tr @ store_part (lk_prog x)"
  by (simp_all add: challenge_history_def store_history_def)

lemma challenge_step:
  assumes "challenge_run (challenges w) h" and "advance p w = (p', w')"
  shows "challenge_run (challenges w') (challenge_part p w @ h)"
proof (cases p)
  case (AskIssue u pu rnd t k)
  obtain res c where i: "Issue u pu rnd t (challenges w) = (res, c)" by fastforce
  then have "challenges w' = c" using assms(2) AskIssue by auto
  then show ?thesis
    using AskIssue i challenge_run.issue [OF assms(1)] challenge_run.issue_failed [OF assms(1)] by (cases res) auto
next
  case (AskConsume u pu ch t k)
  obtain res c where i: "Consume u pu ch t (challenges w) = (res, c)" by fastforce
  then have "challenges w' = c" using assms(2) AskConsume by auto
  then show ?thesis
    using AskConsume i challenge_run.consume [OF assms(1)] challenge_run.consume_failed [OF assms(1)] by (cases res) auto
qed (use assms in \<open>auto split: prod.splits\<close>)

lemma store_step:
  assumes "store_run st d0 xs (disk w)" and "advance p w = (p', w')" and "may_run p w"
    and "\<And>st' io x k. p = AskStore st' io x k \<Longrightarrow> st' = st"
  shows "store_run st d0 (xs @ store_part p) (disk w')"
proof (cases p)
  case (AskStore st' io x k)
  obtain res d where r: "run_op io st x (disk w) = (res, d)" by fastforce
  have "st' = st" using assms(4) AskStore by blast
  then show ?thesis using assms(2,3) AskStore r store_run.one_more [OF assms(1)] by auto
qed (use assms in \<open>auto split: prod.splits\<close>)

lemma entitled_store: "entitled s e r ws (AskStore st io x k) \<Longrightarrow> st = srv_Store s"
  by (cases x) auto

lemma interleaved_projects:
  assumes "server_wf s"
  shows "interleaved s w0 w ts tr \<Longrightarrow>
    challenge_run (challenges w) (challenge_history tr) \<and> store_run (srv_Store s) (disk w0) (store_history tr) (disk w)"
proof (induction rule: interleaved.induct)
  case start
  then show ?case by (simp add: challenge_run.start store_run.none)
next
  case (step w ts tr i th p' w')
  have "entitled s (th_env th) (th_request th) (worlds_of i tr) (th_prog th)"
    using thread_entitled [OF assms step.hyps(1,2)] step.hyps(3) by simp
  then have "st' = srv_Store s" if "th_prog th = AskStore st' io x k" for st' io x k
    using that entitled_store by metis
  then show ?case
    using step.IH challenge_step [OF _ step.hyps(5)] store_step [OF _ step.hyps(5,4)] by simp
qed

lemma interleaved_start: "interleaved s w0 w ts tr \<Longrightarrow> sound s w0 \<and> view s w0 = Map.empty"
  by (induction rule: interleaved.induct) auto

lemma interleaved_sound: "server_wf s \<Longrightarrow> interleaved s w0 w ts tr \<Longrightarrow> sound s w"
  using interleaved_projects interleaved_start store_run_ok by blast

section \<open>Challenges come from begin requests\<close>

lemma issued_begins:
  assumes wf: "server_wf s" and run: "interleaved s w0 w ts tr" and i: "Issued u p c t \<in> set (challenge_history tr)"
  shows "\<exists>x \<in> set tr. begins (lk_env x) (lk_request x) u p c t"
proof -
  obtain x where x: "x \<in> set tr" "Issued u p c t \<in> set (challenge_part (lk_prog x) (lk_world x))"
    using i by (auto simp: challenge_history_def)
  obtain post pre where tr: "tr = post @ x # pre" using split_list [OF x(1)] by blast
  have e: "entitled s (lk_env x) (lk_request x) (worlds_of (lk_thread x) pre) (lk_prog x)"
    using section_entitled [OF wf run [unfolded tr]] by blast
  obtain rnd k where p: "lk_prog x = AskIssue u p rnd t k" "fst (Issue u p rnd t (challenges (lk_world x))) = Inr c"
    using x(2) by (cases "lk_prog x") (auto split: sum.splits)
  then have "rnd ChallengeLength = Some c" by (auto simp: Issue_def Let_def split: option.splits)
  then show ?thesis using e p(1) x(1) by auto
qed

lemma redeemable_origin:
  assumes wf: "server_wf s" and run: "interleaved s w0 w ts tr" and red: "redeemable (u, p) c t (challenges w)"
  shows "\<exists>x \<in> set tr. \<exists>t0. begins (lk_env x) (lk_request x) u p c t0 \<and> t - t0 \<le> ChallengeTTL"
proof -
  have ch: "challenge_run (challenges w) (challenge_history tr)" using interleaved_projects [OF wf run] by blast
  obtain t0 where t0: "pending (challenges w) (u, p) = Some \<lparr>challenge = c, issuedAt = t0\<rparr>" "t - t0 \<le> ChallengeTTL"
    using red challenge_run_inv [OF ch] by (auto simp: redeemable_iff outstanding_Some)
  then have "latest (u, p) (challenge_history tr) = Some (Issued u p c t0)" using challenge_run_inv [OF ch] by blast
  then have "Issued u p c t0 \<in> set (challenge_history tr)" by (auto simp: latest_def find_Some_iff)
  then show ?thesis using issued_begins [OF wf run] t0(2) by blast
qed

section \<open>Stored credentials come from registrations\<close>

text \<open>The section that consumed the challenge of the registration, with what it accepted.\<close>

definition registered_in :: "Server \<Rightarrow> locked \<Rightarrow> bytes \<Rightarrow> Credential \<Rightarrow> bool" where
  "registered_in s x i c \<longleftrightarrow>
     (\<exists>q chal ad at key n. register_at s (lk_env x) (lk_request x) (lk_world x) q chal ad at key \<and> i = CredentialID at \<and>
        c = (stamped (env_io (lk_env x)) (new_credential_of (lk_env x) q ad at key))\<lparr>cred_SignCount := n\<rparr>)"

lemma registered_in_counter: "registered_in s x i c \<Longrightarrow> registered_in s x i (c\<lparr>cred_SignCount := n\<rparr>)"
  unfolding registered_in_def by fastforce

lemma sections_of_thread:
  "interleaved s w0 w ts tr \<Longrightarrow> x \<in> set tr \<Longrightarrow>
    lk_env x = th_env (ts ! lk_thread x) \<and> lk_request x = th_request (ts ! lk_thread x)"
proof (induction rule: interleaved.induct)
  case (arrive w ts tr e r)
  then show ?case using interleaved_threads [OF arrive.hyps, of x] by (simp add: nth_append)
next
  case (step w ts tr i th p' w')
  then show ?case by (auto simp: nth_list_update)
qed simp

lemma one_section:
  assumes run: "interleaved s w0 w ts tr" and ws: "worlds_of i tr = [w1]"
  shows "\<exists>x \<in> set tr. lk_thread x = i \<and> lk_world x = w1 \<and> lk_env x = th_env (ts ! i) \<and> lk_request x = th_request (ts ! i)"
proof -
  obtain x where x: "of_thread i tr = [x]" "lk_world x = w1"
    using ws by (auto simp: worlds_of_def map_eq_Cons_conv)
  then have "x \<in> set (of_thread i tr)" by simp
  then have "x \<in> set tr" "lk_thread x = i" by (auto simp: of_thread_def)
  then show ?thesis using sections_of_thread [OF run] x(2) by blast
qed

lemma step_registered:
  assumes wf: "server_wf s" and run: "interleaved s w0 w ts tr" and i: "i < length ts" "ts ! i = th"
    and adv: "may_run (th_prog th) w" "advance (th_prog th) w = (p', w')"
    and old: "\<And>j c. view s w j = Some c \<Longrightarrow> \<exists>x \<in> set tr. registered_in s x j c" and new: "view s w' j = Some c"
  shows "\<exists>x \<in> set tr. registered_in s x j c"
proof (cases "th_prog th")
  case (AskStore st io x k)
  have e: "entitled s (th_env th) (th_request th) (worlds_of i tr) (AskStore st io x k)"
    using thread_entitled [OF wf run i(1)] i(2) AskStore by simp
  then have st: "st = srv_Store s" by (rule entitled_store)
  have io: "io_ok (srv_Store s) (disk w) io" using adv(1) AskStore st by simp
  have ok: "sound s w" using wf run by (rule interleaved_sound)
  obtain res d where r: "run_op io (srv_Store s) x (disk w) = (res, d)" by fastforce
  then have d: "disk w' = d" using adv(2) AskStore st by auto
  show ?thesis
  proof (cases res)
    case (Inl err)
    then have "view s w' = view s w" using st.exec_failure [OF ok io] r d by auto
    then show ?thesis using old new by simp
  next
    case (Inr u)
    then have v: "enabled x (view s w)" "view s w' = effect io x (view s w)"
      using st.exec_success [OF ok io] r d by auto
    show ?thesis
    proof (cases x)
      case (OpAdd c')
      then obtain w1 q chal ad at key where h: "worlds_of i tr = [w1]" "register_at s (th_env th) (th_request th) w1 q chal ad at key"
          "c' = new_credential_of (th_env th) q ad at key" "io = env_io (th_env th)"
        using e by auto
      obtain y where y: "y \<in> set tr" "lk_world y = w1" "lk_env y = th_env th" "lk_request y = th_request th"
        using one_section [OF run h(1)] i(2) by auto
      have "stamped io c' = (stamped io c')\<lparr>cred_SignCount := cred_SignCount (stamped io c')\<rparr>" by simp
      then have "registered_in s y (CredentialID at) (stamped io c')"
        using h y unfolding registered_in_def by metis
      moreover have "cred_ID c' = CredentialID at" by (simp add: h(3) new_credential_of_def new_credential_def)
      ultimately show ?thesis using v(2) OpAdd old new y(1) by (auto split: if_splits)
    next
      case (OpSetCount a n)
      show ?thesis
      proof (cases "a = j")
        case True
        then obtain c' where "view s w j = Some c'" "c = c'\<lparr>cred_SignCount := n\<rparr>" using v(2) OpSetCount new by auto
        then show ?thesis using old registered_in_counter by blast
      next
        case False
        then show ?thesis using v(2) OpSetCount old new by simp
      qed
    next
      case (OpDelete a)
      then show ?thesis using v(2) old new by (auto split: if_splits)
    qed
  qed
qed (use adv old new in \<open>auto split: prod.splits\<close>)

lemma interleaved_registered:
  assumes "server_wf s"
  shows "interleaved s w0 w ts tr \<Longrightarrow> view s w j = Some c \<Longrightarrow> \<exists>x \<in> set tr. registered_in s x j c"
proof (induction arbitrary: j c rule: interleaved.induct)
  case start
  then show ?case by simp
next
  case (arrive w ts tr e r)
  then show ?case by blast
next
  case (step w ts tr i th p' w')
  have "\<exists>x \<in> set tr. registered_in s x j c"
    by (rule step_registered [OF assms step.hyps(1-5) step.IH step.prems])
  then show ?case by auto
qed

section \<open>A token traces back to a begin and a registration\<close>

lemma of_thread_ConsD:
  "of_thread i tr = x # rest \<Longrightarrow> \<exists>post pre. tr = post @ x # pre \<and> lk_thread x = i \<and> of_thread i pre = rest"
  unfolding of_thread_def by (drule filter_eq_ConsD) blast

lemma login_at_accepts:
  assumes wf: "server_wf s" and at: "login_at s e r w1 w2 a chal cred ad" and ok: "sound s w2"
  shows "login_accepts (env_crypto e) (srv_Authenticator s) a (wallClock (env_io e)) (w1\<lparr>disk := disk w2\<rparr>) chal cred ad"
proof -
  have "auth_Store (srv_Authenticator s) = srv_Store s" using wf by (simp add: server_wf_def)
  then show ?thesis
    using at FindByID_view [OF ok, of "env_io e" "ar_CredentialID a" "Some cred"]
    by (auto simp: login_at_def login_accepts_def checkAssertion_Inr)
qed

lemma concurrent_token:
  assumes wf: "server_wf s" and run: "interleaved s w0 w ts tr" and i: "i < length ts" "ts ! i = th"
    and rt: "routed (th_request th) LoginFinish" and p: "th_prog th = Return rep" and ok: "resp_Status (fst rep) = StatusOK"
  shows "\<exists>post x3 mid x2 mid' x1 pre a chal cred ad token.
    tr = post @ x3 # mid @ x2 # mid' @ x1 # pre \<and> lk_thread x1 = i \<and> lk_thread x2 = i \<and> lk_thread x3 = i \<and>
    asks_login (th_request th) a \<and>
    login_accepts (env_crypto (th_env th)) (srv_Authenticator s) a (wallClock (env_io (th_env th)))
      ((lk_world x1)\<lparr>disk := disk (lk_world x2)\<rparr>) chal cred ad \<and>
    view s (lk_world x3) (ar_CredentialID a) \<noteq> None \<and> token_reply s (th_env th) cred ad token (fst rep) \<and>
    (\<exists>x \<in> set pre. \<exists>t0. begins (lk_env x) (lk_request x) (ar_Username a) PurposeLogin chal t0 \<and>
       wallClock (env_io (th_env th)) - t0 \<le> ChallengeTTL) \<and>
    (\<exists>x \<in> set (mid' @ x1 # pre). registered_in s x (ar_CredentialID a) cred)"
proof -
  obtain w1 w2 w3 a chal cred ad token where h: "worlds_of i tr = [w1, w2, w3]"
      "login_at s (th_env th) (th_request th) w1 w2 a chal cred ad" "io_ok (srv_Store s) (disk w3) (env_io' (th_env th))"
      "fst (run_op (env_io' (th_env th)) (srv_Store s) (OpSetCount (ar_CredentialID a) (SignCount ad)) (disk w3)) = Inr ()"
      "token_reply s (th_env th) cred ad token (fst rep)"
    using thread_entitled [OF wf run i(1)] i(2) rt ok by (auto simp: p)
  obtain x1 x2 x3 where x: "of_thread i tr = [x3, x2, x1]" "lk_world x1 = w1" "lk_world x2 = w2" "lk_world x3 = w3"
    using h(1) by (auto simp: worlds_of_def map_eq_Cons_conv rev_eq_Cons_iff)
  obtain post q3 where t3: "tr = post @ x3 # q3" "lk_thread x3 = i" "of_thread i q3 = [x2, x1]"
    using of_thread_ConsD [OF x(1)] by blast
  obtain mid q2 where t2: "q3 = mid @ x2 # q2" "lk_thread x2 = i" "of_thread i q2 = [x1]"
    using of_thread_ConsD [OF t3(3)] by blast
  obtain mid' pre where t1: "q2 = mid' @ x1 # pre" "lk_thread x1 = i"
    using of_thread_ConsD [OF t2(3)] by blast
  obtain ts3 where r3: "interleaved s w0 w3 ts3 q3"
    using section_entitled [OF wf, of w0 w ts post x3 q3] run t3(1) x(4) by auto
  obtain ts2 where r2: "interleaved s w0 w2 ts2 q2"
    using section_entitled [OF wf, of w0 w3 ts3 mid x2 q2] r3 t2(1) x(3) by auto
  obtain ts1 where r1: "interleaved s w0 w1 ts1 pre"
    using section_entitled [OF wf, of w0 w2 ts2 mid' x1 pre] r2 t1(1) x(2) by auto
  have acc: "login_accepts (env_crypto (th_env th)) (srv_Authenticator s) a (wallClock (env_io (th_env th)))
      (w1\<lparr>disk := disk w2\<rparr>) chal cred ad"
    using login_at_accepts [OF wf h(2) interleaved_sound [OF wf r2]] .
  have "auth_Store (srv_Authenticator s) = srv_Store s" using wf by (simp add: server_wf_def)
  then have "view s w2 (ar_CredentialID a) = Some cred" using acc by (simp add: login_accepts_def)
  then have "\<exists>x \<in> set q2. registered_in s x (ar_CredentialID a) cred" by (rule interleaved_registered [OF wf r2])
  moreover have "\<exists>x \<in> set pre. \<exists>t0. begins (lk_env x) (lk_request x) (ar_Username a) PurposeLogin chal t0 \<and>
      wallClock (env_io (th_env th)) - t0 \<le> ChallengeTTL"
    using h(2) by (intro redeemable_origin [OF wf r1]) (simp add: login_at_def)
  moreover have "view s w3 (ar_CredentialID a) \<noteq> None"
  proof (cases "run_op (env_io' (th_env th)) (srv_Store s) (OpSetCount (ar_CredentialID a) (SignCount ad)) (disk w3)")
    case (Pair res d)
    then have "run_op (env_io' (th_env th)) (srv_Store s) (OpSetCount (ar_CredentialID a) (SignCount ad)) (disk w3) = (Inr (), d)"
      using h(4) by simp
    from st.exec_success [OF interleaved_sound [OF wf r3] h(3) this] show ?thesis by simp
  qed
  moreover have "asks_login (th_request th) a" using h(2) by (simp add: login_at_def)
  ultimately show ?thesis
    using acc h(5) t3(1,2) t2(1,2) t1 x(2-4) by (auto intro!: exI)
qed

end
