(* ===== verification/Http_Flow.thy ===== *)
theory Http_Flow
  imports Server_Run
begin

text \<open>
  The whole passkey flow over HTTP: a user registers the virtual authenticator and logs in
  with it through the four endpoints, with the JSON bodies that a client sends, and the
  token in the last response verifies to that user.
\<close>

section \<open>Request bodies\<close>

lemma Decoder_Decode_object:
  assumes "list_all (\<lambda>(k, e, v). scans v e) ms" and "ms \<noteq> []"
  shows "Decoder_Decode fds zero (Marshal_object (encoded ms)) = set_members fds (parsed ms) zero"
  using scan_value_object [OF assms, of "[]"] by (simp add: Decoder_Decode_def parse_stream_def set_struct_def)

lemma set_members_field:
  assumes "distinct (map fst fds)" and "k \<in> fst ` set fds" and "ascii_name k"
  shows "set_members fds ((quote (bytes_of_string k), v) # ms) s =
    Option.bind (the (map_of fds k) v s) (set_members fds ms)"
proof -
  obtain f where f: "(k, f) \<in> set fds" using assms(2) by auto
  have "map_of fds k = Some f" using assms(1) f by (simp add: map_of_eq_Some_iff)
  then show ?thesis using find_field_name [OF assms(1) f assms(3)] by simp
qed

lemma set_string_quote:
  "set_string upd (JStr (quote (bytes_of_string x))) s = Some (upd (coerceString x) s)"
  by (simp add: set_string_def coerceString_def)

definition string_members :: "(string \<times> string) list \<Rightarrow> member list" where
  "string_members kvs = map (\<lambda>(k, x). (k, Marshal_string x, JStr (quote (bytes_of_string x)))) kvs"

lemma string_members_scan: "list_all (\<lambda>(k, e, v). scans v e) (string_members kvs)"
  by (induction kvs) (auto simp: string_members_def scans_string)

definition begin_body :: "string \<Rightarrow> bytes" where
  "begin_body u = Marshal_object (encoded (string_members [(''username'', u)]))"

definition register_finish_body :: "string \<Rightarrow> string \<Rightarrow> UVPolicy \<Rightarrow> RegistrationResult \<Rightarrow> bytes" where
  "register_finish_body u nick uv res = Marshal_object (encoded (string_members [
     (''username'', u), (''rawId'', RawURLEncoding_EncodeToString (rres_CredentialID res)),
     (''clientDataJSON'', RawURLEncoding_EncodeToString (rres_ClientDataJSON res)),
     (''attestationObject'', RawURLEncoding_EncodeToString (rres_AttestationObject res)),
     (''nickname'', nick), (''uv'', uv)]))"

definition login_finish_body :: "string \<Rightarrow> UVPolicy \<Rightarrow> AssertionResult \<Rightarrow> bytes" where
  "login_finish_body u uv res = Marshal_object (encoded (string_members [
     (''username'', u), (''rawId'', RawURLEncoding_EncodeToString (ares_CredentialID res)),
     (''clientDataJSON'', RawURLEncoding_EncodeToString (ares_ClientDataJSON res)),
     (''authenticatorData'', RawURLEncoding_EncodeToString (ares_AuthenticatorData res)),
     (''signature'', RawURLEncoding_EncodeToString (ares_Signature res)), (''uv'', uv)]))"

lemma decode_begin:
  "Decoder_Decode registerBegin_fields \<lparr>rb_Username = []\<rparr> (begin_body u) = Some \<lparr>rb_Username = coerceString u\<rparr>"
  "Decoder_Decode loginBegin_fields \<lparr>lb_Username = []\<rparr> (begin_body u) = Some \<lparr>lb_Username = coerceString u\<rparr>"
  unfolding begin_body_def
  by (subst Decoder_Decode_object [OF string_members_scan];
      simp add: string_members_def set_members_field set_string_quote ascii_name_def byte_of_char_def
        registerBegin_fields_def loginBegin_fields_def del: set_members.simps(2))+

lemma decode_register_finish:
  "Decoder_Decode registerFinish_fields zeroRegisterFinish (register_finish_body u nick uv res) =
     Some \<lparr>rf_Username = coerceString u, rf_RawID = RawURLEncoding_EncodeToString (rres_CredentialID res),
       rf_ClientDataJSON = RawURLEncoding_EncodeToString (rres_ClientDataJSON res),
       rf_AttestationObject = RawURLEncoding_EncodeToString (rres_AttestationObject res),
       rf_Nickname = coerceString nick, rf_UV = coerceString uv\<rparr>"
  unfolding register_finish_body_def
  by (subst Decoder_Decode_object [OF string_members_scan];
      simp add: string_members_def set_members_field set_string_quote ascii_name_def byte_of_char_def
        registerFinish_fields_def zeroRegisterFinish_def del: set_members.simps(2))

lemma decode_login_finish:
  "Decoder_Decode loginFinish_fields zeroLoginFinish (login_finish_body u uv res) =
     Some \<lparr>lf_Username = coerceString u, lf_FlowID = [], lf_RawID = RawURLEncoding_EncodeToString (ares_CredentialID res),
       lf_ClientDataJSON = RawURLEncoding_EncodeToString (ares_ClientDataJSON res),
       lf_AuthenticatorData = RawURLEncoding_EncodeToString (ares_AuthenticatorData res),
       lf_Signature = RawURLEncoding_EncodeToString (ares_Signature res), lf_UV = coerceString uv\<rparr>"
  unfolding login_finish_body_def
  by (subst Decoder_Decode_object [OF string_members_scan];
      simp add: string_members_def set_members_field set_string_quote ascii_name_def byte_of_char_def
        loginFinish_fields_def zeroLoginFinish_def del: set_members.simps(2))

section \<open>The four steps\<close>

definition post_request :: "string list \<Rightarrow> bytes \<Rightarrow> request" where
  "post_request path body = \<lparr>http_Method = ''POST'', http_Path = path, http_Authorization = [], http_Body = body\<rparr>"

lemma post_request_simps [simp]: "http_Body (post_request path body) = body"
  by (simp add: post_request_def)

lemma routed_posts:
  "routed (post_request [''register'', ''begin''] body) RegisterBegin"
  "routed (post_request [''register'', ''finish''] body) RegisterFinish"
  "routed (post_request [''login'', ''begin''] body) LoginBegin"
  "routed (post_request [''login'', ''finish''] body) LoginFinish"
  by (simp_all add: routed_def post_request_def route_of_def)

lemma Routes_routed: "routed r rt \<Longrightarrow> Routes s e r w = handle s e r rt w"
  by (simp add: Routes_def routed_def)

lemma Issue_issued:
  "rnd ChallengeLength = Some b \<Longrightarrow> Issue u p rnd t cs = (Inr b, issued_state (u, p) b t cs)"
  by (simp add: Issue_def issued_state_def Let_def)

lemma register_begin_step:
  assumes "u \<noteq> []" and "coerceString u = u" and "env_rand e ChallengeLength = Some c" and "env_rand_id e 16 = Some uid"
  shows "Routes s e (post_request [''register'', ''begin''] (begin_body u)) w =
    ((writeJSON StatusOK (Some (creationOptions s u uid c)), []),
     w\<lparr>challenges := issued_state (u, PurposeRegister) c (wallClock (env_io e)) (challenges w)\<rparr>)"
proof -
  have "handleRegisterBegin s e (post_request [''register'', ''begin''] (begin_body u)) w =
    (Inr (writeJSON StatusOK (Some (creationOptions s u uid c))),
     w\<lparr>challenges := issued_state (u, PurposeRegister) c (wallClock (env_io e)) (challenges w)\<rparr>)"
    using assms by (simp add: handleRegisterBegin_def result_simps decode_begin Issue_issued)
  then show ?thesis
    by (simp add: Routes_routed [OF routed_posts(1)] handle_def answer_def)
qed

lemma register_finish_step:
  assumes "coerceString u = u" and "coerceString nick = nick" and "coerceString uv = uv"
    and "Register (env_crypto e) (env_io e) (srv_Registrar s) (registration_request u uv nick res) w = (Inr (), w')"
  shows "Routes s e (post_request [''register'', ''finish''] (register_finish_body u nick uv res)) w = ((noContent, []), w')"
proof -
  have "handleRegisterFinish s e (post_request [''register'', ''finish''] (register_finish_body u nick uv res)) w =
      (Inr noContent, w')"
    using assms by (simp add: handleRegisterFinish_def result_simps decode_register_finish decodeRegisterFinish_def
        registration_request_def)
  then show ?thesis by (simp add: Routes_routed [OF routed_posts(2)] handle_def answer_def)
qed

lemma login_begin_step:
  assumes "u \<noteq> []" and "coerceString u = u" and "env_rand e ChallengeLength = Some c"
    and "FindByUsername (env_io e) (srv_Store s) u (disk w) = Inr creds"
  shows "Routes s e (post_request [''login'', ''begin''] (begin_body u)) w =
    ((writeJSON StatusOK (Some (requestOptions s c creds [])), []),
     w\<lparr>challenges := issued_state (u, PurposeLogin) c (wallClock (env_io e)) (challenges w)\<rparr>)"
proof -
  have "handleLoginBegin s e (post_request [''login'', ''begin''] (begin_body u)) w =
    (Inr (writeJSON StatusOK (Some (requestOptions s c creds []))),
     w\<lparr>challenges := issued_state (u, PurposeLogin) c (wallClock (env_io e)) (challenges w)\<rparr>)"
    using assms by (simp add: handleLoginBegin_def result_simps decode_begin Issue_issued Let_def)
  then show ?thesis by (simp add: Routes_routed [OF routed_posts(3)] handle_def answer_def)
qed

lemma login_finish_step:
  assumes "u \<noteq> []" and "coerceString u = u" and "coerceString uv = uv"
    and "Login (env_crypto e) (env_io e) (env_io' e) (srv_Authenticator s) (assertion_request u uv res) w = (Inr result, w')"
    and "session_Issue (env_text e) (srv_Sessions s) (result_Username result) (result_UVPerformed result)
      (wallClock (env_io' e)) = Inr token"
  shows "Routes s e (post_request [''login'', ''finish''] (login_finish_body u uv res)) w =
    ((writeJSON StatusOK (Some (loginFinishResponse token result)), []), w')"
proof -
  have "handleLoginFinish s e (post_request [''login'', ''finish''] (login_finish_body u uv res)) w =
      (Inr (writeJSON StatusOK (Some (loginFinishResponse token result))), w')"
    using assms by (simp add: handleLoginFinish_def result_simps decode_login_finish decodeLoginFinish_def
        assertion_request_def Let_def)
  then show ?thesis by (simp add: Routes_routed [OF routed_posts(4)] handle_def answer_def)
qed

section \<open>The flow\<close>

definition env_works :: "env \<Rightarrow> bool" where
  "env_works e \<longleftrightarrow> no_failures (env_io e) \<and> no_failures (env_io' e)"

text \<open>What the flow relies on, apart from the random values.\<close>

definition flow_ok :: "Server \<Rightarrow> env \<Rightarrow> env \<Rightarrow> env \<Rightarrow> env \<Rightarrow> signing \<Rightarrow> VirtualAuthenticator \<Rightarrow> string \<Rightarrow>
    bytes \<Rightarrow> world \<Rightarrow> bool" where
  "flow_ok s e1 e2 e3 e4 sg v origin credID w \<longleftrightarrow>
     server_wf s \<and> server_ok (srv_Registrar s) (srv_Authenticator s) origin \<and> v_good v \<and> length credID < 2 ^ 16 \<and>
     signing_correct (env_crypto e4) sg v \<and> (v_zeroCounter v \<longrightarrow> v_signCount v = 0) \<and>
     now (challenges w) = (\<lambda>t. t) \<and> ttl (challenges w) = ChallengeTTL \<and>
     sound s w \<and> view s w credID = None \<and> env_ok s w e2 \<and> env_ok s w e3 \<and> env_ok s w e4 \<and>
     env_works e2 \<and> env_works e3 \<and> env_works e4 \<and>
     wallClock (env_io e2) - wallClock (env_io e1) \<le> ChallengeTTL \<and>
     wallClock (env_io e4) - wallClock (env_io e3) \<le> ChallengeTTL \<and>
     json_time_ok (wallClock (env_io e2)) \<and>
     json_time_ok (signer_now (srv_Sessions s) (wallClock (env_io' e4))) \<and>
     json_time_ok (signer_now (srv_Sessions s) (wallClock (env_io' e4)) + signer_ttl (srv_Sessions s))"

lemma find_by_username_works:
  assumes "sound s w" and "no_failures io"
  shows "\<exists>creds. FindByUsername io (srv_Store s) u (disk w) = Inr creds"
  using load_works [OF assms] by (auto simp: FindByUsername_def)

lemma flow_runs:
  assumes flow: "flow_ok s e1 e2 e3 e4 sg v origin credID w"
    and u: "u \<noteq> []" "coerceString u = u" "coerceString nick = nick" "coerceString uv = uv" "coerceString uv2 = uv2"
    and rand: "env_rand e1 ChallengeLength = Some c1" "env_rand_id e1 16 = Some uid" "env_rand e3 ChallengeLength = Some c2"
  shows "\<exists>w1 rr w2 creds w3 ar w4 token.
    Routes s e1 (post_request [''register'', ''begin''] (begin_body u)) w =
      ((writeJSON StatusOK (Some (creationOptions s u uid c1)), []), w1) \<and>
    v_Register v (reg_RPID (srv_Registrar s)) origin c1 credID = Inr rr \<and>
    Routes s e2 (post_request [''register'', ''finish''] (register_finish_body u nick uv rr)) w1 = ((noContent, []), w2) \<and>
    Routes s e3 (post_request [''login'', ''begin''] (begin_body u)) w2 =
      ((writeJSON StatusOK (Some (requestOptions s c2 creds [])), []), w3) \<and>
    v_Authenticate sg (reg_RPID (srv_Registrar s)) origin c2 credID v = (Inr ar, v_next v) \<and>
    Routes s e4 (post_request [''login'', ''finish''] (login_finish_body u uv2 ar)) w3 =
      ((writeJSON StatusOK (Some (loginFinishResponse token
         \<lparr>result_Username = u, result_UVPerformed = True\<rparr>)), []), w4) \<and>
    session_Issue (env_text e4) (srv_Sessions s) u True (wallClock (env_io' e4)) = Inr token \<and>
    view s w2 credID = Some (registered (env_io e2) u nick v (reg_RPID (srv_Registrar s)) credID) \<and>
    env_ok s w1 e2 \<and> env_ok s w2 e3 \<and> env_ok s w3 e4"
proof -
  note f = flow [unfolded flow_ok_def]
  let ?reg = "srv_Registrar s" and ?auth = "srv_Authenticator s"
  have st: "reg_Store ?reg = srv_Store s" "auth_Store ?auth = srv_Store s" "auth_RPID ?auth = reg_RPID ?reg"
    using f by (auto simp: server_wf_def server_ok_def)
  let ?w1 = "w\<lparr>challenges := issued_state (u, PurposeRegister) c1 (wallClock (env_io e1)) (challenges w)\<rparr>"
  have "redeemable (u, PurposeRegister) c1 (wallClock (env_io e2)) (challenges ?w1)"
    using f ch.fresh_use [where s = "challenges w" and t = "wallClock (env_io e1)"] by simp
  then have rdy: "ready_to_register ?reg (env_io e2) u c1 credID ?w1"
    using f st by (simp add: ready_to_register_def env_ok_def env_works_def)
  obtain rr where rr: "v_Register v (reg_RPID ?reg) origin c1 credID = Inr rr"
      "registers (env_crypto e2) (env_io e2) ?reg (registration_request u uv nick rr) c1 ?w1
        (registered (env_io e2) u nick v (reg_RPID ?reg) credID)"
    using none_registers [OF _ _ _ rdy] f by blast
  let ?cred = "registered (env_io e2) u nick v (reg_RPID ?reg) credID"
  obtain w2 where w2: "Register (env_crypto e2) (env_io e2) ?reg (registration_request u uv nick rr) ?w1 = (Inr (), w2)"
      "\<forall>io. io_ok (srv_Store s) (disk w) io \<longrightarrow> io_ok (srv_Store s) (disk w2) io"
      "challenges w2 = consumed_state (u, PurposeRegister) c1 (wallClock (env_io e2)) (challenges ?w1)"
      "sound s w2" "view s w2 = (view s w)(cred_ID ?cred \<mapsto> ?cred)"
    using rr(2) st by (auto simp: registers_def registration_request_def)
  obtain creds where creds: "FindByUsername (env_io e3) (srv_Store s) u (disk w2) = Inr creds"
    using find_by_username_works [OF w2(4)] f by (auto simp: env_works_def)
  let ?w3 = "w2\<lparr>challenges := issued_state (u, PurposeLogin) c2 (wallClock (env_io e3)) (challenges w2)\<rparr>"
  have "now (challenges w2) = (\<lambda>t. t)" "ttl (challenges w2) = ChallengeTTL"
    using f w2(3) by (simp_all add: consumed_state_def ch.issue_config)
  then have "redeemable (u, PurposeLogin) c2 (wallClock (env_io e4)) (challenges ?w3)"
    using f ch.fresh_use [where s = "challenges w2" and t = "wallClock (env_io e3)"] by simp
  then have rdy2: "ready_to_login ?auth (env_io e4) (env_io' e4) u c2 credID v ?cred ?w3"
    using f st w2 counter_v_next [of v]
    by (simp add: ready_to_login_def env_ok_def env_works_def registered_fields)
  have srv: "server_ok ?reg ?auth origin" "v_good v" "signing_correct (env_crypto e4) sg v" using f by auto
  obtain ar w4 where ar: "v_Authenticate sg (reg_RPID ?reg) origin c2 credID v = (Inr ar, v_next v)"
      "Login (env_crypto e4) (env_io e4) (env_io' e4) ?auth (assertion_request u uv2 ar) ?w3 =
        (Inr \<lparr>result_Username = u, result_UVPerformed = True\<rparr>, w4)"
    using assertion_logs_in [OF srv rdy2, of uv2] st(3) u(2) by (auto simp: registered_fields)
  obtain token where token: "session_Issue (env_text e4) (srv_Sessions s) u True (wallClock (env_io' e4)) = Inr token"
    using f by (auto simp: session_Issue_def Marshal_Claims_def Let_def)
  show ?thesis
    using w2(5) registered_fields(1) register_begin_step [OF u(1,2) rand(1,2), of s w] rr(1) register_finish_step [OF u(2-4) w2(1)]
      login_begin_step [OF u(1,2) rand(3) creds] ar(1) login_finish_step [OF u(1,2,5) ar(2), of token] token
      f w2(2) by (auto simp: env_ok_def)
qed

text \<open>The flow as a run of the server, from an empty store.\<close>

lemma flow_trace:
  assumes flow: "flow_ok s e1 e2 e3 e4 sg v origin credID w"
    and u: "u \<noteq> []" "coerceString u = u" "coerceString nick = nick" "coerceString uv = uv" "coerceString uv2 = uv2"
    and rand: "env_rand e1 ChallengeLength = Some c1" "env_rand_id e1 16 = Some uid" "env_rand e3 ChallengeLength = Some c2"
    and start: "challenges w = NewChallengeStore" "view s w = Map.empty" "env_ok s w e1"
  shows "\<exists>w1 rr w2 creds w3 ar w4 token.
    server_run s w4 [
      (w3, e4, post_request [''login'', ''finish''] (login_finish_body u uv2 ar),
         writeJSON StatusOK (Some (loginFinishResponse token \<lparr>result_Username = u, result_UVPerformed = True\<rparr>))),
      (w2, e3, post_request [''login'', ''begin''] (begin_body u),
         writeJSON StatusOK (Some (requestOptions s c2 creds []))),
      (w1, e2, post_request [''register'', ''finish''] (register_finish_body u nick uv rr), noContent),
      (w, e1, post_request [''register'', ''begin''] (begin_body u),
         writeJSON StatusOK (Some (creationOptions s u uid c1)))] \<and>
    session_Issue (env_text e4) (srv_Sessions s) u True (wallClock (env_io' e4)) = Inr token"
proof -
  have ok: "sound s w" using flow by (simp add: flow_ok_def)
  obtain w1 rr w2 creds w3 ar w4 token where
      r1: "Routes s e1 (post_request [''register'', ''begin''] (begin_body u)) w =
        ((writeJSON StatusOK (Some (creationOptions s u uid c1)), []), w1)"
    and r2: "Routes s e2 (post_request [''register'', ''finish''] (register_finish_body u nick uv rr)) w1 =
        ((noContent, []), w2)"
    and r3: "Routes s e3 (post_request [''login'', ''begin''] (begin_body u)) w2 =
        ((writeJSON StatusOK (Some (requestOptions s c2 creds [])), []), w3)"
    and r4: "Routes s e4 (post_request [''login'', ''finish''] (login_finish_body u uv2 ar)) w3 =
        ((writeJSON StatusOK (Some (loginFinishResponse token
           \<lparr>result_Username = u, result_UVPerformed = True\<rparr>)), []), w4)"
    and t: "session_Issue (env_text e4) (srv_Sessions s) u True (wallClock (env_io' e4)) = Inr token"
    and env: "env_ok s w1 e2" "env_ok s w2 e3" "env_ok s w3 e4"
    using flow_runs [OF flow u rand] by blast
  note server_run.serve [OF server_run.serve [OF server_run.serve [OF server_run.serve
    [OF server_run.start [OF start(1) ok start(2)] start(3) r1] env(1) r2] env(2) r3] env(3) r4]
  then show ?thesis using t by blast
qed

section \<open>A concrete run\<close>

text \<open>
  One server, one authenticator and one user, at which the properties are applied.  The
  signature scheme of the instance is the simplest one that is correct: the signature is
  the key followed by the message, and the private key is the public one.
\<close>

definition demo_key :: bytes where "demo_key = replicate 32 7"

definition demo_crypto :: crypto where
  "demo_crypto = \<lparr>ecdsa_VerifyASN1 = (\<lambda>c x y d s. False), rsa_VerifyPKCS1v15 = (\<lambda>n e d s. False),
     ed25519_Verify = (\<lambda>k m s. s = k @ m), ParseCertificate = (\<lambda>der. None)\<rparr>"

definition demo_signing :: signing where
  "demo_signing = \<lparr>ecdsa_SignASN1 = (\<lambda>k d. None), rsa_SignPKCS1v15 = (\<lambda>k d. None),
     ed25519_Sign = (\<lambda>k m. k @ m), x509_SelfSigned = (\<lambda>k. None)\<rparr>"

definition demo_v :: VirtualAuthenticator where
  "demo_v = \<lparr>v_AAGUID = replicate 16 0, v_Alg = AlgEdDSA, v_ecPriv = None, v_rsaPriv = None,
     v_edPriv = demo_key, v_edPub = demo_key, v_signCount = 1, v_zeroCounter = False\<rparr>"

definition demo_origin :: string where "demo_origin = ''https://example.com''"

definition demo_registrar :: Registrar where
  "demo_registrar = \<lparr>reg_Origins = NewOriginAllowlist [demo_origin], reg_Store = sample_store,
     reg_RPID = ''example.com'', reg_UVPolicy = UVPreferred\<rparr>"

definition demo_authenticator :: Authenticator where
  "demo_authenticator = \<lparr>auth_Origins = NewOriginAllowlist [demo_origin], auth_Store = sample_store,
     auth_RPID = ''example.com'', auth_UVPolicy = UVPreferred\<rparr>"

definition demo_server :: Server where
  "demo_server = \<lparr>srv_Registrar = demo_registrar, srv_Authenticator = demo_authenticator,
     srv_Store = sample_store,
     srv_Sessions = \<lparr>signer_key = replicate 32 9, signer_now = (\<lambda>t. t), signer_ttl = 3600 * second\<rparr>,
     srv_RPID = ''example.com'', srv_RPName = ''vouchsafe'', srv_Log = True\<rparr>"

definition demo_io :: "time \<Rightarrow> store_io" where
  "demo_io t = working_io\<lparr>wallClock := t\<rparr>"

definition demo_env :: "time \<Rightarrow> byte \<Rightarrow> env" where
  "demo_env t b = \<lparr>env_crypto = demo_crypto, env_text = decimal_text, env_rand = (\<lambda>n. Some (replicate n b)),
     env_rand_id = (\<lambda>n. Some (replicate n b)), env_io = demo_io t, env_io' = demo_io t,
     env_template = (\<lambda>_. ([], False))\<rparr>"

definition demo_world :: world where
  "demo_world = \<lparr>challenges = NewChallengeStore, disk = Map.empty\<rparr>"

definition demo_credID :: bytes where "demo_credID = [1, 2, 3]"

definition demo_user :: string where "demo_user = ''alice''"

lemma demo_strings:
  "demo_user \<noteq> []" "coerceString demo_user = demo_user" "coerceString demo_origin = demo_origin"
  "coerceString [] = []"
  by (simp_all add: demo_user_def demo_origin_def coerceString_ascii byte_of_char_def)

lemma demo_v_good: "v_good demo_v"
  by (simp add: v_good_def demo_v_def demo_key_def)

lemma demo_signing_correct: "signing_correct demo_crypto demo_signing demo_v"
  by (simp add: signing_correct_def v_sign_def signature_valid_def v_PublicKey_def demo_v_def demo_crypto_def
      demo_signing_def)

lemma demo_server_ok:
  "server_wf demo_server" "server_ok demo_registrar demo_authenticator demo_origin"
  by (simp_all add: server_wf_def server_ok_def demo_server_def demo_registrar_def demo_authenticator_def
      demo_strings NewOriginAllowlist_def valid_policy_def)

lemma demo_io_ok: "io_ok sample_store Map.empty (demo_io t)" "no_failures (demo_io t)" "wallClock (demo_io t) = t"
  by (simp_all add: io_ok_def demo_io_def working_io_def sample_store_def no_failures_def)

lemma demo_env_ok:
  "env_ok demo_server demo_world (demo_env t b)" "env_works (demo_env t b)"
  "wallClock (env_io (demo_env t b)) = t" "wallClock (env_io' (demo_env t b)) = t"
  "env_crypto (demo_env t b) = demo_crypto" "env_text (demo_env t b) = decimal_text"
  "env_rand (demo_env t b) n = Some (replicate n b)" "env_rand_id (demo_env t b) n = Some (replicate n b)"
  by (simp_all add: env_ok_def env_works_def demo_env_def demo_server_def demo_world_def demo_io_ok)

lemma demo_world_ok: "sound demo_server demo_world" "view demo_server demo_world = Map.empty"
    "challenges demo_world = NewChallengeStore"
  by (simp_all add: demo_world_def demo_server_def sample_ok)

lemma demo_flow:
  "flow_ok demo_server (demo_env 0 1) (demo_env second 2) (demo_env (2 * second) 3) (demo_env (3 * second) 4)
     demo_signing demo_v demo_origin demo_credID demo_world"
  using demo_server_ok demo_v_good demo_signing_correct demo_world_ok
  by (simp add: flow_ok_def demo_env_ok demo_credID_def)
    (simp add: demo_server_def demo_v_def NewChallengeStore_def ChallengeTTL_def json_time_ok_def second_def)

lemmas demo_runs = flow_runs [OF demo_flow demo_strings(1,2,4,4,4) demo_env_ok(7,8,7)]

lemmas demo_trace = flow_trace [OF demo_flow demo_strings(1,2,4,4,4) demo_env_ok(7,8,7)
  demo_world_ok(3,2) demo_env_ok(1)]

text \<open>The same run below HTTP: the two calls of the ceremonies.\<close>

definition demo_start :: world where
  "demo_start = demo_world\<lparr>challenges := issued_state (demo_user, PurposeRegister) [1] 0 NewChallengeStore\<rparr>"

definition demo_challenge :: "world \<Rightarrow> world" where
  "demo_challenge w = w\<lparr>challenges := issued_state (demo_user, PurposeLogin) [2] (2 * second) (challenges w)\<rparr>"

lemma demo_ready: "ready_to_register demo_registrar (demo_io second) demo_user [1] demo_credID demo_start"
proof -
  have "redeemable (demo_user, PurposeRegister) [1] second (issued_state (demo_user, PurposeRegister) [1] 0 NewChallengeStore)"
    by (rule ch.fresh_use) (simp add: NewChallengeStore_def ChallengeTTL_def second_def)
  then show ?thesis
    by (simp add: ready_to_register_def demo_start_def demo_world_def demo_registrar_def demo_io_ok sample_ok
        json_time_ok_def second_def)
qed

lemma demo_disk: "disk demo_start = Map.empty"
  by (simp add: demo_start_def demo_world_def)

lemma demo_ceremonies:
  "\<exists>rr w1 ar w2.
     Register demo_crypto (demo_io second) demo_registrar (registration_request demo_user [] [] rr) demo_start = (Inr (), w1) \<and>
     store_ok sample_store (disk w1) \<and> (\<forall>t. io_ok sample_store (disk w1) (demo_io t)) \<and>
     Login demo_crypto (demo_io (3 * second)) (demo_io (3 * second)) demo_authenticator
       (assertion_request demo_user [] ar) (demo_challenge w1) =
       (Inr \<lparr>result_Username = demo_user, result_UVPerformed = True\<rparr>, w2)"
proof -
  note srv = demo_server_ok(2) demo_v_good
  have st: "reg_Store demo_registrar = sample_store" by (simp add: demo_registrar_def)
  have c: "length demo_credID < 2 ^ 16" by (simp add: demo_credID_def)
  obtain rr where rr: "registers demo_crypto (demo_io second) demo_registrar (registration_request demo_user [] [] rr) [1]
      demo_start (registered (demo_io second) demo_user [] demo_v (reg_RPID demo_registrar) demo_credID)"
    using none_registers [OF srv c demo_ready] by blast
  have io: "io_ok (reg_Store demo_registrar) (disk demo_start) (demo_io t)" for t
    by (simp add: demo_disk st demo_io_ok)
  have cfg: "now (challenges demo_start) = (\<lambda>t. t)" "ttl (challenges demo_start) = ChallengeTTL"
    by (simp_all add: demo_start_def ch.issue_config NewChallengeStore_def)
  have zero: "v_zeroCounter demo_v \<longrightarrow> v_signCount demo_v = 0" by (simp add: demo_v_def)
  have t: "now (challenges demo_start) (wallClock (demo_io (3 * second))) - now (challenges demo_start) (2 * second)
      \<le> ttl (challenges demo_start)"
    by (simp add: cfg demo_io_ok ChallengeTTL_def second_def)
  obtain w1 ar w2 where run: "Register demo_crypto (demo_io second) demo_registrar
        (registration_request demo_user [] [] rr) demo_start = (Inr (), w1)"
      "Login demo_crypto (demo_io (3 * second)) (demo_io (3 * second)) demo_authenticator
        (assertion_request demo_user [] ar)
        (w1\<lparr>challenges := issued_state (demo_user, PurposeLogin) [2] (2 * second) (challenges w1)\<rparr>) =
        (Inr \<lparr>result_Username = coerceString demo_user, result_UVPerformed = True\<rparr>, w2)"
    using registration_then_login [OF srv c demo_signing_correct zero demo_ready rr io io demo_io_ok(2,2) t, where ?chal2.0 = "[2]" and ?uv2.0 = "[]"]
    by blast
  have "store_ok sample_store (disk w1)" "\<forall>t. io_ok sample_store (disk w1) (demo_io t)"
    using rr run(1) io st by (auto simp: registers_def)
  then show ?thesis using run by (auto simp: demo_challenge_def demo_strings)
qed

text \<open>A world of the run in which the user has a credential, and a request with a token of that user.\<close>

lemma demo_registered:
  "\<exists>w. store_ok sample_store (disk w) \<and> env_ok demo_server w (demo_env (2 * second) 3) \<and>
    (\<exists>c. store_view sample_store (disk w) demo_credID = Some c \<and> cred_Username c = demo_user \<and> cred_ID c = demo_credID)"
proof -
  let ?e = "demo_env 0 1" and ?e2 = "demo_env second 2"
  obtain w1 rr w2 where r: "Routes demo_server ?e (post_request [''register'', ''begin''] (begin_body demo_user)) demo_world =
        ((writeJSON StatusOK (Some (creationOptions demo_server demo_user (replicate 16 1) (replicate ChallengeLength 1))), []), w1)"
      "Routes demo_server ?e2 (post_request [''register'', ''finish''] (register_finish_body demo_user [] [] rr)) w1 =
        ((noContent, []), w2)"
      "view demo_server w2 demo_credID = Some (registered (env_io ?e2) demo_user [] demo_v
        (reg_RPID (srv_Registrar demo_server)) demo_credID)" "env_ok demo_server w1 ?e2"
      "env_ok demo_server w2 (demo_env (2 * second) 3)"
    using demo_runs by blast
  note run = server_run.serve [OF server_run.serve [OF server_run.start [OF demo_world_ok(3,1,2)] demo_env_ok(1) r(1)] r(4,2)]
  have "srv_Store demo_server = sample_store" by (simp add: demo_server_def)
  then show ?thesis
    using server_run_sound [OF run demo_server_ok(1)] r(3,5) demo_strings(2)
    by (intro exI [of _ w2]) (simp add: registered_fields)
qed

definition demo_request :: "string \<Rightarrow> request" where
  "demo_request token = \<lparr>http_Method = ''GET'', http_Path = [''credentials''],
     http_Authorization = bearer @ token, http_Body = []\<rparr>"

lemma demo_token:
  "\<exists>token. authenticate demo_server (demo_env (2 * second) 3) (demo_request token) =
    Inr (issued_claims (srv_Sessions demo_server) demo_user True 0)"
proof -
  have "\<exists>token. session_Issue decimal_text (srv_Sessions demo_server) demo_user True 0 = Inr token"
    by (simp add: session_Issue_def Marshal_Claims_def json_time_ok_def second_def Let_def demo_server_def)
  then obtain token where "session_Issue decimal_text (srv_Sessions demo_server) demo_user True 0 = Inr token" by blast
  from Verify_Issue [OF decimal_text_ok this, of "2 * second"] show ?thesis
    by (intro exI [of _ token])
      (simp add: authenticate_def demo_request_def demo_env_ok demo_strings, simp add: demo_server_def second_def)
qed

end
