(* ===== verification/Concurrent_Flow.thy ===== *)
theory Concurrent_Flow
  imports Concurrent Http_Flow
begin

text \<open>
  Requests that do not overlap are a special case of interleaving; two logins that do
  overlap can lose an update of the counter.
\<close>

section \<open>A thread that is not interrupted\<close>

text \<open>No section of the program meets an unsuitable disk when it runs alone.\<close>

primrec alone_ok :: "'r prog \<Rightarrow> world \<Rightarrow> bool" where
  "alone_ok (Return x) = (\<lambda>w. True)"
| "alone_ok (AskIssue u p rnd t k) = (\<lambda>w.
     case Issue u p rnd t (challenges w) of (res, c) \<Rightarrow> alone_ok (k res) (put_challenges c w))"
| "alone_ok (AskConsume u p c t k) = (\<lambda>w.
     case Consume u p c t (challenges w) of (res, c) \<Rightarrow> alone_ok (k res) (put_challenges c w))"
| "alone_ok (AskFind s io i k) = (\<lambda>w. io_ok s (disk w) io \<and> alone_ok (k (FindByID io s i (disk w))) w)"
| "alone_ok (AskList s io u k) = (\<lambda>w. io_ok s (disk w) io \<and> alone_ok (k (FindByUsername io s u (disk w))) w)"
| "alone_ok (AskStore s io x k) = (\<lambda>w. io_ok s (disk w) io \<and>
     (case run_op io s x (disk w) of (res, d) \<Rightarrow> alone_ok (k res) (put_disk d w)))"

lemma alone_step:
  assumes "alone_ok p w" and "run_alone p w = (rep, w2)" and "\<And>x. p \<noteq> Return x"
  shows "may_run p w \<and> alone_ok (fst (advance p w)) (snd (advance p w)) \<and>
    run_alone (fst (advance p w)) (snd (advance p w)) = (rep, w2)"
  using assms by (cases p) (auto split: prod.splits)

lemma thread_step:
  assumes "interleaved s w0 w ts tr" and "i < length ts" and "th_prog (ts ! i) = p" and "may_run p w"
    and "advance p w = (p', w')"
  shows "\<exists>tr'. interleaved s w0 w' (ts[i := (ts ! i)\<lparr>th_prog := p'\<rparr>]) tr'"
  using interleaved.step [OF assms(1,2) refl] assms(3-5) by auto

lemma thread_alone_step:
  assumes run: "interleaved s w0 w ts tr" and i: "i < length ts" "th_prog (ts ! i) = p" and ok: "alone_ok p w"
    and res: "run_alone p w = (rep, w2)" and p: "\<And>x. p \<noteq> Return x"
    and IH: "\<And>w' ts' tr'. interleaved s w0 w' ts' tr' \<Longrightarrow> i < length ts' \<Longrightarrow> th_prog (ts' ! i) = fst (advance p w) \<Longrightarrow>
      alone_ok (fst (advance p w)) w' \<Longrightarrow> run_alone (fst (advance p w)) w' = (rep, w2) \<Longrightarrow>
      \<exists>tr''. interleaved s w0 w2 (ts'[i := (ts' ! i)\<lparr>th_prog := Return rep\<rparr>]) tr''"
  shows "\<exists>tr'. interleaved s w0 w2 (ts[i := (ts ! i)\<lparr>th_prog := Return rep\<rparr>]) tr'"
proof -
  note step = alone_step [OF ok res p]
  obtain tr1 where "interleaved s w0 (snd (advance p w)) (ts[i := (ts ! i)\<lparr>th_prog := fst (advance p w)\<rparr>]) tr1"
    using thread_step [OF run i, of "fst (advance p w)" "snd (advance p w)"] step by auto
  from IH [OF this] show ?thesis using i(1) step by simp
qed

lemma thread_alone:
  "interleaved s w0 w ts tr \<Longrightarrow> i < length ts \<Longrightarrow> th_prog (ts ! i) = p \<Longrightarrow> alone_ok p w \<Longrightarrow>
   run_alone p w = (rep, w2) \<Longrightarrow> \<exists>tr'. interleaved s w0 w2 (ts[i := (ts ! i)\<lparr>th_prog := Return rep\<rparr>]) tr'"
proof (induction p arbitrary: w ts tr)
  case (Return x)
  have "th_prog (ts ! i) = Return rep" "w2 = w" using Return.prems by simp_all
  then have "(ts ! i)\<lparr>th_prog := Return rep\<rparr> = ts ! i" by (cases "ts ! i") simp
  then have "ts[i := (ts ! i)\<lparr>th_prog := Return rep\<rparr>] = ts" by simp
  note this \<open>w2 = w\<close>
  then show ?case using Return.prems by auto
next
  case (AskIssue u p rnd t k)
  show ?case by (rule thread_alone_step [OF AskIssue.prems]) (auto split: prod.splits intro: AskIssue.IH)
next
  case (AskConsume u p c t k)
  show ?case by (rule thread_alone_step [OF AskConsume.prems]) (auto split: prod.splits intro: AskConsume.IH)
next
  case (AskFind st io c k)
  show ?case by (rule thread_alone_step [OF AskFind.prems]) (auto intro: AskFind.IH)
next
  case (AskList st io u k)
  show ?case by (rule thread_alone_step [OF AskList.prems]) (auto intro: AskList.IH)
next
  case (AskStore st io x k)
  show ?case by (rule thread_alone_step [OF AskStore.prems]) (auto split: prod.splits intro: AskStore.IH)
qed

section \<open>Histories without overlap\<close>

lemma alone_orReply [simp]:
  "alone_ok (orReply m f) w = (case m of Inl rep \<Rightarrow> True | Inr x \<Rightarrow> alone_ok (f x) w)"
  by (simp add: orReply_def split: sum.split)

lemma alone_clientData:
  assumes "\<And>c. alone_ok rest (put_challenges c w)"
  shows "alone_ok (clientData_prog typ p origins u json t failed rest) w"
  using assms by (simp add: clientData_prog_def split: sum.split prod.split)

text \<open>A handler writes the file at most once, in its last section.\<close>

lemma Routes_alone_ok:
  assumes "server_wf s" and "env_ok s w e"
  shows "alone_ok (Routes_prog s e r) w"
proof -
  have st: "reg_Store (srv_Registrar s) = srv_Store s" "auth_Store (srv_Authenticator s) = srv_Store s"
    using assms(1) by (auto simp: server_wf_def)
  have io: "io_ok (srv_Store s) (disk w) (env_io e)" "io_ok (srv_Store s) (disk w) (env_io' e)"
    using assms(2) by (auto simp: env_ok_def)
  have "alone_ok (registerBegin_prog s e r) w" "alone_ok (loginBegin_prog s e r) w" "alone_ok (listCredentials_prog s e r) w"
      "alone_ok (deleteCredential_prog s e pathID r) w" for pathID
    by (simp_all add: registerBegin_prog_def loginBegin_prog_def listCredentials_prog_def deleteCredential_prog_def
        io Let_def split: sum.split prod.split)
  moreover have "alone_ok (registerFinish_prog s e r) w"
    by (auto simp: registerFinish_prog_def io st Let_def split: sum.split prod.split intro!: alone_clientData)
  moreover have "alone_ok (loginFinish_prog s e r) w"
    by (auto simp: loginFinish_prog_def loginChecks_prog_def loginCommit_prog_def io st Let_def
        split: sum.split prod.split intro!: alone_clientData)
  ultimately show ?thesis
    by (simp add: Routes_prog_def handle_prog_def split: option.split route.split)
qed

text \<open>Every history of requests that are served one after the other is an interleaving.\<close>

definition finished :: "served \<Rightarrow> thread \<Rightarrow> bool" where
  "finished x th \<longleftrightarrow> (case x of (w, e, r, resp) \<Rightarrow>
     th_env th = e \<and> th_request th = r \<and> (\<exists>log. th_prog th = Return (resp, log)))"

lemma served_interleaved:
  assumes run: "interleaved s w0 w ts tr" and wf: "server_wf s" and env: "env_ok s w e"
    and serve: "Routes s e r w = (rep, w')"
  shows "\<exists>tr'. interleaved s w0 w' (ts @ [\<lparr>th_env = e, th_request = r, th_prog = Return rep\<rparr>]) tr'"
proof -
  from thread_alone [OF interleaved.arrive [OF run, of e r], of "length ts" "Routes_prog s e r" rep w'] show ?thesis
    using Routes_alone_ok [OF wf env, of r] serve by (simp add: Routes_alone)
qed

lemma server_run_interleaved:
  "server_run s w tr \<Longrightarrow> server_wf s \<Longrightarrow> \<exists>w0 ts tr'. interleaved s w0 w ts tr' \<and> list_all2 finished (rev tr) ts"
proof (induction rule: server_run.induct)
  case (start w)
  then show ?case using interleaved.start by (intro exI [of _ w] exI [of _ "[]"]) auto
next
  case (serve w tr e r resp log w')
  then obtain w0 ts tr' where t: "interleaved s w0 w ts tr'" "list_all2 finished (rev tr) ts" by blast
  from served_interleaved [OF t(1) serve.prems serve.hyps(2,3)] obtain tr'' where
    "interleaved s w0 w' (ts @ [\<lparr>th_env = e, th_request = r, th_prog = Return (resp, log)\<rparr>]) tr''" by blast
  moreover have "list_all2 finished (rev ((w, e, r, resp) # tr))
      (ts @ [\<lparr>th_env = e, th_request = r, th_prog = Return (resp, log)\<rparr>])"
    using t(2) by (auto simp: finished_def intro!: list_all2_appendI)
  ultimately show ?case by blast
qed

section \<open>Two logins that overlap\<close>

definition pair_of :: "thread list \<Rightarrow> env \<Rightarrow> request \<Rightarrow> reply prog \<Rightarrow> env \<Rightarrow> request \<Rightarrow> reply prog \<Rightarrow> thread list" where
  "pair_of ts ea ra p eb rb q = ts @ [\<lparr>th_env = ea, th_request = ra, th_prog = p\<rparr>, \<lparr>th_env = eb, th_request = rb, th_prog = q\<rparr>]"

lemma pair_arrive:
  "interleaved s w0 w ts tr \<Longrightarrow> interleaved s w0 w (pair_of ts ea ra (Routes_prog s ea ra) eb rb (Routes_prog s eb rb)) tr"
  using interleaved.arrive [OF interleaved.arrive, of s w0 w ts tr ea ra eb rb] by (simp add: pair_of_def)

lemma pair_steps:
  assumes "\<exists>tr. interleaved s w0 w (pair_of ts ea ra p eb rb q) tr"
  shows "may_run p w \<Longrightarrow> advance p w = (p', w') \<Longrightarrow> \<exists>tr. interleaved s w0 w' (pair_of ts ea ra p' eb rb q) tr"
    "may_run q w \<Longrightarrow> advance q w = (q', w') \<Longrightarrow> \<exists>tr. interleaved s w0 w' (pair_of ts ea ra p eb rb q') tr"
proof -
  obtain tr where run: "interleaved s w0 w (pair_of ts ea ra p eb rb q) tr" using assms by blast
  have len: "length ts < length (pair_of ts ea ra p eb rb q)" "Suc (length ts) < length (pair_of ts ea ra p eb rb q)"
    by (simp_all add: pair_of_def)
  show "may_run p w \<Longrightarrow> advance p w = (p', w') \<Longrightarrow> \<exists>tr. interleaved s w0 w' (pair_of ts ea ra p' eb rb q) tr"
    using thread_step [OF run len(1), of p p' w'] by (simp add: pair_of_def list_update_append)
  show "may_run q w \<Longrightarrow> advance q w = (q', w') \<Longrightarrow> \<exists>tr. interleaved s w0 w' (pair_of ts ea ra p eb rb q') tr"
    using thread_step [OF run len(2), of q q' w'] by (simp add: pair_of_def list_update_append nth_append)
qed

text \<open>The sections of a login that is accepted.\<close>

lemma login_sections:
  assumes wf: "server_wf s" and rt: "routed r LoginFinish" and a: "asks_login r a"
    and acc: "login_accepts (env_crypto e) (srv_Authenticator s) a (wallClock (env_io e)) w chal cred ad"
    and token: "token_reply s e cred ad token resp"
  shows "\<exists>k1 k2 k3. Routes_prog s e r = AskConsume (ar_Username a) PurposeLogin chal (wallClock (env_io e)) k1 \<and>
    k1 (Inr ()) = AskFind (srv_Store s) (env_io e) (ar_CredentialID a) k2 \<and>
    k2 (Inr (Some cred)) = AskStore (srv_Store s) (env_io' e) (OpSetCount (ar_CredentialID a) (SignCount ad)) k3 \<and>
    k3 (Inr ()) = Return (resp, [])"
proof -
  have st: "auth_Store (srv_Authenticator s) = srv_Store s" using wf by (simp add: server_wf_def)
  obtain req where req: "Decoder_Decode loginFinish_fields zeroLoginFinish (http_Body r) = Some req" "decodeLoginFinish req = Some a"
    using a by (auto simp: asks_login_def)
  obtain cd where cd: "Unmarshal_clientData (ar_ClientDataJSON a) = Some cd" "cd_Type cd = ''webauthn.get''"
      "RawURLEncoding_DecodeString (cd_Challenge cd) = Some chal"
      "CheckOrigin (auth_Origins (srv_Authenticator s)) (cd_Origin cd) = Inr ()"
    using acc by (auto simp: login_accepts_def client_data_ok_def result_simps)
  have checks: "checkAuthData (auth_RPID (srv_Authenticator s)) (auth_UVPolicy (srv_Authenticator s)) (ar_UVOverride a)
      (ar_AuthenticatorData a) = Inr (ad, UV ad)" "checkAssertion (env_crypto e) a cred ad = Inr ()"
    using acc by (auto simp: login_accepts_def checkAuthData_Inr checkAssertion_Inr)
  have "Routes_prog s e r = loginFinish_prog s e r"
    using rt by (simp add: Routes_prog_def handle_prog_def routed_def)
  then show ?thesis
    using token by (simp add: loginFinish_prog_def loginChecks_prog_def loginCommit_prog_def clientData_prog_def orReply_def
        req cd checks st Let_def token_reply_def)
qed

text \<open>What a login request meets, and what it would be answered.\<close>

definition login_ready :: "Server \<Rightarrow> env \<Rightarrow> request \<Rightarrow> world \<Rightarrow> AssertionRequest \<Rightarrow> bytes \<Rightarrow> Credential \<Rightarrow> AuthData \<Rightarrow> response \<Rightarrow> bool" where
  "login_ready s e r w a chal cred ad resp \<longleftrightarrow>
     routed r LoginFinish \<and> asks_login r a \<and> env_ok s w e \<and> env_works e \<and>
     login_accepts (env_crypto e) (srv_Authenticator s) a (wallClock (env_io e)) w chal cred ad \<and>
     (\<exists>token. token_reply s e cred ad token resp)"

lemma lost_update:
  assumes wf: "server_wf s" and run: "interleaved s w0 w ts tr"
    and A: "login_ready s ea ra w a chal cred ad resp" and B: "login_ready s eb rb w b chal2 cred ad2 resp2"
    and keys: "ar_Username a \<noteq> ar_Username b" and id: "ar_CredentialID b = ar_CredentialID a"
  shows "\<exists>w' tr'. interleaved s w0 w' (pair_of ts ea ra (Return (resp, [])) eb rb (Return (resp2, []))) tr' \<and>
    view s w' = (view s w)(ar_CredentialID a \<mapsto> cred\<lparr>cred_SignCount := SignCount ad\<rparr>)"
proof -
  let ?i = "ar_CredentialID a" and ?ta = "wallClock (env_io ea)" and ?tb = "wallClock (env_io eb)"
  note a = A [unfolded login_ready_def env_ok_def env_works_def] and b = B [unfolded login_ready_def env_ok_def env_works_def]
  have ok: "sound s w" using wf run by (rule interleaved_sound)
  have st: "auth_Store (srv_Authenticator s) = srv_Store s" using wf by (simp add: server_wf_def)
  have v: "view s w ?i = Some cred" using a st by (simp add: login_accepts_def)
  obtain k1 k2 k3 where k: "Routes_prog s ea ra = AskConsume (ar_Username a) PurposeLogin chal ?ta k1"
      "k1 (Inr ()) = AskFind (srv_Store s) (env_io ea) ?i k2"
      "k2 (Inr (Some cred)) = AskStore (srv_Store s) (env_io' ea) (OpSetCount ?i (SignCount ad)) k3" "k3 (Inr ()) = Return (resp, [])"
    using login_sections [OF wf, of ra a ea w chal cred ad] a by metis
  obtain l1 l2 l3 where l: "Routes_prog s eb rb = AskConsume (ar_Username b) PurposeLogin chal2 ?tb l1"
      "l1 (Inr ()) = AskFind (srv_Store s) (env_io eb) ?i l2"
      "l2 (Inr (Some cred)) = AskStore (srv_Store s) (env_io' eb) (OpSetCount ?i (SignCount ad2)) l3" "l3 (Inr ()) = Return (resp2, [])"
    using login_sections [OF wf, of rb b eb w chal2 cred ad2] b id by metis
  let ?ka = "(ar_Username a, PurposeLogin)" and ?kb = "(ar_Username b, PurposeLogin)"
  let ?ca = "consumed_state ?ka chal ?ta (challenges w)"
  let ?cb = "consumed_state ?kb chal2 ?tb ?ca"
  have ra: "redeemable ?ka chal ?ta (challenges w)" and "redeemable ?kb chal2 ?tb (challenges w)"
    using a b by (auto simp: login_accepts_def)
  moreover have "outstanding_challenge ?ca ?kb = outstanding_challenge (challenges w) ?kb"
    using keys by (intro ch.redeemed_other) simp
  moreover have "now ?ca = now (challenges w)" "ttl ?ca = ttl (challenges w)" by (simp_all add: consumed_state_def)
  ultimately have rb: "redeemable ?kb chal2 ?tb ?ca" by (simp add: redeemable_iff)
  have 1: "\<exists>tr. interleaved s w0 w (pair_of ts ea ra (Routes_prog s ea ra) eb rb (Routes_prog s eb rb)) tr"
    using pair_arrive [OF run] by blast
  have "advance (Routes_prog s ea ra) w = (k1 (Inr ()), put_challenges ?ca w)"
    using ra by (simp add: k(1) Consume_redeemable [THEN iffD2])
  with 1 have 2: "\<exists>tr. interleaved s w0 (put_challenges ?ca w) (pair_of ts ea ra (k1 (Inr ())) eb rb (Routes_prog s eb rb)) tr"
    by (intro pair_steps(1) [OF 1]) (simp_all add: k(1))
  have fa: "FindByID (env_io ea) (srv_Store s) ?i (disk w) = Inr (Some cred)"
      "FindByID (env_io eb) (srv_Store s) ?i (disk w) = Inr (Some cred)"
    using find_works [OF ok] a b v by simp_all
  have 3: "\<exists>tr. interleaved s w0 (put_challenges ?ca w) (pair_of ts ea ra (k2 (Inr (Some cred))) eb rb (Routes_prog s eb rb)) tr"
    using a fa by (intro pair_steps(1) [OF 2]) (simp_all add: k(2))
  have 4: "\<exists>tr. interleaved s w0 (put_challenges ?cb (put_challenges ?ca w)) (pair_of ts ea ra (k2 (Inr (Some cred))) eb rb (l1 (Inr ()))) tr"
    using rb by (intro pair_steps(2) [OF 3]) (simp_all add: l(1) Consume_redeemable [THEN iffD2])
  have 5: "\<exists>tr. interleaved s w0 (put_challenges ?cb (put_challenges ?ca w))
      (pair_of ts ea ra (k2 (Inr (Some cred))) eb rb (l2 (Inr (Some cred)))) tr"
    using b fa by (intro pair_steps(2) [OF 4]) (simp_all add: l(2))
  obtain d1 where d1: "run_op (env_io' eb) (srv_Store s) (OpSetCount ?i (SignCount ad2)) (disk w) = (Inr (), d1)"
    using update_works [OF ok, of "env_io' eb" ?i "SignCount ad2"] b v by auto
  note s1 = st.exec_success [OF ok _ d1] st.exec_ok [OF ok _ d1] io_ok_kept [OF _ d1]
  let ?w1 = "put_disk d1 (put_challenges ?cb (put_challenges ?ca w))"
  have 6: "\<exists>tr. interleaved s w0 ?w1 (pair_of ts ea ra (k2 (Inr (Some cred))) eb rb (Return (resp2, []))) tr"
    using b d1 l(4) by (intro pair_steps(2) [OF 5]) (simp_all add: l(3))
  have w1: "store_ok (srv_Store s) d1" "store_view (srv_Store s) d1 = (view s w)(?i \<mapsto> cred\<lparr>cred_SignCount := SignCount ad2\<rparr>)"
      "io_ok (srv_Store s) d1 (env_io' ea)"
    using s1 a b v by simp_all
  obtain d2 where d2: "run_op (env_io' ea) (srv_Store s) (OpSetCount ?i (SignCount ad)) d1 = (Inr (), d2)"
    using update_works [OF w1(1,3), of ?i "SignCount ad"] a w1(2) by auto
  have 7: "\<exists>tr. interleaved s w0 (put_disk d2 ?w1) (pair_of ts ea ra (Return (resp, [])) eb rb (Return (resp2, []))) tr"
    using w1(3) d2 k(4) by (intro pair_steps(1) [OF 6]) (simp_all add: k(3))
  have "view s (put_disk d2 ?w1) = (view s w)(?i \<mapsto> cred\<lparr>cred_SignCount := SignCount ad\<rparr>)"
    using st.exec_success [OF w1(1,3) d2] w1(2) by simp
  then show ?thesis using 7 by blast
qed

section \<open>A concrete pair of logins\<close>

lemma issue_keeps_fresh:
  assumes "redeemable k c t cs" and "k' \<noteq> k" and "now cs t' \<le> now cs t"
  shows "redeemable k c t (issued_state k' c' t' cs)"
proof -
  obtain t0 where t0: "pending cs k = Some \<lparr>challenge = c, issuedAt = t0\<rparr>" "now cs t - t0 \<le> ttl cs"
    using assms(1) by (auto simp: redeemable_iff outstanding_Some)
  then have "pending (issued_state k' c' t' cs) k = Some \<lparr>challenge = c, issuedAt = t0\<rparr>"
    using assms(2,3) by (auto simp: issued_state_def Issue_def purgeExpiredLocked_def expired_def Let_def)
  then show ?thesis using t0(2) by (simp add: redeemable_iff outstanding_Some ch.issue_config)
qed

text \<open>The requests of the virtual authenticator that a login waits for.\<close>

lemma asks_login_body:
  assumes "u \<noteq> []" and "coerceString u = u" and "coerceString uv = uv"
  shows "asks_login (post_request [''login'', ''finish''] (login_finish_body u uv res)) (assertion_request u uv res)"
  using assms by (simp add: asks_login_def decode_login_finish decodeLoginFinish_def assertion_request_def)

lemma assertion_ready:
  assumes srv: "server_ok (srv_Registrar s) (srv_Authenticator s) origin" and wf: "server_wf s" and g: "v_good v"
    and sig: "signing_correct (env_crypto e) sg v" and env: "env_ok s w e" "env_works e"
    and rdy: "ready_to_login (srv_Authenticator s) (env_io e) (env_io' e) u chal credID v cred w"
    and u: "u \<noteq> []" "coerceString u = u" "coerceString uv = uv"
    and t: "json_time_ok (signer_now (srv_Sessions s) (wallClock (env_io' e)))"
      "json_time_ok (signer_now (srv_Sessions s) (wallClock (env_io' e)) + signer_ttl (srv_Sessions s))"
  shows "\<exists>r a c ad resp. login_ready s e r w a c cred ad resp \<and> ar_Username a = u \<and> ar_CredentialID a = credID \<and>
    SignCount ad = v_signCount (v_next v)"
proof -
  have st: "auth_Store (srv_Authenticator s) = srv_Store s" using wf by (simp add: server_wf_def)
  obtain res w' where res: "v_Authenticate sg (auth_RPID (srv_Authenticator s)) origin chal credID v = (Inr res, v_next v)"
      "Login (env_crypto e) (env_io e) (env_io' e) (srv_Authenticator s) (assertion_request u uv res) w =
        (Inr \<lparr>result_Username = cred_Username cred, result_UVPerformed = True\<rparr>, w')"
      "view s w' = (view s w)(credID \<mapsto> cred\<lparr>cred_SignCount := v_signCount (v_next v)\<rparr>)"
    using assertion_logs_in [OF srv g sig rdy, of uv] st by auto
  have id: "ar_CredentialID (assertion_request u uv res) = credID"
    using res(1) by (auto simp: v_Authenticate_def assertion_request_def Let_def split: prod.splits sum.splits)
  have v: "sound s w" "view s w credID = Some cred" using rdy st by (auto simp: ready_to_login_def)
  obtain c cred' ad where acc: "login_accepts (env_crypto e) (srv_Authenticator s) (assertion_request u uv res)
        (wallClock (env_io e)) w c cred' ad"
      "view s w' = (view s w)(credID \<mapsto> cred'\<lparr>cred_SignCount := SignCount ad\<rparr>)"
    using Login_Inr [OF _ _ _ res(2), unfolded st, OF v(1)] env(1) id unfolding env_ok_def by auto
  have cred: "cred' = cred" using acc(1) v(2) id st by (simp add: login_accepts_def)
  have n: "SignCount ad = v_signCount (v_next v)"
    using fun_cong [OF trans [OF sym [OF acc(2)] res(3)], of credID] cred
    by (auto dest: arg_cong [where f = cred_SignCount])
  obtain token where "session_Issue (env_text e) (srv_Sessions s) (cred_Username cred) (UV ad) (wallClock (env_io' e)) = Inr token"
    using t by (auto simp: session_Issue_def Marshal_Claims_def Let_def)
  then have "\<exists>token resp. token_reply s e cred ad token resp" by (auto simp: token_reply_def)
  then show ?thesis
    using asks_login_body [OF u] routed_posts(4) env acc(1) cred n id
    by (fastforce simp: login_ready_def assertion_request_def)
qed

lemma demo_two_logins:
  "\<exists>w0 w ts tr ra a c cred ad resp rb b c2 ad2 resp2.
     interleaved demo_server w0 w ts tr \<and>
     login_ready demo_server (demo_env (3 * second) 5) ra w a c cred ad resp \<and>
     login_ready demo_server (demo_env (3 * second) 6) rb w b c2 cred ad2 resp2 \<and>
     ar_Username a \<noteq> ar_Username b \<and> ar_CredentialID a = demo_credID \<and> ar_CredentialID b = ar_CredentialID a \<and>
     SignCount ad < SignCount ad2"
proof -
  let ?e = "demo_env 0 1" and ?e2 = "demo_env second 2" and ?e3 = "demo_env (2 * second) 3" and ?e4 = "demo_env (2 * second) 4"
  let ?c = "replicate ChallengeLength 3 :: bytes" and ?c2 = "replicate ChallengeLength 4 :: bytes"
  let ?cred = "registered (env_io ?e2) demo_user [] demo_v (reg_RPID (srv_Registrar demo_server)) demo_credID"
  obtain w1 rr w2 where r: "Routes demo_server ?e (post_request [''register'', ''begin''] (begin_body demo_user)) demo_world =
        ((writeJSON StatusOK (Some (creationOptions demo_server demo_user (replicate 16 1) (replicate ChallengeLength 1))), []), w1)"
      "Routes demo_server ?e2 (post_request [''register'', ''finish''] (register_finish_body demo_user [] [] rr)) w1 =
        ((noContent, []), w2)"
      "view demo_server w2 demo_credID = Some ?cred" "env_ok demo_server w1 ?e2" "env_ok demo_server w2 ?e3"
    using demo_runs by blast
  note run2 = server_run.serve [OF server_run.serve [OF server_run.start [OF demo_world_ok(3,1,2)] demo_env_ok(1) r(1)] r(4,2)]
  have ok2: "sound demo_server w2" using run2 demo_server_ok(1) by (rule server_run_sound)
  have env2: "env_ok demo_server w2 (demo_env t b)" for t b
    using r(5) by (simp add: env_ok_def demo_env_def demo_io_def io_ok_def)
  let ?w3 = "w2\<lparr>challenges := issued_state (demo_user, PurposeLogin) ?c (2 * second) (challenges w2)\<rparr>"
  let ?w = "?w3\<lparr>challenges := issued_state (''bob'', PurposeLogin) ?c2 (2 * second) (challenges ?w3)\<rparr>"
  have env: "env_ok demo_server ?w3 (demo_env t b)" "env_ok demo_server ?w (demo_env t b)" for t b
    using env2 by (simp_all add: env_ok_def)
  have nf: "no_failures (env_io (demo_env t b))" "no_failures (env_io' (demo_env t b))" for t b
    using demo_env_ok(2) [of t b] by (simp_all add: env_works_def)
  have bob: "''bob'' \<noteq> []" "coerceString ''bob'' = ''bob''" by (simp_all add: coerceString_ascii byte_of_char_def)
  obtain creds creds2 where f: "FindByUsername (env_io ?e3) (srv_Store demo_server) demo_user (disk w2) = Inr creds"
      "FindByUsername (env_io ?e4) (srv_Store demo_server) ''bob'' (disk w2) = Inr creds2"
    using find_by_username_works [OF ok2 nf(1)] by blast
  have s3: "Routes demo_server ?e3 (post_request [''login'', ''begin''] (begin_body demo_user)) w2 =
      ((writeJSON StatusOK (Some (requestOptions demo_server ?c creds [])), []), ?w3)"
    using login_begin_step [OF demo_strings(1,2) demo_env_ok(7) f(1)] by (simp add: demo_env_ok)
  have f2: "FindByUsername (env_io ?e4) (srv_Store demo_server) ''bob'' (disk ?w3) = Inr creds2" using f(2) by simp
  have s4: "Routes demo_server ?e4 (post_request [''login'', ''begin''] (begin_body ''bob'')) ?w3 =
      ((writeJSON StatusOK (Some (requestOptions demo_server ?c2 creds2 [])), []), ?w)"
    using login_begin_step [OF bob demo_env_ok(7) f2] by (simp add: demo_env_ok)
  have "server_run demo_server ?w [(?w3, ?e4, post_request [''login'', ''begin''] (begin_body ''bob''),
        writeJSON StatusOK (Some (requestOptions demo_server ?c2 creds2 []))),
      (w2, ?e3, post_request [''login'', ''begin''] (begin_body demo_user),
        writeJSON StatusOK (Some (requestOptions demo_server ?c creds []))),
      (w1, ?e2, post_request [''register'', ''finish''] (register_finish_body demo_user [] [] rr), noContent),
      (demo_world, ?e, post_request [''register'', ''begin''] (begin_body demo_user),
        writeJSON StatusOK (Some (creationOptions demo_server demo_user (replicate 16 1) (replicate ChallengeLength 1))))]"
    by (rule server_run.serve [OF server_run.serve [OF run2 env2 s3] env(1) s4])
  from server_run_interleaved [OF this demo_server_ok(1)] obtain w0 ts tr where run: "interleaved demo_server w0 ?w ts tr" by blast
  have cfg: "now (challenges w2) = (\<lambda>t. t)" "ttl (challenges w2) = ChallengeTTL"
    using challenge_run_inv interleaved_projects [OF demo_server_ok(1) run] by (fastforce simp: ch.issue_config)+
  have red: "redeemable (demo_user, PurposeLogin) ?c (3 * second) (challenges ?w)"
    "redeemable (''bob'', PurposeLogin) ?c2 (3 * second) (challenges ?w)"
    by (auto intro!: issue_keeps_fresh ch.fresh_use simp: cfg ch.issue_config ChallengeTTL_def second_def demo_user_def)
  have st: "auth_Store (srv_Authenticator demo_server) = srv_Store demo_server" using demo_server_ok(1) by (simp add: server_wf_def)
  have rdy: "ready_to_login (srv_Authenticator demo_server) (env_io (demo_env (3 * second) b)) (env_io' (demo_env (3 * second) b))
      u c demo_credID v ?cred ?w"
    if "redeemable (u, PurposeLogin) c (3 * second) (challenges ?w)" "v = demo_v \<or> v = v_next demo_v" for b u c v
    using that ok2 r(3) env(2) nf
    by (auto simp: ready_to_login_def st env_ok_def demo_env_ok registered_fields counter_ok_def demo_v_def v_next_def cose_value_def)
  have srv: "server_ok (srv_Registrar demo_server) (srv_Authenticator demo_server) demo_origin"
    using demo_server_ok(2) by (simp add: demo_server_def)
  have g: "v_good (v_next demo_v)" "signing_correct (env_crypto (demo_env t b)) demo_signing (v_next demo_v)"
      "signing_correct (env_crypto (demo_env t b)) demo_signing demo_v" for t b
    using demo_v_good demo_signing_correct by (simp_all add: demo_env_ok v_good_def demo_v_def v_next_def signing_correct_def v_sign_def v_PublicKey_def)
  have t: "json_time_ok (signer_now (srv_Sessions demo_server) (wallClock (env_io' (demo_env (3 * second) b))))"
      "json_time_ok (signer_now (srv_Sessions demo_server) (wallClock (env_io' (demo_env (3 * second) b))) +
         signer_ttl (srv_Sessions demo_server))" for b
    by (simp_all add: demo_env_ok demo_server_def json_time_ok_def second_def)
  obtain ra a c ad resp where A: "login_ready demo_server (demo_env (3 * second) 5) ra ?w a c ?cred ad resp"
      "ar_Username a = demo_user" "ar_CredentialID a = demo_credID" "SignCount ad = v_signCount (v_next demo_v)"
    using assertion_ready [OF srv demo_server_ok(1) demo_v_good g(3) env(2) demo_env_ok(2) rdy [OF red(1)] demo_strings(1,2,4) t]
    by blast
  obtain rb b c2 ad2 resp2 where B: "login_ready demo_server (demo_env (3 * second) 6) rb ?w b c2 ?cred ad2 resp2"
      "ar_Username b = ''bob''" "ar_CredentialID b = demo_credID" "SignCount ad2 = v_signCount (v_next (v_next demo_v))"
    using assertion_ready [OF srv demo_server_ok(1) g(1,2) env(2) demo_env_ok(2) rdy [OF red(2)] bob demo_strings(4) t]
    by blast
  have "SignCount ad < SignCount ad2" using A(4) B(4) by (simp add: demo_v_def v_next_def)
  then show ?thesis using run A B by (intro exI) (auto simp: demo_user_def)
qed

end
