(* ===== verification/Url.thy ===== *)
theory Url
  imports Prelude "HOL-Library.Char_ord"
begin

text \<open>
  What the start-up code uses of \<open>net/url\<close>: whether \<open>url.Parse\<close> accepts a text, and the host
  name of the result, as Go 1.25.0 has them (later patch releases refuse more of the hosts
  in brackets).  Errors are \<open>None\<close>; path, query and fragment are checked and then dropped.
\<close>

definition is_digit :: "char \<Rightarrow> bool" where
  "is_digit c \<longleftrightarrow> CHR ''0'' \<le> c \<and> c \<le> CHR ''9''"

definition is_letter :: "char \<Rightarrow> bool" where
  "is_letter c \<longleftrightarrow> (CHR ''a'' \<le> c \<and> c \<le> CHR ''z'') \<or> (CHR ''A'' \<le> c \<and> c \<le> CHR ''Z'')"

text \<open>\<open>strings.Cut\<close> at a character, and the two parts around its last occurrence.\<close>

definition Cut :: "char \<Rightarrow> string \<Rightarrow> string \<times> string" where
  "Cut c s = (takeWhile (\<lambda>x. x \<noteq> c) s, tl (dropWhile (\<lambda>x. x \<noteq> c) s))"

definition cut_last :: "char \<Rightarrow> string \<Rightarrow> (string \<times> string) option" where
  "cut_last c s =
     (if c \<in> set s then
        let after = rev (takeWhile (\<lambda>x. x \<noteq> c) (rev s)) in Some (take (length s - length after - 1) s, after)
      else None)"

text \<open>\<open>shouldEscape\<close> for a host, and \<open>unescape\<close> in its modes for a host, a zone and the rest.\<close>

definition host_char :: "char \<Rightarrow> bool" where
  "host_char c \<longleftrightarrow> is_letter c \<or> is_digit c \<or> c \<in> set ''!$&()*+,;=:[]<>-_.~'' \<or> c = CHR 0x27 \<or> c = CHR 0x22"

datatype encoding = EncodeHost | EncodeZone | EncodeOther

definition unhex :: "char \<Rightarrow> nat option" where
  "unhex c =
     (if is_digit c then Some (of_char c - 48)
      else if CHR ''a'' \<le> c \<and> c \<le> CHR ''f'' then Some (of_char c - 87)
      else if CHR ''A'' \<le> c \<and> c \<le> CHR ''F'' then Some (of_char c - 55)
      else None)"

definition percent_allowed :: "encoding \<Rightarrow> nat \<Rightarrow> bool" where
  "percent_allowed mode v \<longleftrightarrow>
     (case mode of
        EncodeHost \<Rightarrow> 0x80 \<le> v \<or> v = 0x25
      | EncodeZone \<Rightarrow> v = 0x25 \<or> v = 0x20 \<or> host_char (char_of v)
      | EncodeOther \<Rightarrow> True)"

definition byte_allowed :: "encoding \<Rightarrow> char \<Rightarrow> bool" where
  "byte_allowed mode c \<longleftrightarrow> mode = EncodeOther \<or> 0x80 \<le> (of_char c :: nat) \<or> host_char c"

fun unescape :: "encoding \<Rightarrow> string \<Rightarrow> string option" where
  "unescape mode [] = Some []"
| "unescape mode (c # s) =
     (if c = CHR ''%'' then
        (case s of
           a # b # s' \<Rightarrow>
             (case (unhex a, unhex b) of
                (Some x, Some y) \<Rightarrow>
                  if percent_allowed mode (16 * x + y)
                  then map_option ((#) (char_of (16 * x + y))) (unescape mode s') else None
              | _ \<Rightarrow> None)
         | _ \<Rightarrow> None)
      else if byte_allowed mode c then map_option ((#) c) (unescape mode s) else None)"

definition validOptionalPort :: "string \<Rightarrow> bool" where
  "validOptionalPort s \<longleftrightarrow> s = [] \<or> (hd s = CHR '':'' \<and> list_all is_digit (tl s))"

text \<open>The first position of the text \<open>%25\<close>.\<close>

fun find_zone :: "string \<Rightarrow> nat option" where
  "find_zone [] = None"
| "find_zone (c # s) = (if take 3 (c # s) = ''%25'' then Some 0 else map_option Suc (find_zone s))"

definition parseHost :: "string \<Rightarrow> string option" where
  "parseHost host =
     (if take 1 host = ''['' then
        (case cut_last (CHR '']'') host of
           None \<Rightarrow> None
         | Some (literal, colonPort) \<Rightarrow>
             if \<not> validOptionalPort colonPort then None
             else (case find_zone literal of
               Some zone \<Rightarrow>
                 Option.bind (unescape EncodeHost (take zone host)) (\<lambda>host1.
                 Option.bind (unescape EncodeZone (drop zone literal)) (\<lambda>host2.
                 Option.bind (unescape EncodeHost (drop (length literal) host)) (\<lambda>host3.
                 Some (host1 @ host2 @ host3))))
             | None \<Rightarrow> unescape EncodeHost host))
      else (case cut_last (CHR '':'') host of
           Some (_, port) \<Rightarrow> if validOptionalPort (CHR '':'' # port) then unescape EncodeHost host else None
         | None \<Rightarrow> unescape EncodeHost host))"

definition validUserinfo :: "string \<Rightarrow> bool" where
  "validUserinfo s \<longleftrightarrow>
     list_all (\<lambda>c. is_letter c \<or> is_digit c \<or> c \<in> set ''-._:~!$&()*+,;=%@'' \<or> c = CHR 0x27) s"

definition parseAuthority :: "string \<Rightarrow> string option" where
  "parseAuthority authority =
     (case cut_last (CHR ''@'') authority of
        None \<Rightarrow> parseHost authority
      | Some (userinfo, rest) \<Rightarrow>
          Option.bind (parseHost rest) (\<lambda>host.
          if validUserinfo userinfo \<and> unescape EncodeOther (fst (Cut (CHR '':'') userinfo)) \<noteq> None \<and>
             unescape EncodeOther (snd (Cut (CHR '':'') userinfo)) \<noteq> None
          then Some host else None))"

text \<open>The scheme with what follows it, no scheme, or an error.\<close>

fun scheme_from :: "string \<Rightarrow> string \<Rightarrow> (string \<times> string) option" where
  "scheme_from seen [] = Some ([], rev seen)"
| "scheme_from seen (c # s) =
     (if is_letter c \<or> (seen \<noteq> [] \<and> (is_digit c \<or> c \<in> set ''+-.'')) then scheme_from (c # seen) s
      else if c = CHR '':'' then (if seen = [] then None else Some (rev seen, s))
      else Some ([], rev seen @ c # s))"

definition getScheme :: "string \<Rightarrow> (string \<times> string) option" where
  "getScheme rawURL = scheme_from [] rawURL"

definition checked_path :: "string \<Rightarrow> string \<Rightarrow> string option" where
  "checked_path host path = map_option (\<lambda>_. host) (unescape EncodeOther path)"

definition parse_host_part :: "string \<Rightarrow> string \<Rightarrow> string option" where
  "parse_host_part scheme rest =
     (if take 1 rest \<noteq> ''/'' \<and> scheme \<noteq> [] then Some []
      else if take 1 rest \<noteq> ''/'' \<and> CHR '':'' \<in> set (fst (Cut (CHR ''/'') rest)) then None
      else if (scheme \<noteq> [] \<or> take 3 rest \<noteq> ''///'') \<and> take 2 rest = ''//'' then
        Option.bind (parseAuthority (takeWhile (\<lambda>x. x \<noteq> CHR ''/'') (drop 2 rest))) (\<lambda>host.
        checked_path host (dropWhile (\<lambda>x. x \<noteq> CHR ''/'') (drop 2 rest)))
      else checked_path [] rest)"

definition ctl_byte :: "char \<Rightarrow> bool" where
  "ctl_byte c \<longleftrightarrow> c < CHR '' '' \<or> c = CHR 0x7f"

text \<open>The \<open>Host\<close> that \<open>url.Parse\<close> finds.\<close>

definition url_Parse :: "string \<Rightarrow> string option" where
  "url_Parse rawURL =
     (let (u, frag) = Cut (CHR ''#'') rawURL in
      if list_ex ctl_byte u then None
      else Option.bind (if u = ''*'' then Some []
        else Option.bind (getScheme u) (\<lambda>(scheme, rest).
          parse_host_part scheme (fst (Cut (CHR ''?'') rest)))) (\<lambda>host.
      Option.bind (unescape EncodeOther frag) (\<lambda>_. Some host)))"

definition Hostname :: "string \<Rightarrow> string" where
  "Hostname host =
     (let h = (case cut_last (CHR '':'') host of
          Some (before, port) \<Rightarrow> if validOptionalPort (CHR '':'' # port) then before else host
        | None \<Rightarrow> host)
      in if take 1 h = ''['' \<and> last h = CHR '']'' then butlast (tl h) else h)"

definition url_Hostname :: "string \<Rightarrow> string option" where
  "url_Hostname rawURL = map_option Hostname (url_Parse rawURL)"

section \<open>The host name of an origin\<close>

text \<open>The characters of a DNS name or an IPv4 address.\<close>

definition name_char :: "char \<Rightarrow> bool" where
  "name_char c \<longleftrightarrow> is_letter c \<or> is_digit c \<or> c = CHR ''-'' \<or> c = CHR ''.''"

lemma no_delimiter: "c \<in> set ''#?/@:%[]*'' \<Longrightarrow> \<not> name_char c"
proof -
  have "list_all (\<lambda>c. \<not> name_char c) ''#?/@:%[]*''" by code_simp
  then show "c \<in> set ''#?/@:%[]*'' \<Longrightarrow> \<not> name_char c" unfolding list_all_iff by (rule bspec)
qed

lemma letter_code: "is_letter c \<Longrightarrow> 65 \<le> (of_char c :: nat) \<and> (of_char c :: nat) \<le> 122"
  unfolding is_letter_def less_eq_char_def by (elim disjE conjE) simp_all

lemma digit_code: "is_digit c \<Longrightarrow> 48 \<le> (of_char c :: nat) \<and> (of_char c :: nat) \<le> 57"
  unfolding is_digit_def less_eq_char_def by (elim conjE) simp

lemma name_char_code: "name_char c \<Longrightarrow> 45 \<le> (of_char c :: nat) \<and> (of_char c :: nat) \<le> 122"
  unfolding name_char_def using letter_code [of c] digit_code [of c] by (elim disjE) simp_all

lemma ctl_code: "ctl_byte c \<Longrightarrow> (of_char c :: nat) < 32 \<or> (of_char c :: nat) = 127"
  unfolding ctl_byte_def less_char_def by (elim disjE) simp_all

lemma name_char_not_ctl: "name_char c \<Longrightarrow> \<not> ctl_byte c"
  using name_char_code [of c] ctl_code [of c] by linarith

lemma byte_allowed_host: "host_char c \<Longrightarrow> byte_allowed mode c"
  by (simp add: byte_allowed_def)

lemma name_char_host: "name_char c \<Longrightarrow> host_char c"
  unfolding name_char_def host_char_def by (elim disjE) simp_all

lemmas name_char_allowed = byte_allowed_host [OF name_char_host]

lemma digit_name_char: "is_digit c \<Longrightarrow> name_char c"
  by (simp add: name_char_def)

lemma Cut_absent: "c \<notin> set s \<Longrightarrow> Cut c s = (s, [])"
  by (induction s) (auto simp: Cut_def)

lemma cut_last_absent: "c \<notin> set s \<Longrightarrow> cut_last c s = None"
  by (simp add: cut_last_def)

lemma cut_last_append: "c \<notin> set t \<Longrightarrow> cut_last c (s @ c # t) = Some (s, t)"
proof -
  assume "c \<notin> set t"
  then have "takeWhile (\<lambda>x. x \<noteq> c) (rev t @ c # rev s) = rev t" by (subst takeWhile_append2) auto
  then show ?thesis by (simp add: cut_last_def)
qed

lemma unescape_plain: "list_all (\<lambda>c. c \<noteq> CHR ''%'' \<and> byte_allowed mode c) s \<Longrightarrow> unescape mode s = Some s"
  by (induction s) auto

lemma unescape_name: "list_all (\<lambda>c. name_char c \<or> c = CHR '':'') s \<Longrightarrow> unescape mode s = Some s"
proof (rule unescape_plain)
  have colon: "host_char (CHR '':'')" by code_simp
  have "c \<noteq> CHR ''%'' \<and> byte_allowed mode c" if "name_char c \<or> c = CHR '':''" for c
    using that no_delimiter [of "CHR ''%''"] byte_allowed_host [OF colon] name_char_allowed [of c]
    by (elim disjE) auto
  then show "list_all (\<lambda>c. name_char c \<or> c = CHR '':'') s \<Longrightarrow> list_all (\<lambda>c. c \<noteq> CHR ''%'' \<and> byte_allowed mode c) s"
    by (simp add: list_all_iff)
qed

lemma name_chars_absent: "list_all name_char h \<Longrightarrow> c \<in> set ''#?/@:%[]*'' \<Longrightarrow> c \<notin> set h"
  using no_delimiter by (auto simp: list_all_iff)

lemma scheme_from_letters:
  "list_all is_letter l \<Longrightarrow> l \<noteq> [] \<or> seen \<noteq> [] \<Longrightarrow> scheme_from seen (l @ CHR '':'' # s) = Some (rev seen @ l, s)"
proof (induction l arbitrary: seen)
  case Nil
  have "\<not> is_letter (CHR '':'')" "\<not> is_digit (CHR '':'')" by code_simp+
  then show ?case using Nil by simp
qed auto

definition authority_of :: "string \<Rightarrow> string option \<Rightarrow> string" where
  "authority_of h port = (case port of None \<Rightarrow> h | Some p \<Rightarrow> h @ CHR '':'' # p)"

lemma url_Hostname_origin:
  assumes scheme: "list_all is_letter scheme" "scheme \<noteq> []" and h: "list_all name_char h"
    and port: "list_all is_digit (case port of None \<Rightarrow> [] | Some p \<Rightarrow> p)"
  shows "url_Hostname (scheme @ ''://'' @ authority_of h port) = Some h"
proof -
  let ?a = "authority_of h port"
  let ?u = "scheme @ CHR '':'' # ''//'' @ ?a"
  have digits: "list_all name_char (case port of None \<Rightarrow> [] | Some p \<Rightarrow> p)"
    using port digit_name_char by (auto simp: list_all_iff)
  have a: "list_all (\<lambda>c. name_char c \<or> c = CHR '':'') ?a"
    using h digits by (auto simp: authority_of_def list_all_iff split: option.splits)
  have letters: "list_all name_char scheme" using scheme(1) by (auto simp: list_all_iff name_char_def)
  have u: "list_all (\<lambda>c. name_char c \<or> c \<in> {CHR '':'', CHR ''/''}) ?u"
    using a letters by (auto simp: list_all_iff)
  have absent: "c \<notin> set ?a" "c \<noteq> CHR ''/'' \<Longrightarrow> c \<notin> set ?u" if "c \<in> set ''#?/@%[]*''" for c
    using a u that no_delimiter [of c] by (auto simp: list_all_iff)
  have noctl: "\<not> ctl_byte (CHR '':'')" "\<not> ctl_byte (CHR ''/'')" by code_simp+
  have ctl: "\<not> list_ex ctl_byte ?u"
    using u noctl name_char_not_ctl by (auto simp: list_all_iff list_ex_iff)
  have port_cut: "(case cut_last (CHR '':'') ?a of Some (b, p) \<Rightarrow> validOptionalPort (CHR '':'' # p) \<and> b = h | None \<Rightarrow> ?a = h)"
  proof (cases port)
    case None
    then show ?thesis using name_chars_absent [OF h, of "CHR '':''"] by (simp add: authority_of_def cut_last_absent)
  next
    case (Some p)
    then have "CHR '':'' \<notin> set p" using name_chars_absent [of p "CHR '':''"] digits by simp
    then show ?thesis using Some port by (simp add: authority_of_def cut_last_append validOptionalPort_def)
  qed
  have bracket: "take 1 ?a \<noteq> ''[''" using absent(1) [of "CHR ''[''"] by (cases ?a) auto
  have "parseHost ?a = Some ?a"
    using bracket port_cut unescape_name [OF a, of EncodeHost] by (auto simp: parseHost_def split: option.splits)
  then have auth: "parseAuthority ?a = Some ?a"
    using absent(1) [of "CHR ''@''"] by (simp add: parseAuthority_def cut_last_absent)
  have slash: "takeWhile (\<lambda>x. x \<noteq> CHR ''/'') ?a = ?a" "dropWhile (\<lambda>x. x \<noteq> CHR ''/'') ?a = []"
    using absent(1) [of "CHR ''/''"] by (auto simp: takeWhile_eq_all_conv dropWhile_eq_Nil_conv)
  have rest: "CHR ''?'' \<notin> set (''//'' @ ?a)" using absent(1) [of "CHR ''?''"] by simp
  have part: "parse_host_part scheme (''//'' @ ?a) = Some ?a"
    using scheme(2) auth by (simp add: parse_host_part_def slash checked_path_def)
  have "url_Parse ?u = Some ?a"
    using ctl absent(2) [of "CHR ''#''"] absent(2) [of "CHR ''*''"] scheme part Cut_absent [OF rest]
    by (simp add: url_Parse_def Cut_absent getScheme_def scheme_from_letters)
  moreover have "take 1 h \<noteq> ''[''" using name_chars_absent [OF h, of "CHR ''[''"] by (cases h) auto
  ultimately show ?thesis
    using port_cut by (auto simp: url_Hostname_def Hostname_def Let_def split: option.splits)
qed

end
