(* ===== verification/Serve.thy ===== *)
theory Serve
  imports Httpapi_Correct Url
begin

text \<open>
  Start-up, \<open>cmd/vouchsafe/main.go\<close>: the command line, the session key file and the wiring of
  the server.  The \<open>flag\<close> package, \<open>strings.TrimSpace\<close>, \<open>strings.ToLower\<close> and
  \<open>net.SplitHostPort\<close> are written out for what the program uses of them; the case table of
  Unicode beyond ASCII is a function \<open>lower_rune\<close>.  Listening and the TLS certificate are
  part of \<open>Startup\<close>: \<open>setupServer\<close> is \<open>runServe\<close> up to the finished server.
\<close>

section \<open>Text\<close>

text \<open>The UTF-8 encodings of the white space that \<open>strings.TrimSpace\<close> removes.\<close>

definition white_spaces :: "bytes list" where
  "white_spaces = [[0x09], [0x0a], [0x0b], [0x0c], [0x0d], [0x20], [0xc2, 0x85], [0xc2, 0xa0],
     [0xe1, 0x9a, 0x80], [0xe2, 0x80, 0x80], [0xe2, 0x80, 0x81], [0xe2, 0x80, 0x82], [0xe2, 0x80, 0x83],
     [0xe2, 0x80, 0x84], [0xe2, 0x80, 0x85], [0xe2, 0x80, 0x86], [0xe2, 0x80, 0x87], [0xe2, 0x80, 0x88],
     [0xe2, 0x80, 0x89], [0xe2, 0x80, 0x8a], [0xe2, 0x80, 0xa8], [0xe2, 0x80, 0xa9], [0xe2, 0x80, 0xaf],
     [0xe2, 0x81, 0x9f], [0xe3, 0x80, 0x80]]"

lemma drop_prefix_shorter: "p \<noteq> [] \<Longrightarrow> take (length p) b = p \<Longrightarrow> length b - length p < length b"
  by (cases b) auto

function trim_front :: "bytes list \<Rightarrow> bytes \<Rightarrow> bytes" where
  "trim_front ws b =
     (case find (\<lambda>p. p \<noteq> [] \<and> take (length p) b = p) ws of
        None \<Rightarrow> b
      | Some p \<Rightarrow> trim_front ws (drop (length p) b))"
  by pat_completeness auto
termination
  by (relation "measure (\<lambda>(ws, b). length b)") (auto simp: find_Some_iff drop_prefix_shorter)

declare trim_front.simps [simp del]

definition TrimSpace :: "bytes \<Rightarrow> bytes" where
  "TrimSpace b = rev (trim_front (map rev white_spaces) (rev (trim_front white_spaces b)))"

text \<open>\<open>strings.ToLower\<close> over \<open>unicode.ToLower\<close>, of which the ASCII letters are written out.\<close>

function ToLower :: "(bytes \<Rightarrow> bytes) \<Rightarrow> bytes \<Rightarrow> bytes" where
  "ToLower lower_rune b =
     (if b = [] then []
      else if hd b < 0x80 then
        (if 0x41 \<le> hd b \<and> hd b \<le> 0x5a then hd b + 0x20 else hd b) # ToLower lower_rune (tl b)
      else if utf8_len b = 0 then runeError @ ToLower lower_rune (tl b)
      else lower_rune (take (utf8_len b) b) @ ToLower lower_rune (drop (utf8_len b) b))"
  by pat_completeness auto
termination
  by (relation "measure (\<lambda>(f, b). length b)") auto

declare ToLower.simps [simp del]

definition normalizeUV :: "(bytes \<Rightarrow> bytes) \<Rightarrow> string \<Rightarrow> string" where
  "normalizeUV lower_rune s = string_of_bytes (ToLower lower_rune (TrimSpace (bytes_of_string s)))"

section \<open>The command line\<close>

datatype serve_error =
    BadFlag | NoRPID | InvalidUV | FromOpen store_error | ReadKey | GenerateKey | WriteKey
  | FromSession session_error

record serveConfig =
  cfg_listen :: string
  cfg_origins :: "string list"
  cfg_rpID :: string
  cfg_uvPolicy :: UVPolicy
  cfg_storePath :: string
  cfg_sessionKeyPath :: string
  cfg_tlsEnabled :: bool

text \<open>\<open>originList.Set\<close>: the flag can be repeated.\<close>

definition originList_Set :: "string \<Rightarrow> string list \<Rightarrow> string list" where
  "originList_Set v os = os @ [v]"

definition ParseBool :: "string \<Rightarrow> bool option" where
  "ParseBool s =
     (if s \<in> {''1'', ''t'', ''T'', ''true'', ''TRUE'', ''True''} then Some True
      else if s \<in> {''0'', ''f'', ''F'', ''false'', ''FALSE'', ''False''} then Some False
      else None)"

text \<open>The flags with their defaults; the values are kept in a configuration until they are checked.\<close>

definition default_flags :: serveConfig where
  "default_flags = \<lparr>cfg_listen = ''127.0.0.1:8080'', cfg_origins = [], cfg_rpID = [], cfg_uvPolicy = ''preferred'',
     cfg_storePath = ''./vouchsafe.json'', cfg_sessionKeyPath = [], cfg_tlsEnabled = False\<rparr>"

definition is_bool_flag :: "string \<Rightarrow> bool" where
  "is_bool_flag name \<longleftrightarrow> name = ''tls''"

definition set_flag :: "string \<Rightarrow> string \<Rightarrow> serveConfig \<Rightarrow> serveConfig option" where
  "set_flag name v fl =
     (if name = ''listen'' then Some (fl\<lparr>cfg_listen := v\<rparr>)
      else if name = ''origin'' then Some (fl\<lparr>cfg_origins := originList_Set v (cfg_origins fl)\<rparr>)
      else if name = ''rp-id'' then Some (fl\<lparr>cfg_rpID := v\<rparr>)
      else if name = ''uv'' then Some (fl\<lparr>cfg_uvPolicy := v\<rparr>)
      else if name = ''store'' then Some (fl\<lparr>cfg_storePath := v\<rparr>)
      else if name = ''session-key'' then Some (fl\<lparr>cfg_sessionKeyPath := v\<rparr>)
      else if name = ''tls'' then map_option (\<lambda>b. fl\<lparr>cfg_tlsEnabled := b\<rparr>) (ParseBool v)
      else None)"

definition known_flags :: "string list" where
  "known_flags = [''listen'', ''origin'', ''rp-id'', ''uv'', ''store'', ''session-key'', ''tls'']"

text \<open>The name of a flag and the value behind an equals sign that is not its first character.\<close>

definition split_flag :: "string \<Rightarrow> string \<times> string option" where
  "split_flag s =
     (case s of
        [] \<Rightarrow> (s, None)
      | c # cs \<Rightarrow>
          if CHR ''='' \<in> set cs
          then (c # takeWhile (\<lambda>x. x \<noteq> CHR ''='') cs, Some (tl (dropWhile (\<lambda>x. x \<noteq> CHR ''='') cs)))
          else (s, None))"

text \<open>What \<open>flag\<close> sees in one argument: the end of the flags, an error, or a flag.\<close>

datatype flag_arg = NoFlag | BadSyntax | Flag string "string option"

definition read_arg :: "string \<Rightarrow> flag_arg" where
  "read_arg s =
     (if length s < 2 \<or> hd s \<noteq> CHR ''-'' then NoFlag
      else if s = ''--'' then NoFlag
      else let name = (if s ! 1 = CHR ''-'' then drop 2 s else tl s) in
        if name = [] \<or> hd name = CHR ''-'' \<or> hd name = CHR ''='' then BadSyntax
        else (case split_flag name of (n, v) \<Rightarrow> Flag n v))"

fun parse_flags :: "string list \<Rightarrow> serveConfig \<Rightarrow> serve_error + serveConfig" where
  "parse_flags [] fl = Inr fl"
| "parse_flags (a # args) fl =
     (case read_arg a of
        NoFlag \<Rightarrow> Inr fl
      | BadSyntax \<Rightarrow> Inl BadFlag
      | Flag name v \<Rightarrow>
          if name \<notin> set known_flags then Inl BadFlag
          else (case v of
            Some x \<Rightarrow> bindE (someOr (set_flag name x fl) BadFlag) (parse_flags args)
          | None \<Rightarrow>
              if is_bool_flag name then bindE (someOr (set_flag name ''true'' fl) BadFlag) (parse_flags args)
              else (case args of
                [] \<Rightarrow> Inl BadFlag
              | x # args' \<Rightarrow> bindE (someOr (set_flag name x fl) BadFlag) (parse_flags args'))))"

definition parseServeFlags :: "(bytes \<Rightarrow> bytes) \<Rightarrow> string list \<Rightarrow> serve_error + serveConfig" where
  "parseServeFlags lower_rune args =
     bindE (parse_flags args default_flags) (\<lambda>fl.
     let origins = (if cfg_origins fl = [] then [''http://'' @ cfg_listen fl] else cfg_origins fl) in
     bindE (if cfg_rpID fl \<noteq> [] then Inr (cfg_rpID fl)
        else bindE (someOr (url_Hostname (hd origins)) NoRPID) (\<lambda>host.
          bindE (failIf (host = []) NoRPID) (\<lambda>_. Inr host))) (\<lambda>rpID.
     let uvPolicy = normalizeUV lower_rune (cfg_uvPolicy fl) in
     bindE (failIf (uvPolicy \<noteq> UVRequired \<and> uvPolicy \<noteq> UVPreferred \<and> uvPolicy \<noteq> UVDiscouraged) InvalidUV) (\<lambda>_.
     Inr (fl\<lparr>cfg_origins := origins, cfg_rpID := rpID, cfg_uvPolicy := uvPolicy\<rparr>))))"

section \<open>The loopback warning\<close>

text \<open>\<open>net.SplitHostPort\<close>: the host, or no result.\<close>

definition SplitHostPort :: "string \<Rightarrow> (string \<times> string) option" where
  "SplitHostPort s =
     (if CHR '':'' \<notin> set s then None
      else
        let port = rev (takeWhile (\<lambda>c. c \<noteq> CHR '':'') (rev s));
            before = take (length s - length port - 1) s in
        if hd s = CHR ''['' then
          (if CHR '']'' \<notin> set s then None
           else
             let host = takeWhile (\<lambda>c. c \<noteq> CHR '']'') (tl s) in
             if length host + 2 \<noteq> length before then None
             else if CHR ''['' \<in> set (tl s) \<or> CHR '']'' \<in> set (drop (length host + 2) s) then None
             else Some (host, port))
        else if CHR '':'' \<in> set before then None
        else if CHR ''['' \<in> set s \<or> CHR '']'' \<in> set s then None
        else Some (before, port))"

definition loopback_text :: string where
  "loopback_text = ''[warn]  listen address is not loopback: browsers will refuse WebAuthn here unless the origin is HTTPS''"

definition loopbackWarning :: "string \<Rightarrow> string" where
  "loopbackWarning listen =
     (case SplitHostPort listen of
        None \<Rightarrow> []
      | Some (host, _) \<Rightarrow>
          if host \<in> {[], ''127.0.0.1'', ''localhost'', ''::1''} then [] else loopback_text)"

section \<open>The session key\<close>

text \<open>
  The key files, what \<open>rand.Read\<close> yields, whether reading or writing a file fails for another
  reason than its absence, and what a failed \<open>os.WriteFile\<close> leaves behind.
\<close>

type_synonym key_files = "path \<rightharpoonup> nat \<times> bytes"

record key_io =
  key_rand :: "nat \<Rightarrow> bytes option"
  read_fails :: bool
  write_fails :: bool
  partial_write :: "(nat \<times> bytes) option"

definition loadOrCreateSessionKey :: "key_io \<Rightarrow> path \<Rightarrow> (key_files, serve_error, bytes) op" where
  "loadOrCreateSessionKey io path files =
     (if path = [] then (someOr (key_rand io 32) GenerateKey, files)
      else if read_fails io then (Inl ReadKey, files)
      else case files path of
        Some (_, data) \<Rightarrow> (Inr data, files)
      | None \<Rightarrow>
          (case key_rand io 32 of
             None \<Rightarrow> (Inl GenerateKey, files)
           | Some key \<Rightarrow>
               if write_fails io then (Inl WriteKey, files(path := partial_write io))
               else (Inr key, files(path \<mapsto> (mode_0600, key)))))"

section \<open>The server\<close>

definition setupServer :: "(bytes \<Rightarrow> bytes) \<Rightarrow> store_io \<Rightarrow> key_io \<Rightarrow> string list \<Rightarrow> fs \<Rightarrow>
    (key_files, serve_error, serveConfig \<times> Server \<times> ChallengeStore) op" where
  "setupServer lower_rune io kio args fs =
     bindS (liftS (parseServeFlags lower_rune args)) (\<lambda>cfg.
     bindS (liftS (wrapE FromOpen (Open io (cfg_storePath cfg) fs))) (\<lambda>st.
     bindS (loadOrCreateSessionKey kio (cfg_sessionKeyPath cfg)) (\<lambda>sessionKey.
     bindS (liftS (wrapE FromSession (NewSigner sessionKey (24 * 3600 * second)))) (\<lambda>signer.
     let challenges = NewChallengeStore;
         allowlist = NewOriginAllowlist (cfg_origins cfg);
         srv = \<lparr>
           srv_Registrar = \<lparr>reg_Origins = allowlist, reg_Store = st, reg_RPID = cfg_rpID cfg,
             reg_UVPolicy = cfg_uvPolicy cfg\<rparr>,
           srv_Authenticator = \<lparr>auth_Origins = allowlist, auth_Store = st, auth_RPID = cfg_rpID cfg,
             auth_UVPolicy = cfg_uvPolicy cfg\<rparr>,
           srv_Store = st, srv_Sessions = signer, srv_RPID = cfg_rpID cfg,
           srv_RPName = ''vouchsafe'', srv_Log = True\<rparr>
     in returnS (cfg, srv, challenges)))))"

section \<open>What start-up guarantees\<close>

lemma parseServeFlags_Inr:
  assumes "parseServeFlags lower_rune args = Inr cfg"
  shows "cfg_origins cfg \<noteq> [] \<and> cfg_rpID cfg \<noteq> [] \<and> valid_policy (cfg_uvPolicy cfg)"
proof -
  obtain fl rpID where
      rp: "(if cfg_rpID fl \<noteq> [] then Inr (cfg_rpID fl)
        else bindE (someOr (url_Hostname (hd (if cfg_origins fl = [] then [''http://'' @ cfg_listen fl]
          else cfg_origins fl))) NoRPID) (\<lambda>host. bindE (failIf (host = []) NoRPID) (\<lambda>_. Inr host))) = Inr rpID"
    and uv: "normalizeUV lower_rune (cfg_uvPolicy fl) = UVRequired \<or> normalizeUV lower_rune (cfg_uvPolicy fl) = UVPreferred \<or>
        normalizeUV lower_rune (cfg_uvPolicy fl) = UVDiscouraged"
    and cfg: "cfg = fl\<lparr>cfg_origins := (if cfg_origins fl = [] then [''http://'' @ cfg_listen fl] else cfg_origins fl),
        cfg_rpID := rpID, cfg_uvPolicy := normalizeUV lower_rune (cfg_uvPolicy fl)\<rparr>"
    using assms unfolding parseServeFlags_def Let_def bindE_Inr_iff failIf_Inr_iff by blast
  have "rpID \<noteq> []"
    using rp by (cases "cfg_rpID fl = []") (simp_all only: if_True if_False bindE_Inr_iff failIf_Inr_iff Inr_inject simp_thms, auto)
  then show ?thesis using uv cfg by (simp add: valid_policy_def)
qed

lemma loadOrCreateSessionKey_again:
  assumes "loadOrCreateSessionKey io path files = (Inr key, files')" and "path \<noteq> []" and "\<not> read_fails io2"
  shows "loadOrCreateSessionKey io2 path files' = (Inr key, files')"
  using assms by (auto simp: loadOrCreateSessionKey_def split: if_splits option.splits)

lemma setupServer_wiring:
  assumes "setupServer lower_rune io kio args fs files = (Inr (cfg, srv, cs), files')"
  shows "server_wf srv \<and> cs = NewChallengeStore \<and> parseServeFlags lower_rune args = Inr cfg \<and>
    file_private (srv_Store srv) fs \<and> store_path (srv_Store srv) = cfg_storePath cfg \<and>
    32 \<le> length (signer_key (srv_Sessions srv)) \<and> signer_now (srv_Sessions srv) = (\<lambda>t. t) \<and>
    signer_ttl (srv_Sessions srv) = 24 * 3600 * second \<and>
    reg_RPID (srv_Registrar srv) = cfg_rpID cfg \<and> auth_RPID (srv_Authenticator srv) = cfg_rpID cfg \<and>
    srv_RPID srv = cfg_rpID cfg \<and>
    allowed (reg_Origins (srv_Registrar srv)) = set (cfg_origins cfg) \<and>
    allowed (auth_Origins (srv_Authenticator srv)) = set (cfg_origins cfg) \<and>
    reg_UVPolicy (srv_Registrar srv) = cfg_uvPolicy cfg \<and> auth_UVPolicy (srv_Authenticator srv) = cfg_uvPolicy cfg"
proof -
  obtain st key signer files1 where h: "parseServeFlags lower_rune args = Inr cfg" "Open io (cfg_storePath cfg) fs = Inr st"
      "loadOrCreateSessionKey kio (cfg_sessionKeyPath cfg) files = (Inr key, files1)"
      "NewSigner key (24 * 3600 * second) = Inr signer" "cs = NewChallengeStore"
    and srv: "srv_Registrar srv = \<lparr>reg_Origins = NewOriginAllowlist (cfg_origins cfg), reg_Store = st,
        reg_RPID = cfg_rpID cfg, reg_UVPolicy = cfg_uvPolicy cfg\<rparr>"
      "srv_Authenticator srv = \<lparr>auth_Origins = NewOriginAllowlist (cfg_origins cfg), auth_Store = st,
        auth_RPID = cfg_rpID cfg, auth_UVPolicy = cfg_uvPolicy cfg\<rparr>"
      "srv_Store srv = st" "srv_Sessions srv = signer" "srv_RPID srv = cfg_rpID cfg"
    using assms by (auto simp: setupServer_def result_simps Let_def)
  have st: "store_path st = cfg_storePath cfg" "file_private st fs"
    using h(2) by (auto simp: Open_def file_private_def split: option.splits if_splits)
  have "32 \<le> length (signer_key signer) \<and> signer_now signer = (\<lambda>t. t) \<and> signer_ttl signer = 24 * 3600 * second"
    using h(4) by (auto simp: NewSigner_def split: if_splits)
  then show ?thesis
    using h st srv parseServeFlags_Inr [OF h(1)] by (simp add: server_wf_def NewOriginAllowlist_def)
qed

section \<open>The default configuration\<close>

definition lower_letter :: "byte \<Rightarrow> bool" where
  "lower_letter b \<longleftrightarrow> 0x61 \<le> b \<and> b \<le> 0x7a"

lemma ToLower_lower: "list_all lower_letter b \<Longrightarrow> ToLower lower_rune b = b"
proof (induction b)
  case Nil
  then show ?case by (simp add: ToLower.simps)
next
  case (Cons c b)
  from Cons.prems have c: "0x61 \<le> c" "c \<le> 0x7a" and b: "list_all lower_letter b"
    unfolding list.pred_inject lower_letter_def by blast+
  have "c < 0x80" using c(2) by (rule order_le_less_trans) simp
  moreover have "\<not> c \<le> 0x5a"
  proof
    assume "c \<le> 0x5a"
    with c(1) have "(0x61 :: byte) \<le> 0x5a" by (rule order_trans)
    then show False by simp
  qed
  ultimately show ?case
    by (subst ToLower.simps) (simp only: Cons.IH [OF b] list.sel list.distinct if_True if_False simp_thms)
qed

lemma trim_front_none:
  assumes "list_all (\<lambda>p. p \<noteq> [] \<and> \<not> lower_letter (hd p)) ws" and "b \<noteq> []" and "lower_letter (hd b)"
  shows "trim_front ws b = b"
proof -
  have "take (length p) b \<noteq> p" if "p \<in> set ws" for p
  proof
    assume t: "take (length p) b = p"
    have "p \<noteq> []" "\<not> lower_letter (hd p)" using assms(1) that by (auto simp: list_all_iff)
    then show False using t assms(2,3) by (cases p; cases b) auto
  qed
  then have "find (\<lambda>p. p \<noteq> [] \<and> take (length p) b = p) ws = None" by (auto simp: find_None_iff)
  then show ?thesis by (subst trim_front.simps) simp
qed

lemma TrimSpace_word:
  assumes "b \<noteq> []" and "lower_letter (hd b)" and "lower_letter (last b)"
  shows "TrimSpace b = b"
proof -
  have "list_all (\<lambda>p. p \<noteq> [] \<and> \<not> lower_letter (hd p)) white_spaces"
    "list_all (\<lambda>p. p \<noteq> [] \<and> \<not> lower_letter (hd p)) (map rev white_spaces)"
    by (simp_all add: white_spaces_def lower_letter_def)
  then show ?thesis using assms by (simp add: TrimSpace_def trim_front_none hd_rev)
qed

lemma normalizeUV_word:
  assumes "p \<noteq> []" and "list_all (\<lambda>c. lower_letter (byte_of_char c)) p"
  shows "normalizeUV lower_rune p = p"
proof -
  have "list_all lower_letter (bytes_of_string p)" "bytes_of_string p \<noteq> []"
    using assms by (auto simp: bytes_of_string_def list_all_iff)
  then show ?thesis
    by (simp add: normalizeUV_def TrimSpace_word ToLower_lower list_all_iff)
qed

lemma normalizeUV_policies [simp]:
  "normalizeUV lower_rune UVRequired = UVRequired" "normalizeUV lower_rune UVPreferred = UVPreferred"
  "normalizeUV lower_rune UVDiscouraged = UVDiscouraged"
  by (rule normalizeUV_word; simp add: UVRequired_def UVPreferred_def UVDiscouraged_def lower_letter_def byte_of_char_def)+

lemma read_arg_origin: "read_arg ''--origin'' = Flag ''origin'' None"
  by code_simp

lemma parse_origins:
  "parse_flags (concat (map (\<lambda>x. [''--origin'', x]) os)) fl = Inr (fl\<lparr>cfg_origins := cfg_origins fl @ os\<rparr>)"
proof (induction os arbitrary: fl)
  case (Cons x os)
  then show ?case
    by (simp add: read_arg_origin known_flags_def is_bool_flag_def set_flag_def originList_Set_def someOr_def)
qed simp

lemma parseServeFlags_origins:
  assumes "url_Hostname x = Some h" and "h \<noteq> []"
  shows "parseServeFlags lower_rune (concat (map (\<lambda>x. [''--origin'', x]) (x # os))) =
    Inr (default_flags\<lparr>cfg_origins := x # os, cfg_rpID := h\<rparr>)"
proof -
  have uv: "''preferred'' = UVPreferred" by (simp add: UVPreferred_def)
  show ?thesis
    using assms parse_origins [of "x # os" default_flags]
    by (simp del: concat.simps list.map add: parseServeFlags_def)
       (simp add: default_flags_def uv someOr_def failIf_def)
qed

lemma parseServeFlags_defaults:
  "parseServeFlags lower_rune [] = Inr (default_flags\<lparr>cfg_origins := [''http://127.0.0.1:8080''], cfg_rpID := ''127.0.0.1''\<rparr>)"
proof -
  have uv: "''preferred'' = UVPreferred" by (simp add: UVPreferred_def)
  have "url_Hostname (''http'' @ ''://'' @ authority_of ''127.0.0.1'' (Some ''8080'')) = Some ''127.0.0.1''"
    by (rule url_Hostname_origin; code_simp)
  then show ?thesis
    by (simp add: parseServeFlags_def default_flags_def uv authority_of_def someOr_def failIf_def)
qed

section \<open>Properties\<close>

text \<open>
  The defaults of the command line: however many origins are given, they are exactly the
  origins that the server accepts, and the relying party ID is the host name of the first,
  whatever its scheme and with or without a port; without any flag the server is one for
  \<open>http://127.0.0.1:8080\<close>.
\<close>

theorem rp_id_defaults_to_first_origin:
  assumes "list_all is_letter scheme" and "scheme \<noteq> []" and "list_all name_char h" and "h \<noteq> []"
    and "list_all is_digit (case port of None \<Rightarrow> [] | Some p \<Rightarrow> p)"
    and "x = scheme @ ''://'' @ authority_of h port"
  shows "parseServeFlags lower_rune (concat (map (\<lambda>x. [''--origin'', x]) (x # os))) =
      Inr (default_flags\<lparr>cfg_origins := x # os, cfg_rpID := h\<rparr>) \<and>
    parseServeFlags lower_rune [] =
      Inr (default_flags\<lparr>cfg_origins := [''http://127.0.0.1:8080''], cfg_rpID := ''127.0.0.1''\<rparr>)"
  using parseServeFlags_origins [OF url_Hostname_origin [OF assms(1,2,3,5)] assms(4)] assms(6)
    parseServeFlags_defaults by simp

theorem rp_id_defaults_to_first_origin_witness:
  "parseServeFlags id [''--origin'', ''https://example.com:8443''] =
     Inr (default_flags\<lparr>cfg_origins := [''https://example.com:8443''], cfg_rpID := ''example.com''\<rparr>)"
proof -
  have "list_all is_letter ''https''" "list_all name_char ''example.com''"
    "list_all is_digit (case Some ''8443'' of None \<Rightarrow> [] | Some p \<Rightarrow> p)" by code_simp+
  from rp_id_defaults_to_first_origin [OF this(1) _ this(2) _ this(3) refl, of id "[]"] show ?thesis
    by (simp add: authority_of_def)
qed

text \<open>A start on an empty disk with a key file.\<close>

definition sample_keys :: key_io where
  "sample_keys = \<lparr>key_rand = (\<lambda>n. Some (replicate n 7)), read_fails = False, write_fails = False, partial_write = None\<rparr>"

definition sample_args :: "string list" where
  "sample_args = [''--session-key=k'', ''--origin'', ''https://example.com'']"

definition sample_config :: serveConfig where
  "sample_config = default_flags\<lparr>cfg_sessionKeyPath := ''k'', cfg_origins := [''https://example.com''], cfg_rpID := ''example.com''\<rparr>"

lemma sample_parse: "parseServeFlags lower_rune sample_args = Inr sample_config"
proof -
  have key: "read_arg ''--session-key=k'' = Flag ''session-key'' (Some ''k'')" by code_simp
  have "url_Hostname (''https'' @ ''://'' @ authority_of ''example.com'' None) = Some ''example.com''"
    by (rule url_Hostname_origin; code_simp)
  moreover have uv: "''preferred'' = UVPreferred" by (simp add: UVPreferred_def)
  ultimately show ?thesis
    using parse_origins [of "[''https://example.com'']" "default_flags\<lparr>cfg_sessionKeyPath := ''k''\<rparr>"]
    by (simp add: parseServeFlags_def sample_args_def sample_config_def key known_flags_def set_flag_def someOr_def
        failIf_def authority_of_def) (simp add: default_flags_def uv)
qed

lemma sample_start:
  assumes "files = Map.empty \<or> files = [''k'' \<mapsto> (mode_0600, replicate 32 7)]"
  shows "\<exists>srv. setupServer lower_rune working_io sample_keys sample_args Map.empty files =
    (Inr (sample_config, srv, NewChallengeStore), [''k'' \<mapsto> (mode_0600, replicate 32 7)])"
proof -
  have "loadOrCreateSessionKey sample_keys ''k'' files = (Inr (replicate 32 7), [''k'' \<mapsto> (mode_0600, replicate 32 7)])"
    using assms by (auto simp: loadOrCreateSessionKey_def sample_keys_def)
  moreover have "cfg_sessionKeyPath sample_config = ''k''" by (simp add: sample_config_def)
  moreover have "\<exists>st. Open working_io (cfg_storePath sample_config) Map.empty = Inr st"
    by (simp add: Open_def working_io_def sample_config_def default_flags_def)
  moreover have "\<exists>signer. NewSigner (replicate 32 7) (24 * 3600 * second) = Inr signer"
    by (simp add: NewSigner_def)
  ultimately show ?thesis
    by (auto simp: setupServer_def sample_parse result_simps Let_def wrapE_def)
qed



text \<open>
  C22: Sessions survive a restart: a server that is started again with the same key file, in
  whatever configuration, has the same key and leaves the file as it is, so every token
  that the first one issued verifies to its claims until the 24 hours are over.
\<close>

theorem sessions_survive_restart:
  assumes "time_text_ok tt" and "setupServer lower_rune io kio args fs files = (Inr (cfg, srv, cs), files1)"
    and "session_Issue tt (srv_Sessions srv) u uv clock = Inr token"
    and "setupServer lower_rune io2 kio2 args2 fs2 files1 = (Inr (cfg2, srv2, cs2), files2)"
    and "cfg_sessionKeyPath cfg \<noteq> []" and "cfg_sessionKeyPath cfg2 = cfg_sessionKeyPath cfg"
  shows "files2 = files1 \<and> Verify tt (srv_Sessions srv2) token clock' =
    (if clock + 24 * 3600 * second < clock' then Inl TokenExpired
     else Inr \<lparr>claims_Username = coerceString u, claims_UVPerformed = uv, claims_IssuedAt = clock,
       claims_ExpiresAt = clock + 24 * 3600 * second\<rparr>)"
proof -
  obtain key1 where s1: "loadOrCreateSessionKey kio (cfg_sessionKeyPath cfg) files = (Inr key1, files1)"
      "NewSigner key1 (24 * 3600 * second) = Inr (srv_Sessions srv)"
    using assms(2) by (auto simp: setupServer_def result_simps Let_def)
  obtain key2 where s2: "loadOrCreateSessionKey kio2 (cfg_sessionKeyPath cfg) files1 = (Inr key2, files2)"
      "NewSigner key2 (24 * 3600 * second) = Inr (srv_Sessions srv2)"
    using assms(4,6) by (auto simp: setupServer_def result_simps Let_def)
  have "\<not> read_fails kio2" using s2(1) assms(5) by (auto simp: loadOrCreateSessionKey_def)
  from loadOrCreateSessionKey_again [OF s1(1) assms(5) this] have "key2 = key1" "files2 = files1"
    using s2(1) by simp_all
  moreover have "srv_Sessions srv2 = srv_Sessions srv" using s1(2) s2(2) calculation by simp
  ultimately show ?thesis
    using Verify_Issue [OF assms(1,3), of clock'] setupServer_wiring [OF assms(2)] by (simp add: issued_claims_def)
qed

theorem sessions_survive_restart_witness:
  "\<exists>(srv :: Server) (srv2 :: Server) token. session_Issue decimal_text (srv_Sessions srv) ''alice'' True 0 = Inr token \<and>
     Verify decimal_text (srv_Sessions srv2) token second =
       Inr \<lparr>claims_Username = ''alice'', claims_UVPerformed = True, claims_IssuedAt = 0,
         claims_ExpiresAt = 24 * 3600 * second\<rparr>"
proof -
  let ?k = "[''k'' \<mapsto> (mode_0600, replicate 32 7)] :: key_files"
  obtain srv where 1: "setupServer id working_io sample_keys sample_args Map.empty Map.empty =
      (Inr (sample_config, srv, NewChallengeStore), ?k)"
    using sample_start [of Map.empty id] by blast
  obtain srv2 where 2: "setupServer id working_io sample_keys sample_args Map.empty ?k =
      (Inr (sample_config, srv2, NewChallengeStore), ?k)"
    using sample_start [of ?k id] by blast
  have "\<exists>token. session_Issue decimal_text (srv_Sessions srv) ''alice'' True 0 = Inr token"
    using setupServer_wiring [OF 1]
    by (simp add: session_Issue_def Marshal_Claims_def json_time_ok_def second_def Let_def)
  then obtain token where t: "session_Issue decimal_text (srv_Sessions srv) ''alice'' True 0 = Inr token" by blast
  have "cfg_sessionKeyPath sample_config \<noteq> []" by (simp add: sample_config_def)
  from sessions_survive_restart [OF decimal_text_ok 1 t 2 this refl, of second]
  have "Verify decimal_text (srv_Sessions srv2) token second =
       Inr \<lparr>claims_Username = ''alice'', claims_UVPerformed = True, claims_IssuedAt = 0,
         claims_ExpiresAt = 24 * 3600 * second\<rparr>"
    by (simp add: coerceString_ascii byte_of_char_def second_def)
  then show ?thesis using t by blast
qed

end
