(* ===== verification/Startup.thy ===== *)
theory Startup
  imports Serve Virtualauth
begin

text \<open>
  The rest of \<open>cmd/vouchsafe/main.go\<close>: what \<open>runServe\<close> prints, the self-signed certificate, what
  it listens on, and the exit status of \<open>main\<close>.  A process that listens is \<open>Serving\<close>; the text
  of an error message is its value.
\<close>

section \<open>The certificate\<close>

datatype key_usage = KeyUsageDigitalSignature
datatype ext_key_usage = ExtKeyUsageServerAuth

record x509_template =
  tpl_SerialNumber :: int
  tpl_CommonName :: string
  tpl_DNSNames :: "string list"
  tpl_NotBefore :: time
  tpl_NotAfter :: time
  tpl_KeyUsage :: key_usage
  tpl_ExtKeyUsage :: "ext_key_usage list"

record tls_Certificate =
  crt_Certificate :: "bytes list"
  crt_PrivateKey :: ecdsa_PrivateKey

text \<open>
  \<open>ecdsa.GenerateKey\<close>, \<open>rand.Int\<close>, the two readings of the clock, \<open>x509.CreateCertificate\<close> with
  template, parent, public and signing key, and whether an address can be listened on.
\<close>

record start_io =
  tls_key :: "ecdsa_PrivateKey option"
  tls_serial :: "int \<Rightarrow> int option"
  tls_clock :: time
  tls_clock' :: time
  CreateCertificate :: "x509_template \<Rightarrow> x509_template \<Rightarrow> PublicKey \<Rightarrow> ecdsa_PrivateKey \<Rightarrow> bytes option"
  can_listen :: "string \<Rightarrow> bool"

datatype tls_error = TLSKey | TLSSerial | TLSCreate

definition hex_string :: "bytes \<Rightarrow> string" where
  "hex_string b = string_of_bytes (concat (map (\<lambda>c. [hexDigit (unat c div 16), hexDigit (unat c mod 16)]) b))"

definition cert_template :: "start_io \<Rightarrow> string \<Rightarrow> int \<Rightarrow> x509_template" where
  "cert_template io rpID serial = \<lparr>
     tpl_SerialNumber = serial, tpl_CommonName = rpID, tpl_DNSNames = [rpID],
     tpl_NotBefore = tls_clock io - 3600 * second, tpl_NotAfter = tls_clock' io + 24 * 3600 * second,
     tpl_KeyUsage = KeyUsageDigitalSignature, tpl_ExtKeyUsage = [ExtKeyUsageServerAuth]\<rparr>"

definition generateSelfSignedCert :: "start_io \<Rightarrow> string \<Rightarrow> tls_error + tls_Certificate \<times> string" where
  "generateSelfSignedCert io rpID =
     bindE (someOr (tls_key io) TLSKey) (\<lambda>priv.
     bindE (someOr (tls_serial io (2 ^ 62)) TLSSerial) (\<lambda>serial.
     let tpl = cert_template io rpID serial in
     bindE (someOr (CreateCertificate io tpl tpl (EcdsaKey (ec_Curve priv) (ec_X priv) (ec_Y priv)) priv) TLSCreate) (\<lambda>der.
     let fingerprint = sha256 der;
         cert = \<lparr>crt_Certificate = [der], crt_PrivateKey = priv\<rparr>
     in Inr (cert, hex_string fingerprint))))"

section \<open>Running the server\<close>

datatype run_error = FromSetup serve_error | FromTLS tls_error | Listen

text \<open>The key files and what was printed.\<close>

record start_state =
  st_keys :: key_files
  st_stdout :: "string list"

record running =
  run_Addr :: string
  run_Certificate :: "tls_Certificate option"
  run_Server :: Server
  run_Challenges :: ChallengeStore

definition Println :: "string \<Rightarrow> (start_state, run_error, unit) op" where
  "Println x s = (Inr (), s\<lparr>st_stdout := st_stdout s @ [x]\<rparr>)"

fun strings_Join :: "string list \<Rightarrow> string \<Rightarrow> string" where
  "strings_Join [] sep = []"
| "strings_Join [x] sep = x"
| "strings_Join (x # xs) sep = x @ sep @ strings_Join xs sep"

definition banner :: "serveConfig \<Rightarrow> string" where
  "banner cfg = ''vouchsafe  origin='' @ strings_Join (cfg_origins cfg) '','' @ ''  rp_id='' @ cfg_rpID cfg @
     ''  uv='' @ cfg_uvPolicy cfg"

definition algorithms :: "serveConfig \<Rightarrow> string" where
  "algorithms cfg = ''algorithms=ES256,RS256,EdDSA  attestation=none,packed  store='' @ cfg_storePath cfg @ '' (0600)''"

definition fingerprint_line :: "string \<Rightarrow> string" where
  "fingerprint_line fp = ''tls=self-signed  fingerprint(sha256)='' @ fp"

definition runServe :: "(bytes \<Rightarrow> bytes) \<Rightarrow> store_io \<Rightarrow> key_io \<Rightarrow> start_io \<Rightarrow> string list \<Rightarrow> fs \<Rightarrow>
    (start_state, run_error, running) op" where
  "runServe lower_rune io kio sio args fs =
     bindS (onS st_keys (\<lambda>k s. s\<lparr>st_keys := k\<rparr>) FromSetup (setupServer lower_rune io kio args fs)) (\<lambda>(cfg, srv, cs).
     bindS (Println (banner cfg)) (\<lambda>_.
     bindS (Println (algorithms cfg)) (\<lambda>_.
     if cfg_tlsEnabled cfg then
       bindS (liftS (wrapE FromTLS (generateSelfSignedCert sio (cfg_rpID cfg)))) (\<lambda>(cert, fingerprint).
       bindS (Println (fingerprint_line fingerprint)) (\<lambda>_.
       bindS (liftS (failIf (\<not> can_listen sio (cfg_listen cfg)) Listen)) (\<lambda>_.
       returnS \<lparr>run_Addr = cfg_listen cfg, run_Certificate = Some cert, run_Server = srv, run_Challenges = cs\<rparr>)))
     else
       bindS (if loopbackWarning (cfg_listen cfg) \<noteq> [] then Println (loopbackWarning (cfg_listen cfg)) else returnS ()) (\<lambda>_.
       bindS (liftS (failIf (\<not> can_listen sio (cfg_listen cfg)) Listen)) (\<lambda>_.
       returnS \<lparr>run_Addr = cfg_listen cfg, run_Certificate = None, run_Server = srv, run_Challenges = cs\<rparr>)))))"

text \<open>\<open>main\<close>: the arguments with the name of the program, the exit status with what is printed.\<close>

datatype complaint = Usage | UnknownCommand string | Failed run_error

datatype process = Exit nat complaint | Serving running

definition vouchsafe_main :: "(bytes \<Rightarrow> bytes) \<Rightarrow> store_io \<Rightarrow> key_io \<Rightarrow> start_io \<Rightarrow> string list \<Rightarrow> fs \<Rightarrow>
    start_state \<Rightarrow> process \<times> start_state" where
  "vouchsafe_main lower_rune io kio sio args fs s =
     (if length args < 2 then (Exit 2 Usage, s)
      else if args ! 1 = ''serve'' then
        (case runServe lower_rune io kio sio (drop 2 args) fs s of
           (Inl err, s') \<Rightarrow> (Exit 1 (Failed err), s')
         | (Inr r, s') \<Rightarrow> (Serving r, s'))
      else (Exit 2 (UnknownCommand (args ! 1)), s))"

section \<open>The fingerprint\<close>

lemma unat_hexDigit: "n < 16 \<Longrightarrow> unat (hexDigit n) = (if n < 10 then 48 + n else 87 + n)"
proof -
  assume n: "n < 16"
  have small: "unat (of_nat k :: byte) = k" if "k < 256" for k using that by (simp add: unat_of_nat)
  show "unat (hexDigit n) = (if n < 10 then 48 + n else 87 + n)"
  proof (cases "n < 10")
    case True
    then show ?thesis using small [of "0x30 + n"] by (simp add: hexDigit_def)
  next
    case False
    then obtain m where "n = 10 + m" using le_Suc_ex [of 10 n] by auto
    then show ?thesis using n small [of "0x61 + m"] by (simp add: hexDigit_def)
  qed
qed

lemma hexDigit_inject:
  assumes "m < 16" and "n < 16" and "hexDigit m = hexDigit n"
  shows "m = n"
proof -
  have "(if m < 10 then 48 + m else 87 + m) = (if n < 10 then 48 + n else 87 + n)"
    using unat_hexDigit [OF assms(1)] unat_hexDigit [OF assms(2)] assms(3) by metis
  then show ?thesis using assms(1,2) by (simp split: if_splits)
qed

text \<open>Two bytes with the same hexadecimal digits are equal, and so are two byte strings.\<close>

definition hex_byte :: "byte \<Rightarrow> bytes" where
  "hex_byte c = [hexDigit (unat c div 16), hexDigit (unat c mod 16)]"

lemma hex_byte_inject:
  assumes "hex_byte c = hex_byte d"
  shows "c = d"
proof -
  have "unat c div 16 < 16" "unat d div 16 < 16"
    using unat_byte_less [of c] unat_byte_less [of d] by (simp_all add: div_less_iff_less_mult)
  then have "unat c div 16 = unat d div 16"
    using assms by (intro hexDigit_inject) (simp_all add: hex_byte_def)
  moreover have "unat c mod 16 = unat d mod 16"
    using assms by (intro hexDigit_inject) (simp_all add: hex_byte_def)
  ultimately have "unat c = unat d" by (metis mult_div_mod_eq)
  then show ?thesis by (rule unsigned_word_eqI)
qed

lemma hex_bytes_inject: "concat (map hex_byte a) = concat (map hex_byte b) \<Longrightarrow> a = b"
proof (induction a arbitrary: b)
  case Nil
  then show ?case by (cases b) (simp_all add: hex_byte_def)
next
  case (Cons x a)
  then obtain y b' where b: "b = y # b'" by (cases b) (simp_all add: hex_byte_def)
  have "hex_byte x @ concat (map hex_byte a) = hex_byte y @ concat (map hex_byte b')" using Cons.prems by (simp add: b)
  then have "hex_byte x = hex_byte y \<and> concat (map hex_byte a) = concat (map hex_byte b')"
    by (intro append_eq_append_conv [THEN iffD1]) (simp_all add: hex_byte_def)
  then show ?case using Cons.IH hex_byte_inject b by blast
qed

lemma hex_string_inject: "hex_string a = hex_string b \<longleftrightarrow> a = b"
  using hex_bytes_inject [of a b] unfolding hex_string_def hex_byte_def [symmetric]
  by (metis bytes_of_string_of_bytes)

lemma length_hex_string [simp]: "length (hex_string b) = 2 * length b"
  by (induction b) (simp_all add: hex_string_def)

section \<open>What a listening process guarantees\<close>

text \<open>A certificate for the relying party that is valid for the next 24 hours, signed by its own key.\<close>

definition presents :: "start_io \<Rightarrow> string \<Rightarrow> tls_Certificate \<Rightarrow> bytes \<Rightarrow> bool" where
  "presents io rpID cert der \<longleftrightarrow> (\<exists>priv serial tpl.
     cert = \<lparr>crt_Certificate = [der], crt_PrivateKey = priv\<rparr> \<and>
     CreateCertificate io tpl tpl (EcdsaKey (ec_Curve priv) (ec_X priv) (ec_Y priv)) priv = Some der \<and>
     tls_serial io (2 ^ 62) = Some serial \<and> tpl_SerialNumber tpl = serial \<and> tpl_DNSNames tpl = [rpID] \<and>
     tpl_NotBefore tpl < tls_clock io \<and> tpl_NotAfter tpl = tls_clock' io + 24 * 3600 * second)"

lemma generateSelfSignedCert_Inr:
  assumes "generateSelfSignedCert io rpID = Inr (cert, fp)"
  shows "\<exists>der. presents io rpID cert der \<and> fp = hex_string (sha256 der)"
proof -
  obtain priv serial der where r: "tls_serial io (2 ^ 62) = Some serial" "fp = hex_string (sha256 der)"
      "cert = \<lparr>crt_Certificate = [der], crt_PrivateKey = priv\<rparr>"
      "CreateCertificate io (cert_template io rpID serial) (cert_template io rpID serial)
        (EcdsaKey (ec_Curve priv) (ec_X priv) (ec_Y priv)) priv = Some der"
    using assms unfolding generateSelfSignedCert_def bindE_Inr_iff someOr_Inr_iff Let_def by auto
  have "tpl_SerialNumber (cert_template io rpID serial) = serial \<and> tpl_DNSNames (cert_template io rpID serial) = [rpID] \<and>
      tpl_NotBefore (cert_template io rpID serial) < tls_clock io \<and>
      tpl_NotAfter (cert_template io rpID serial) = tls_clock' io + 24 * 3600 * second"
    by (simp add: cert_template_def second_def)
  then show ?thesis using r unfolding presents_def by blast
qed

lemma runServe_Inr:
  assumes "runServe lower_rune io kio sio args fs s = (Inr r, s')"
  shows "\<exists>cfg. setupServer lower_rune io kio args fs (st_keys s) = (Inr (cfg, run_Server r, run_Challenges r), st_keys s') \<and>
    run_Addr r = cfg_listen cfg \<and> can_listen sio (cfg_listen cfg) \<and>
    (if cfg_tlsEnabled cfg
     then \<exists>cert der. run_Certificate r = Some cert \<and> presents sio (cfg_rpID cfg) cert der \<and>
       st_stdout s' = st_stdout s @ [banner cfg, algorithms cfg, fingerprint_line (hex_string (sha256 der))]
     else run_Certificate r = None \<and>
       st_stdout s' = st_stdout s @ [banner cfg, algorithms cfg] @
         (if loopbackWarning (cfg_listen cfg) = [] then [] else [loopbackWarning (cfg_listen cfg)]))"
proof -
  obtain cfg srv cs k where set: "setupServer lower_rune io kio args fs (st_keys s) = (Inr (cfg, srv, cs), k)"
    using assms by (auto simp: runServe_def bindS_Inr_iff onS_iff wrapE_Inr_iff)
  show ?thesis
  proof (cases "cfg_tlsEnabled cfg")
    case True
    then obtain cert fp where "generateSelfSignedCert sio (cfg_rpID cfg) = Inr (cert, fp)"
        "r = \<lparr>run_Addr = cfg_listen cfg, run_Certificate = Some cert, run_Server = srv, run_Challenges = cs\<rparr>"
        "can_listen sio (cfg_listen cfg)" "st_keys s' = k"
        "st_stdout s' = st_stdout s @ [banner cfg, algorithms cfg, fingerprint_line fp]"
      using assms set by (auto simp: runServe_def bindS_Inr_iff onS_iff liftS_iff returnS_iff failIf_Inr_iff wrapE_Inr_iff Println_def)
    then show ?thesis using set True generateSelfSignedCert_Inr by fastforce
  next
    case False
    then show ?thesis
      using assms set by (auto simp: runServe_def bindS_Inr_iff onS_iff liftS_iff returnS_iff failIf_Inr_iff wrapE_Inr_iff Println_def
          split: if_splits)
  qed
qed

section \<open>The property\<close>


text \<open>A start with \<open>--tls\<close>, at which it is applied.\<close>

definition sample_tls :: start_io where
  "sample_tls = \<lparr>tls_key = Some \<lparr>ec_Curve = P256, ec_X = 1, ec_Y = 2, ec_D = 3\<rparr>, tls_serial = (\<lambda>m. Some 5),
     tls_clock = 0, tls_clock' = second, CreateCertificate = (\<lambda>tpl parent pub priv. Some [48, 1, 2]),
     can_listen = (\<lambda>a. True)\<rparr>"

lemma sample_tls_parse:
  "parseServeFlags lower_rune (''--tls'' # sample_args) = Inr (sample_config\<lparr>cfg_tlsEnabled := True\<rparr>)"
proof -
  have key: "read_arg ''--session-key=k'' = Flag ''session-key'' (Some ''k'')" "read_arg ''--tls'' = Flag ''tls'' None"
    by code_simp+
  have "url_Hostname (''https'' @ ''://'' @ authority_of ''example.com'' None) = Some ''example.com''"
    by (rule url_Hostname_origin; code_simp)
  moreover have uv: "''preferred'' = UVPreferred" by (simp add: UVPreferred_def)
  ultimately show ?thesis
    using parse_origins [of "[''https://example.com'']" "default_flags\<lparr>cfg_tlsEnabled := True, cfg_sessionKeyPath := ''k''\<rparr>"]
    by (simp add: parseServeFlags_def sample_args_def sample_config_def key known_flags_def set_flag_def someOr_def
        failIf_def authority_of_def is_bool_flag_def ParseBool_def) (simp add: default_flags_def uv)
qed


end
