(* ===== verification/Cbor_Truncated.thy ===== *)
theory Cbor_Truncated
  imports Cbor_Correct
begin

unbundle bit_operations_syntax

text \<open>
  Truncated input: a decoder run on the first bytes of a buffer does what it does on the
  whole buffer until it needs a byte that is not there, and then reports exactly that.
  \<open>cuts\<close> says so for one decoding step; it composes along the structure of the decoder.
\<close>

definition crop :: "nat \<Rightarrow> decoder \<Rightarrow> decoder" where
  "crop m d = d\<lparr>buf := take m (buf d)\<rparr>"

lemma crop_simps [simp]: "pos (crop m d) = pos d" "elems (crop m d) = elems d" "buf (crop m d) = take m (buf d)"
  by (simp_all add: crop_def)

definition cuts :: "'a decoding \<Rightarrow> bool" where
  "cuts f \<longleftrightarrow> (\<forall>d x d' m. f d = Inr (x, d') \<longrightarrow> length (buf d) < 2 ^ 64 \<longrightarrow> pos d \<le> m \<longrightarrow>
     buf d' = buf d \<and> pos d \<le> pos d' \<and>
     f (crop m d) = (if pos d' \<le> m then Inr (x, crop m d') else Inl CborTruncated))"

named_theorems cuts_intros \<open>decoding steps that report truncation\<close>

lemma cutsI:
  assumes "\<And>d x d' m. f d = Inr (x, d') \<Longrightarrow> length (buf d) < 2 ^ 64 \<Longrightarrow> pos d \<le> m \<Longrightarrow>
    buf d' = buf d \<and> pos d \<le> pos d' \<and> f (crop m d) = (if pos d' \<le> m then Inr (x, crop m d') else Inl CborTruncated)"
  shows "cuts f"
  using assms unfolding cuts_def by blast

lemma cutsD:
  assumes "cuts f" and "f d = Inr (x, d')" and "length (buf d) < 2 ^ 64" and "pos d \<le> m"
  shows "buf d' = buf d" "pos d \<le> pos d'" "pos d' \<le> m \<Longrightarrow> f (crop m d) = Inr (x, crop m d')"
    "m < pos d' \<Longrightarrow> f (crop m d) = Inl CborTruncated"
  using assms unfolding cuts_def by (blast, blast, metis, metis not_less)

lemma cuts_return [cuts_intros]: "cuts (\<lambda>d. Inr (x, d))"
  by (rule cutsI) simp

lemma cuts_fail [cuts_intros]: "cuts (\<lambda>d. Inl e)"
  by (rule cutsI) simp

lemma cuts_if [cuts_intros]: "(c \<Longrightarrow> cuts f) \<Longrightarrow> (\<not> c \<Longrightarrow> cuts g) \<Longrightarrow> cuts (\<lambda>d. if c then f d else g d)"
  by (cases c) simp_all

lemma cuts_bind [cuts_intros]:
  assumes f: "cuts f" and g: "\<And>x. cuts (g x)"
  shows "cuts (\<lambda>d. bindE (f d) (\<lambda>(x, d). g x d))"
proof (rule cutsI)
  fix d y d2 m
  assume run: "bindE (f d) (\<lambda>(x, d). g x d) = Inr (y, d2)" and l: "length (buf d) < 2 ^ 64" and m: "pos d \<le> m"
  obtain x d1 where s: "f d = Inr (x, d1)" "g x d1 = Inr (y, d2)"
    using run by (auto simp: result_simps)
  note F = cutsD [OF f s(1) l m]
  have l1: "length (buf d1) < 2 ^ 64" using F(1) l by simp
  show "buf d2 = buf d \<and> pos d \<le> pos d2 \<and> bindE (f (crop m d)) (\<lambda>(x, d). g x d) =
      (if pos d2 \<le> m then Inr (y, crop m d2) else Inl CborTruncated)"
  proof (cases "pos d1 \<le> m")
    case True
    note G = cutsD [OF g s(2) l1 True]
    have "f (crop m d) = Inr (x, crop m d1)" by (rule F(3) [OF True])
    then show ?thesis using F(1,2) G by auto
  next
    case False
    note G = cutsD [OF g s(2) l1 order_refl]
    have "f (crop m d) = Inl CborTruncated" using F(4) False by simp
    then show ?thesis using F(1,2) G(1,2) False by auto
  qed
qed

text \<open>A check that does not look at the decoder.\<close>

lemma cuts_check [cuts_intros]: "(\<And>x. cuts (g x)) \<Longrightarrow> cuts (\<lambda>d. bindE c (\<lambda>x. g x d))"
  by (cases c) (auto intro: cuts_intros)

lemma cuts_readByte [cuts_intros]: "cuts readByte"
  by (rule cutsI) (auto simp: readByte_def crop_def split: if_splits)

lemma cuts_readN [cuts_intros]: "cuts (readN n)"
proof (rule cutsI)
  fix d x d' m
  assume r: "readN n d = Inr (x, d')" and m: "pos d \<le> m"
  then have n: "0 \<le> n" "pos d + nat n \<le> length (buf d)"
    and x: "x = take (nat n) (drop (pos d) (buf d))" "d' = d\<lparr>pos := pos d + nat n\<rparr>"
    by (auto simp: readN_def split: if_splits)
  have "take (nat n) (drop (pos d) (take m (buf d))) = x" if "pos d + nat n \<le> m"
    using that x(1) by (simp add: drop_take)
  then show "buf d' = buf d \<and> pos d \<le> pos d' \<and>
      readN n (crop m d) = (if pos d' \<le> m then Inr (x, crop m d') else Inl CborTruncated)"
    using n x m by (auto simp: readN_def crop_def)
qed

lemma cuts_readString [cuts_intros]: "cuts (readString arg)"
proof (rule cutsI)
  fix d x d' m
  assume r: "readString arg d = Inr (x, d')" and l: "length (buf d) < 2 ^ 64" and m: "pos d \<le> m"
  then have s: "readN (uint arg) d = Inr (x, d')" "arg \<le> of_nat (length (buf d) - pos d)"
    by (auto simp: readString_def split: if_splits)
  note R = cutsD [OF cuts_readN s(1) l m]
  have h: "int (pos d) + uint arg \<le> int (length (buf d))" "d' = d\<lparr>pos := pos d + nat (uint arg)\<rparr>"
    using s(1) by (auto simp: readN_def split: if_splits)
  have p: "pos d' = pos d + unat arg" using h(2) by (simp only: unat_eq_nat_uint) simp
  have "int (unat arg) = uint arg" by (simp only: uint_nat)
  then have "pos d' \<le> length (buf d)" using h(1) p by linarith
  note p = p this
  let ?k = "length (take m (buf d)) - pos d"
  have k: "unat (of_nat ?k :: 64 word) = ?k"
    using l by (simp add: unat_of_nat)
  show "buf d' = buf d \<and> pos d \<le> pos d' \<and>
      readString arg (crop m d) = (if pos d' \<le> m then Inr (x, crop m d') else Inl CborTruncated)"
  proof (cases "pos d' \<le> m")
    case True
    then have "unat arg \<le> ?k" using p by auto
    then have "\<not> (of_nat ?k :: 64 word) < arg" using k by (simp add: word_less_nat_alt not_less)
    then show ?thesis using R True by (simp add: readString_def)
  next
    case False
    then show ?thesis using R by (simp add: readString_def)
  qed
qed

lemma cuts_readInitialByte [cuts_intros]: "cuts readInitialByte"
  unfolding readInitialByte_def [abs_def] by (intro cuts_intros)

lemma cuts_readArgument [cuts_intros]: "cuts (readArgument ai)"
  unfolding readArgument_def [abs_def] readWide_def Let_def by (intro cuts_intros)

lemma cuts_decodeSimple [cuts_intros]: "cuts (decodeSimple ai)"
proof -
  have "cuts (\<lambda>d. bindE (readN n d) (\<lambda>_. Inl e :: cbor_error + cbor_value \<times> decoder))" for n e
    using cuts_bind [OF cuts_readN cuts_fail, of n "\<lambda>_. e"] by (simp add: case_prod_unfold)
  then show ?thesis unfolding decodeSimple_def [abs_def] by (intro cuts_intros)
qed

lemma cuts_decodeItems: "cuts dv \<Longrightarrow> cuts (decodeItems dv n)"
proof (induction n)
  case 0
  then show ?case using cuts_return [of "[]"] by (simp add: fun_eq_iff [symmetric])
next
  case (Suc n)
  have "cuts (\<lambda>d. bindE (dv d) (\<lambda>(v, d). bindE (decodeItems dv n d) (\<lambda>(vs, d). Inr (v # vs, d))))"
    by (intro cuts_intros Suc)
  then show ?case by (simp add: fun_eq_iff [symmetric])
qed

text \<open>A value together with the bytes it was decoded from.\<close>

definition with_span :: "'a decoding \<Rightarrow> ('a \<times> bytes) decoding" where
  "with_span dv d = bindE (dv d) (\<lambda>(k, d1). Inr ((k, take (pos d1 - pos d) (drop (pos d) (buf d1))), d1))"

lemma cuts_with_span:
  assumes dv: "cuts dv"
  shows "cuts (with_span dv)"
proof (rule cutsI)
  fix d x d' m
  assume run: "with_span dv d = Inr (x, d')" and l: "length (buf d) < 2 ^ 64" and m: "pos d \<le> m"
  then obtain k where k: "dv d = Inr (k, d')" "x = (k, take (pos d' - pos d) (drop (pos d) (buf d')))"
    by (auto simp: with_span_def result_simps)
  note D = cutsD [OF dv k(1) l m]
  have "take (pos d' - pos d) (drop (pos d) (take m (buf d'))) = take (pos d' - pos d) (drop (pos d) (buf d'))"
    if "pos d' \<le> m" using that D(2) by (simp add: drop_take)
  then show "buf d' = buf d \<and> pos d \<le> pos d' \<and>
      with_span dv (crop m d) = (if pos d' \<le> m then Inr (x, crop m d') else Inl CborTruncated)"
    using D k(2) by (auto simp: with_span_def)
qed

lemma decodeEntries_span:
  "decodeEntries dv (Suc n) d =
     bindE (with_span dv d) (\<lambda>(ks, d). bindE (dv d) (\<lambda>(v, d). bindE (decodeEntries dv n d) (\<lambda>(es, d).
       Inr (((fst ks, v), snd ks) # es, d))))"
  by (cases "dv d") (auto simp: with_span_def)

lemma cuts_decodeEntries: "cuts dv \<Longrightarrow> cuts (decodeEntries dv n)"
proof (induction n)
  case 0
  then show ?case using cuts_return [of "[]"] by (simp add: fun_eq_iff [symmetric])
next
  case (Suc n)
  have "cuts (\<lambda>d. bindE (with_span dv d) (\<lambda>(ks, d). bindE (dv d) (\<lambda>(v, d). bindE (decodeEntries dv n d) (\<lambda>(es, d).
       Inr (((fst ks, v), snd ks) # es, d)))))"
    by (intro cuts_intros cuts_with_span Suc)
  then show ?case by (simp only: decodeEntries_span [abs_def, symmetric] fun_eq_iff)
qed

lemma cuts_decodeMajor:
  assumes "depth < MaxDepth \<Longrightarrow> cuts dv"
  shows "cuts (decodeMajor depth dv major arg)"
  unfolding decodeMajor_def [abs_def] decodeArray_def decodeMap_def
  by (intro cuts_intros cuts_decodeItems cuts_decodeEntries assms) simp_all

lemma cuts_count: "cuts f \<Longrightarrow> cuts (\<lambda>d. f (d\<lparr>elems := elems d + 1\<rparr>))"
proof (rule cutsI)
  fix d x d' m
  assume f: "cuts f" and r: "f (d\<lparr>elems := elems d + 1\<rparr>) = Inr (x, d')" "length (buf d) < 2 ^ 64" "pos d \<le> m"
  have e: "(crop m d)\<lparr>elems := elems (crop m d) + 1\<rparr> = crop m (d\<lparr>elems := elems d + 1\<rparr>)" by (simp add: crop_def)
  show "buf d' = buf d \<and> pos d \<le> pos d' \<and> f ((crop m d)\<lparr>elems := elems (crop m d) + 1\<rparr>) =
      (if pos d' \<le> m then Inr (x, crop m d') else Inl CborTruncated)"
    unfolding e using cutsD [OF f r(1), of m] r(2,3) by (simp split: if_split)
qed

lemma cuts_decodeValue: "cuts (decodeValue depth)"
proof (induction "MaxDepth - depth" arbitrary: depth rule: less_induct)
  case less
  have inner: "cuts (\<lambda>d. decodeValue (depth + 1) d)" if "depth < MaxDepth"
    using less.hyps [of "depth + 1"] that by simp
  have "cuts (\<lambda>d. if MaxElements < elems d then Inl CborTooManyElements
      else bindE (readInitialByte d) (\<lambda>(y, d).
        if fst y = 7 then decodeSimple (snd y) d
        else bindE (readArgument (snd y) d) (\<lambda>(arg, d).
          decodeMajor depth (\<lambda>d. decodeValue (depth + 1) d) (fst y) arg d)))" (is "cuts (\<lambda>d. if _ then _ else ?body d)")
  proof (rule cutsI)
    fix d x d' m
    have body: "cuts ?body" by (intro cuts_intros cuts_decodeMajor inner)
    assume r: "(if MaxElements < elems d then Inl CborTooManyElements else ?body d) = Inr (x, d')"
      and l: "length (buf d) < 2 ^ 64" and m: "pos d \<le> m"
    then have b: "?body d = Inr (x, d')" "\<not> MaxElements < elems d" by (auto split: if_splits)
    show "buf d' = buf d \<and> pos d \<le> pos d' \<and>
        (if MaxElements < elems (crop m d) then Inl CborTooManyElements else ?body (crop m d)) =
        (if pos d' \<le> m then Inr (x, crop m d') else Inl CborTruncated)"
      using cutsD [OF body b(1) l m] b(2) by (simp split: if_split)
  qed
  then have "cuts (\<lambda>d. (if MaxElements < elems (d\<lparr>elems := elems d + 1\<rparr>) then Inl CborTooManyElements
      else ?body (d\<lparr>elems := elems d + 1\<rparr>)))" by (rule cuts_count)
  moreover have "decodeValue depth = (\<lambda>d. if MaxElements < elems (d\<lparr>elems := elems d + 1\<rparr>) then Inl CborTooManyElements
      else ?body (d\<lparr>elems := elems d + 1\<rparr>))"
    by (rule ext, subst decodeValue.simps) (simp add: Let_def case_prod_unfold)
  ultimately show ?case by (simp only:)
qed

section \<open>Properties\<close>

text \<open>
  C39: An input that is cut short anywhere inside its encoded value is always refused, and
  always as truncated: never misread as another value, never reported as another error.
\<close>

theorem truncated_input_is_reported:
  assumes "Decode b = Inr (v, n)" and "m < n"
  shows "Decode (take m b) = Inl CborTruncated"
proof -
  let ?d = "\<lparr>buf = b, pos = 0, elems = 0\<rparr>"
  obtain d' where d': "decodeValue 0 ?d = Inr (v, d')" "pos d' = n" and size: "length b \<le> MaxInputSize"
    using assms(1) by (auto simp: Decode_def result_simps split: if_splits)
  have "length (buf ?d) < 2 ^ 64" using size by (simp add: MaxInputSize_def)
  from cutsD(4) [OF cuts_decodeValue d'(1) this, of m] have "decodeValue 0 (crop m ?d) = Inl CborTruncated"
    using assms(2) d'(2) by simp
  then show ?thesis using size by (simp add: Decode_def crop_def)
qed

theorem truncated_input_is_reported_witness:
  "Decode (take 2 [0x82, 0x01, 0x02]) = Inl CborTruncated"
proof -
  have "decodable (VArray [VUint 1, VUint 2])" by (simp add: decodable_def MaxDepth_def MaxElements_def)
  moreover have "encode_value (VArray [VUint 1, VUint 2]) = [0x82, 0x01, 0x02]" by (simp add: encode_eval)
  ultimately have "Decode [0x82, 0x01, 0x02] = Inr (VArray [VUint 1, VUint 2], 3)"
    by (simp add: Decode_iff MaxInputSize_def)
  from truncated_input_is_reported [OF this, of 2] show ?thesis by simp
qed

end
