(* ===== verification/Cbor_Loops.thy ===== *)
theory Cbor_Loops
  imports Cbor_Correct
begin

text \<open>
  How long the loops of the decoder run.  A header can claim up to 2 ^ 64 - 1 items; the
  loops over them end with the input or with the limit on items, whatever it claims.
\<close>

section \<open>Progress\<close>

text \<open>The items that can still be decoded: each takes a byte and counts against the limit.\<close>

definition items_left :: "decoder \<Rightarrow> nat" where
  "items_left d = min (length (buf d) - pos d) (MaxElements - elems d)"

lemma decodeValue_progress:
  assumes "ready d" and "depth \<le> MaxDepth" and "decodeValue depth d = Inr (v, d')"
  shows "ready d'" and "items_left d' < items_left d"
proof -
  have d: "consumed d (encode_value v) (value_count v) d'" "canonical v" "elems d' \<le> MaxElements"
    using decodeValue_iff [OF assms(1,2)] assms(3) by (auto simp: decodes_def acceptable_def)
  show "ready d'" using consumed_ready [OF d(1) assms(1)] .
  have "0 < length (encode_value v)" "0 < value_count v"
    using encode_value_nonempty [of v] d(2) value_count_pos by auto
  then have "length (buf d') - pos d' < length (buf d) - pos d" "MaxElements - elems d' < MaxElements - elems d"
    using consumed_pos [OF d(1)] consumed_len [OF d(1)] consumed_buf [OF d(1)] consumed_elems [OF d(1)] d(3)
    by (auto simp: diff_less_mono2 simp del: length_greater_0_conv)
  then show "items_left d' < items_left d" unfolding items_left_def by (auto simp: min_less_iff_disj)
qed

section \<open>The loops\<close>

lemma decodeItems_claim:
  assumes "depth \<le> MaxDepth"
  shows "ready d \<Longrightarrow> items_left d < m \<Longrightarrow> m \<le> n \<Longrightarrow> decodeItems (decodeValue depth) n d = decodeItems (decodeValue depth) m d"
proof (induction m arbitrary: n d)
  case (Suc m)
  obtain n' where n: "n = Suc n'" using Suc.prems(3) by (cases n) auto
  have "decodeItems (decodeValue depth) n' d' = decodeItems (decodeValue depth) m d'" if "decodeValue depth d = Inr (v, d')" for v d'
    using decodeValue_progress [OF Suc.prems(1) assms that] Suc.prems n by (intro Suc.IH) auto
  then show ?case by (cases "decodeValue depth d") (auto simp: n bindE_def)
qed simp

lemma decodeEntries_claim:
  assumes "depth \<le> MaxDepth"
  shows "ready d \<Longrightarrow> items_left d < m \<Longrightarrow> m \<le> n \<Longrightarrow> decodeEntries (decodeValue depth) n d = decodeEntries (decodeValue depth) m d"
proof (induction m arbitrary: n d)
  case (Suc m)
  obtain n' where n: "n = Suc n'" using Suc.prems(3) by (cases n) auto
  have "decodeEntries (decodeValue depth) n' d2 = decodeEntries (decodeValue depth) m d2"
    if "decodeValue depth d = Inr (k, d1)" "decodeValue depth d1 = Inr (v, d2)" for k v d1 d2
    using decodeValue_progress [OF Suc.prems(1) assms that(1)] decodeValue_progress [OF _ assms that(2)] Suc.prems n
    by (intro Suc.IH) auto
  then show ?case
    by (cases "decodeValue depth d") (auto simp: n bindE_def split: sum.split)
qed simp

section \<open>Property\<close>

text \<open>
  C25: The loops over items and entries end early, whatever a header claims: their outcome,
  a failure included, is settled after at most one round more than there are bytes left and
  than the limit still allows items, so that a claimed count of 2 ^ 64 - 1 costs no more
  work than the input that is really there.
\<close>

theorem loops_end_with_the_input:
  assumes "depth \<le> MaxDepth" and "pos d \<le> length (buf d)" and "length (buf d) \<le> MaxInputSize"
    and "length (buf d) - pos d < m \<or> MaxElements - elems d < m" and "m \<le> unat claimed"
  shows "decodeItems (decodeValue depth) (unat (claimed :: 64 word)) d = decodeItems (decodeValue depth) m d \<and>
    decodeEntries (decodeValue depth) (unat claimed) d = decodeEntries (decodeValue depth) m d"
proof -
  have "ready d" using assms(2,3) by (simp add: ready_def)
  moreover have "items_left d < m" using assms(4) unfolding items_left_def by linarith
  ultimately show ?thesis
    using decodeItems_claim [OF assms(1)] decodeEntries_claim [OF assms(1)] assms(5) by blast
qed

text \<open>An array of claimed \<open>2 ^ 64 - 1\<close> items of which one is there.\<close>

theorem loops_end_with_the_input_witness:
  "decodeItems (decodeValue 1) (unat (0xffffffffffffffff :: 64 word)) \<lparr>buf = [0x9b, 0x01], pos = 1, elems = 1\<rparr> =
   decodeItems (decodeValue 1) 2 \<lparr>buf = [0x9b, 0x01], pos = 1, elems = 1\<rparr>"
proof -
  have "unat (0xffffffffffffffff :: 64 word) = 2 ^ 64 - 1" by simp
  then show ?thesis
    by (intro loops_end_with_the_input [THEN conjunct1]) (simp_all add: MaxDepth_def MaxInputSize_def)
qed

end
