(* ===== verification/Json_Any.thy ===== *)
theory Json_Any
  imports Httpapi
begin

text \<open>
  More of \<open>encoding/json\<close>, as a client of the server uses it: decoding into \<open>any\<close>, into maps
  and into structs with such fields, and \<open>json.MarshalIndent\<close>.  A value of the wrong type
  does not stop the decoder; it is skipped and reported at the end, so a decoding step
  returns what it stored and whether all went well.
\<close>

section \<open>Maps\<close>

text \<open>A Go map with string keys, as the list of its entries in the order in which it is printed.\<close>

type_synonym 'v go_map = "(string \<times> 'v) list"

fun put_key :: "string \<Rightarrow> 'v \<Rightarrow> 'v go_map \<Rightarrow> 'v go_map" where
  "put_key k v [] = [(k, v)]"
| "put_key k v ((k', v') # m) =
     (if k = k' then (k, v) # m
      else if bytesCompare (bytes_of_string k) (bytes_of_string k') = -1 then (k, v) # (k', v') # m
      else (k', v') # put_key k v m)"

definition put_all :: "(string \<times> 'v) list \<Rightarrow> 'v go_map \<Rightarrow> 'v go_map" where
  "put_all kvs m = fold (\<lambda>(k, v). put_key k v) kvs m"

definition Marshal_map :: "(string \<times> string) list \<Rightarrow> bytes" where
  "Marshal_map kvs = Marshal_object (map (\<lambda>(k, v). (k, Marshal_string v)) (put_all kvs []))"

section \<open>Values of any type\<close>

text \<open>A number is kept as the text in which it is printed again.\<close>

datatype any =
    ANull
  | ABool bool
  | ANum bytes
  | AText string
  | AArr "any list"
  | AMap "any go_map"

text \<open>
  \<open>valueInterface\<close>.  A number becomes a \<open>float64\<close>; \<open>float_text\<close> is the text that such a number
  is written as, \<open>None\<close> if it is out of range.
\<close>

type_synonym float_text = "bytes \<Rightarrow> bytes option"

fun any_of :: "float_text \<Rightarrow> json \<Rightarrow> any \<times> bool" where
  "any_of fl JNull = (ANull, True)"
| "any_of fl (JBool b) = (ABool b, True)"
| "any_of fl (JNum n) = (case fl n of Some t \<Rightarrow> (ANum t, True) | None \<Rightarrow> (ANull, False))"
| "any_of fl (JStr raw) = (AText (string_of_bytes (unquote raw)), True)"
| "any_of fl (JArr vs) = (AArr (map (\<lambda>v. fst (any_of fl v)) vs), list_all (\<lambda>v. snd (any_of fl v)) vs)"
| "any_of fl (JObj ms) =
     (AMap (put_all (map (\<lambda>(k, v). (string_of_bytes (unquote k), fst (any_of fl v))) ms) []),
      list_all (\<lambda>(k, v). snd (any_of fl v)) ms)"

section \<open>Decoding\<close>

text \<open>Storing a value into a variable that holds something: its new content, and whether all went well.\<close>

type_synonym 'v filler = "json \<Rightarrow> 'v \<Rightarrow> 'v \<times> bool"

definition fill_text :: "string filler" where
  "fill_text v old =
     (case v of JStr raw \<Rightarrow> (string_of_bytes (unquote raw), True) | JNull \<Rightarrow> (old, True) | _ \<Rightarrow> (old, False))"

text \<open>A map: \<open>None\<close> is nil; an object is added to what is there, each element decoded afresh.\<close>

definition fill_map :: "(json \<Rightarrow> 'v \<times> bool) \<Rightarrow> 'v go_map option filler" where
  "fill_map elem v old =
     (case v of
        JNull \<Rightarrow> (None, True)
      | JObj ms \<Rightarrow>
          (Some (put_all (map (\<lambda>(k, v). (string_of_bytes (unquote k), fst (elem v))) ms)
             (case old of None \<Rightarrow> [] | Some m \<Rightarrow> m)),
           list_all (\<lambda>(k, v). snd (elem v)) ms)
      | _ \<Rightarrow> (old, False))"

definition fill_text_map :: "string go_map option filler" where
  "fill_text_map = fill_map (\<lambda>v. fill_text v [])"

definition fill_any_map :: "float_text \<Rightarrow> any go_map option filler" where
  "fill_any_map fl = fill_map (any_of fl)"

text \<open>A slice of maps, decoded into a nil slice.\<close>

definition fill_map_list :: "float_text \<Rightarrow> any go_map option list option filler" where
  "fill_map_list fl v old =
     (case v of
        JNull \<Rightarrow> (None, True)
      | JArr vs \<Rightarrow> (Some (map (\<lambda>v. fst (fill_any_map fl v None)) vs),
          list_all (\<lambda>v. snd (fill_any_map fl v None)) vs)
      | _ \<Rightarrow> (old, False))"

text \<open>A struct: its fields are filled in the order of the object, and errors are remembered.\<close>

definition fill_field :: "('s \<Rightarrow> 'v) \<Rightarrow> (('v \<Rightarrow> 'v) \<Rightarrow> 's \<Rightarrow> 's) \<Rightarrow> 'v filler \<Rightarrow> ('s \<times> bool) field_setter" where
  "fill_field get upd fill v st =
     (case st of (s, ok) \<Rightarrow> case fill v (get s) of (x, ok') \<Rightarrow> Some (upd (\<lambda>_. x) s, ok \<and> ok'))"

definition fill_struct :: "(string \<times> ('s \<times> bool) field_setter) list \<Rightarrow> 's filler" where
  "fill_struct fds v s =
     (case v of
        JNull \<Rightarrow> (s, True)
      | JObj ms \<Rightarrow> (case set_members fds ms (s, True) of Some r \<Rightarrow> r | None \<Rightarrow> (s, False))
      | _ \<Rightarrow> (s, False))"

text \<open>\<open>json.NewDecoder(r).Decode(out)\<close>: a syntax error leaves the variable alone.\<close>

definition Decode_into :: "'v filler \<Rightarrow> bytes \<Rightarrow> 'v \<Rightarrow> 'v \<times> bool" where
  "Decode_into fill b out = (case parse_stream b of None \<Rightarrow> (out, False) | Some v \<Rightarrow> fill v out)"

section \<open>Indented text\<close>

definition newline :: "nat \<Rightarrow> bytes" where
  "newline depth = 0x0a # replicate (2 * depth) 0x20"

fun join_with :: "bytes \<Rightarrow> bytes list \<Rightarrow> bytes" where
  "join_with sep [] = []"
| "join_with sep [v] = v"
| "join_with sep (v # vs) = v @ sep @ join_with sep vs"

definition bracketed :: "nat \<Rightarrow> byte \<Rightarrow> byte \<Rightarrow> bytes list \<Rightarrow> bytes" where
  "bracketed depth opening closing vs =
     (if vs = [] then [opening, closing]
      else [opening] @ newline (depth + 1) @ join_with ([ch_comma] @ newline (depth + 1)) vs @
        newline depth @ [closing])"

fun indented :: "nat \<Rightarrow> any \<Rightarrow> bytes" where
  "indented depth ANull = lit_null"
| "indented depth (ABool b) = Marshal_bool b"
| "indented depth (ANum t) = t"
| "indented depth (AText s) = Marshal_string s"
| "indented depth (AArr vs) = bracketed depth ch_lbracket ch_rbracket (map (indented (depth + 1)) vs)"
| "indented depth (AMap m) =
     bracketed depth ch_lbrace ch_rbrace
       (map (\<lambda>(k, v). Marshal_string k @ [ch_colon, 0x20] @ indented (depth + 1) v) m)"

definition MarshalIndent_any :: "any \<Rightarrow> bytes" where
  "MarshalIndent_any v = indented 0 v"

text \<open>The Go values that the client prints, as values of any type.\<close>

definition of_map :: "('v \<Rightarrow> any) \<Rightarrow> 'v go_map option \<Rightarrow> any" where
  "of_map f m = (case m of None \<Rightarrow> ANull | Some kvs \<Rightarrow> AMap (map (\<lambda>(k, v). (k, f v)) kvs))"

definition of_list :: "('v \<Rightarrow> any) \<Rightarrow> 'v list option \<Rightarrow> any" where
  "of_list f vs = (case vs of None \<Rightarrow> ANull | Some xs \<Rightarrow> AArr (map f xs))"

end
