(* ===== verification/Demodata.thy ===== *)
theory Demodata
  imports Json_Any Virtualauth
begin

text \<open>
  The tool \<open>tools/demodata/main.go\<close>: a client that drives a running server through every
  feature, with the virtual authenticator as its browser, and writes down what it sees.
  The server is the model of \<open>internal/httpapi\<close>; what else a run meets is \<open>tool_io\<close>.
\<close>

section \<open>The client and its environment\<close>

text \<open>
  A request reaches the server and is answered, does not reach it, or is served while the
  answer is lost.
\<close>

datatype link = Delivered | NotSent | Lost

text \<open>
  The environment of the server at each request, the fate of each request, the keys and
  random values of each use of the key generators, the signers, the text of a \<open>float64\<close>,
  the path of a URL that is more than its base64url letters, and the file system.
\<close>

record tool_io =
  io_env :: "nat \<Rightarrow> env"
  io_link :: "nat \<Rightarrow> link"
  io_keys :: "nat \<Rightarrow> key_source"
  io_signing :: signing
  io_float :: float_text
  io_path :: "string \<Rightarrow> string list option"
  io_mkdir :: bool
  io_write :: "string \<Rightarrow> bool"

text \<open>The server's state, how much of the environment was used, and what was written.\<close>

record tool =
  t_world :: world
  t_requests :: nat
  t_keys :: nat
  t_buf :: bytes
  t_files :: "(string \<times> bytes) list"
  t_stdout :: "string list"

text \<open>\<open>fatal\<close> ends the program, and so does a nil dereference.\<close>

datatype stop = Fatal | Panic

type_synonym 'a tooling = "(tool, stop, 'a) op"

definition callS :: "(tool \<Rightarrow> 'a \<times> tool) \<Rightarrow> 'a tooling" where
  "callS f t = (case f t of (x, t') \<Rightarrow> (Inr x, t'))"

section \<open>The writer\<close>

definition w_write :: "bytes \<Rightarrow> unit tooling" where
  "w_write b t = (Inr (), t\<lparr>t_buf := t_buf t @ b\<rparr>)"

definition w_cmd :: "string \<Rightarrow> unit tooling" where
  "w_cmd s = w_write (bytes_of_string (''$ '' @ s) @ [0x0a])"

definition w_line :: "string \<Rightarrow> unit tooling" where
  "w_line s = w_write (bytes_of_string s @ [0x0a])"

definition w_jsonBlock :: "any \<Rightarrow> unit tooling" where
  "w_jsonBlock v = bindS (w_write (MarshalIndent_any v)) (\<lambda>_. w_write [0x0a])"

text \<open>The verbs \<open>%d\<close> and, for the ASCII text that it is given here, \<open>%q\<close>.\<close>

definition fmt_d :: "int \<Rightarrow> string" where
  "fmt_d i = string_of_bytes (Marshal_int i)"

definition quote_char :: "byte \<Rightarrow> bytes" where
  "quote_char c =
     (if c = 0x22 \<or> c = 0x5c then [0x5c, c]
      else if 0x07 \<le> c \<and> c \<le> 0x0d then [0x5c, [0x61, 0x62, 0x74, 0x6e, 0x76, 0x66, 0x72] ! (unat c - 7)]
      else if c < 0x20 \<or> c = 0x7f then [0x5c, 0x78, hexDigit (unat c div 16), hexDigit (unat c mod 16)]
      else [c])"

definition fmt_q :: "string \<Rightarrow> string" where
  "fmt_q s = string_of_bytes ([0x22] @ concat (map quote_char (bytes_of_string s)) @ [0x22])"

definition emdash :: string where "emdash = [CHR 0xe2, CHR 0x80, CHR 0x94]"
definition apos :: string where "apos = [CHR 0x27]"
definition dquote :: string where "dquote = [CHR 0x22]"

section \<open>Requests\<close>

text \<open>\<open>client.Do\<close>: the next request and the state of the server behind it.\<close>

definition send :: "Server \<Rightarrow> tool_io \<Rightarrow> request \<Rightarrow> tool \<Rightarrow> response option \<times> tool" where
  "send s io r t =
     (let n = t_requests t;
          ((resp, log), w) = Routes s (io_env io n) r (t_world t);
          t1 = t\<lparr>t_requests := n + 1\<rparr>
      in case io_link io n of
           Delivered \<Rightarrow> (Some resp, t1\<lparr>t_world := w\<rparr>)
         | NotSent \<Rightarrow> (None, t1)
         | Lost \<Rightarrow> (None, t1\<lparr>t_world := w\<rparr>))"

text \<open>
  \<open>post\<close>: the status (0 without a response), whether it returned an error, and what the
  variable \<open>out\<close> holds then; without a filler, \<open>out\<close> is nil.
\<close>

definition post :: "'v filler option \<Rightarrow> 'v \<Rightarrow> Server \<Rightarrow> tool_io \<Rightarrow> string list \<Rightarrow> (string \<times> string) list \<Rightarrow>
    tool \<Rightarrow> (nat \<times> bool \<times> 'v) \<times> tool" where
  "post fill out s io path body t =
     (case send s io \<lparr>http_Method = ''POST'', http_Path = path, http_Authorization = [],
        http_Body = Marshal_map body\<rparr> t of
        (None, t') \<Rightarrow> ((0, True, out), t')
      | (Some resp, t') \<Rightarrow>
          (case fill of
             None \<Rightarrow> ((resp_Status resp, False, out), t')
           | Some f \<Rightarrow>
               (case Decode_into f (resp_Body resp) out of (out', ok) \<Rightarrow>
                  ((resp_Status resp, \<not> ok \<and> resp_Status resp < 300, out'), t'))))"

definition b64 :: "bytes \<Rightarrow> string" where
  "b64 b = RawURLEncoding_EncodeToString b"

definition unb64 :: "string \<Rightarrow> bytes tooling" where
  "unb64 s = liftS (someOr (RawURLEncoding_DecodeString s) Fatal)"

text \<open>
  The value of the header \<open>Authorization\<close>: a control character is an error of the client,
  space around the value is dropped.
\<close>

definition header_byte :: "byte \<Rightarrow> bool" where
  "header_byte c \<longleftrightarrow> c = 0x09 \<or> (0x20 \<le> c \<and> c \<noteq> 0x7f)"

definition header_space :: "char \<Rightarrow> bool" where
  "header_space c \<longleftrightarrow> c = CHR 0x20 \<or> c = CHR 0x09"

definition trim_header :: "string \<Rightarrow> string" where
  "trim_header v = rev (dropWhile header_space (rev (dropWhile header_space v)))"

definition do_request :: "Server \<Rightarrow> tool_io \<Rightarrow> string \<Rightarrow> string list \<Rightarrow> string \<Rightarrow> tool \<Rightarrow> response option \<times> tool" where
  "do_request s io method path token t =
     (if list_all header_byte (bytes_of_string (bearer @ token))
      then send s io \<lparr>http_Method = method, http_Path = path,
        http_Authorization = trim_header (bearer @ token), http_Body = []\<rparr> t
      else (None, t))"

text \<open>The path of \<open>base + "/credentials/" + id\<close>.\<close>

definition credential_path :: "tool_io \<Rightarrow> string \<Rightarrow> string list option" where
  "credential_path io id' =
     (if set id' \<subseteq> set url_alphabet then Some [''credentials'', id'] else io_path io id')"

record client_creationOptions =
  co_RP :: "string go_map option"
  co_User :: "string go_map option"
  co_Challenge :: string
  co_AuthenticatorSelection :: "any go_map option"

definition zero_creationOptions :: client_creationOptions where
  "zero_creationOptions = \<lparr>co_RP = None, co_User = None, co_Challenge = [], co_AuthenticatorSelection = None\<rparr>"

definition fill_creationOptions :: "float_text \<Rightarrow> client_creationOptions filler" where
  "fill_creationOptions fl = fill_struct [
     (''rp'', fill_field co_RP co_RP_update fill_text_map),
     (''user'', fill_field co_User co_User_update fill_text_map),
     (''challenge'', fill_field co_Challenge co_Challenge_update fill_text),
     (''authenticatorSelection'',
        fill_field co_AuthenticatorSelection co_AuthenticatorSelection_update (fill_any_map fl))]"

definition show_creationOptions :: "client_creationOptions \<Rightarrow> any" where
  "show_creationOptions o' = AMap [
     (''rp'', of_map AText (co_RP o')), (''user'', of_map AText (co_User o')),
     (''challenge'', AText (co_Challenge o')),
     (''authenticatorSelection'', of_map (\<lambda>v. v) (co_AuthenticatorSelection o'))]"

record client_requestOptions =
  ro_Challenge :: string
  ro_FlowID :: string

definition zero_requestOptions :: client_requestOptions where
  "zero_requestOptions = \<lparr>ro_Challenge = [], ro_FlowID = []\<rparr>"

definition fill_requestOptions :: "client_requestOptions filler" where
  "fill_requestOptions = fill_struct [
     (''challenge'', fill_field ro_Challenge ro_Challenge_update fill_text),
     (''flowId'', fill_field ro_FlowID ro_FlowID_update fill_text)]"

definition show_requestOptions :: "client_requestOptions \<Rightarrow> any" where
  "show_requestOptions o' = AMap [(''challenge'', AText (ro_Challenge o')), (''flowId'', AText (ro_FlowID o'))]"

section \<open>The pieces of a ceremony\<close>

definition rp_id :: string where "rp_id = ''localhost''"
definition base :: string where "base = ''http://localhost:8080''"

definition newAuthenticator :: "tool_io \<Rightarrow> int \<Rightarrow> VirtualAuthenticator tooling" where
  "newAuthenticator io alg t =
     (wrapE (\<lambda>_. Fatal) (New (io_keys io (t_keys t)) alg []), t\<lparr>t_keys := t_keys t + 1\<rparr>)"

text \<open>\<open>make([]byte, n)\<close> and \<open>copy\<close> into it.\<close>

definition copy_into :: "nat \<Rightarrow> bytes \<Rightarrow> bytes" where
  "copy_into n b = take n b @ replicate (n - length b) 0"

definition begin_fields :: "string \<Rightarrow> (string \<times> string) list" where
  "begin_fields username = [(''username'', username)]"

definition register_fields :: "string \<Rightarrow> RegistrationResult \<Rightarrow> (string \<times> string) list" where
  "register_fields username reg = [
     (''username'', username), (''rawId'', b64 (rres_CredentialID reg)),
     (''clientDataJSON'', b64 (rres_ClientDataJSON reg)), (''attestationObject'', b64 (rres_AttestationObject reg))]"

definition login_fields :: "string \<Rightarrow> AssertionResult \<Rightarrow> (string \<times> string) list" where
  "login_fields username assertion = [
     (''username'', username), (''rawId'', b64 (ares_CredentialID assertion)),
     (''clientDataJSON'', b64 (ares_ClientDataJSON assertion)),
     (''authenticatorData'', b64 (ares_AuthenticatorData assertion)), (''signature'', b64 (ares_Signature assertion))]"

definition post_registerBegin :: "Server \<Rightarrow> tool_io \<Rightarrow> string \<Rightarrow> tool \<Rightarrow> (nat \<times> bool \<times> client_creationOptions) \<times> tool" where
  "post_registerBegin s io username =
     post (Some (fill_creationOptions (io_float io))) zero_creationOptions s io [''register'', ''begin''] (begin_fields username)"

definition post_loginBegin :: "Server \<Rightarrow> tool_io \<Rightarrow> string \<Rightarrow> tool \<Rightarrow> (nat \<times> bool \<times> client_requestOptions) \<times> tool" where
  "post_loginBegin s io username =
     post (Some fill_requestOptions) zero_requestOptions s io [''login'', ''begin''] (begin_fields username)"

definition post_registerFinish :: "Server \<Rightarrow> tool_io \<Rightarrow> (string \<times> string) list \<Rightarrow> tool \<Rightarrow> (nat \<times> bool \<times> unit) \<times> tool" where
  "post_registerFinish s io body = post None () s io [''register'', ''finish''] body"

definition post_loginFinish :: "Server \<Rightarrow> tool_io \<Rightarrow> (string \<times> string) list \<Rightarrow> tool \<Rightarrow> (nat \<times> bool \<times> any go_map option) \<times> tool" where
  "post_loginFinish s io body = post (Some (fill_any_map (io_float io))) None s io [''login'', ''finish''] body"

text \<open>The commands that the transcripts show.\<close>

definition curl_begin :: "string \<Rightarrow> string \<Rightarrow> string" where
  "curl_begin what username = ''curl -s -X POST localhost:8080/'' @ what @ ''/begin -d '' @ apos @ ''{'' @ dquote @
     ''username'' @ dquote @ '':'' @ fmt_q username @ ''}'' @ apos"

definition curl_self :: string where
  "curl_self = ''curl -s -X POST localhost:8080/register/finish -d '' @ apos @ ''{ ... fmt: '' @ dquote @
     ''packed'' @ dquote @ '', attStmt: {alg, sig} '' @ emdash @ '' no x5c, signed by the credential'' @
     apos @ ''s own key ... }'' @ apos"

definition curl_full :: string where
  "curl_full = ''curl -s -X POST localhost:8080/register/finish -d '' @ apos @ ''{ ... fmt: '' @ dquote @
     ''packed'' @ dquote @ '', attStmt: {alg, sig, x5c: [<DER cert>]} '' @ emdash @
     '' signed by a separate attestation key ... }'' @ apos"

definition curl_nickname :: string where
  "curl_nickname = ''curl -s -X POST localhost:8080/register/finish -d '' @ apos @ ''{..., '' @ dquote @ ''nickname'' @
     dquote @ '':'' @ dquote @ ''YubiKey on desk'' @ dquote @ ''}'' @ apos"

definition curl_uv :: string where
  "curl_uv = ''curl -s -X POST localhost:8080/login/finish -d '' @ apos @ ''{..., '' @ dquote @ ''uv'' @ dquote @
     '':'' @ dquote @ ''required'' @ dquote @ ''}'' @ apos"

definition curl_list :: string where
  "curl_list = ''curl -s localhost:8080/credentials -H '' @ dquote @ ''Authorization: Bearer <token>'' @ dquote"

definition curl_delete :: "string \<Rightarrow> string" where
  "curl_delete id' = ''curl -s -X DELETE localhost:8080/credentials/'' @ id' @ '' -H '' @ dquote @
     ''Authorization: Bearer <token>'' @ dquote"

section \<open>The six captures\<close>

definition ceremony :: "Server \<Rightarrow> tool_io \<Rightarrow> string \<Rightarrow> int \<Rightarrow> string \<Rightarrow> unit tooling" where
  "ceremony s io username alg label =
     bindS (newAuthenticator io alg) (\<lambda>auth.
     bindS (w_line (''-- '' @ label @ '' registration --'')) (\<lambda>_.
     bindS (w_cmd (curl_begin ''register'' username)) (\<lambda>_.
     bindS (callS (post_registerBegin s io username)) (\<lambda>(status, failed, opts).
     bindS (liftS (failIf failed Fatal)) (\<lambda>_.
     bindS (w_jsonBlock (show_creationOptions opts)) (\<lambda>_.
     let credID = copy_into 16 (bytes_of_string (username @ ''-credential-id-pad'')) in
     bindS (unb64 (co_Challenge opts)) (\<lambda>chal.
     bindS (liftS (wrapE (\<lambda>_. Fatal) (v_Register auth rp_id base chal credID))) (\<lambda>reg.
     bindS (callS (post_registerFinish s io (register_fields username reg))) (\<lambda>(status, _, _).
     bindS (w_line (''HTTP '' @ fmt_d (int status) @ '' '' @ emdash @ '' credential stored (algorithm '' @ fmt_d alg @
       '', '' @ label @ '')'')) (\<lambda>_.
     bindS (w_line []) (\<lambda>_.
     bindS (w_line (''-- '' @ label @ '' login --'')) (\<lambda>_.
     bindS (w_cmd (curl_begin ''login'' username)) (\<lambda>_.
     bindS (callS (post_loginBegin s io username)) (\<lambda>(status, failed, lopts).
     bindS (liftS (failIf failed Fatal)) (\<lambda>_.
     bindS (w_jsonBlock (show_requestOptions lopts)) (\<lambda>_.
     bindS (unb64 (ro_Challenge lopts)) (\<lambda>chal.
     bindS (liftS (wrapE (\<lambda>_. Fatal) (fst (v_Authenticate (io_signing io) rp_id base chal credID auth)))) (\<lambda>assertion.
     bindS (callS (post_loginFinish s io (login_fields username assertion))) (\<lambda>(status, _, result).
     bindS (w_line (''HTTP '' @ fmt_d (int status))) (\<lambda>_.
     w_jsonBlock (of_map (\<lambda>v. v) result)))))))))))))))))))))"

text \<open>The two packed attestations; errors of the requests are ignored.\<close>

definition packedSelf :: "Server \<Rightarrow> tool_io \<Rightarrow> unit tooling" where
  "packedSelf s io =
     (let username = ''dave-packed-self'' in
     bindS (newAuthenticator io AlgES256) (\<lambda>auth.
     bindS (w_line ''-- packed self-attestation registration --'') (\<lambda>_.
     bindS (callS (post_registerBegin s io username)) (\<lambda>(_, _, opts).
     let credID = bytes_of_string ''dave-packed-self-cred-id'' in
     bindS (unb64 (co_Challenge opts)) (\<lambda>chal.
     bindS (liftS (wrapE (\<lambda>_. Fatal) (v_RegisterPackedSelf (io_signing io) auth rp_id base chal credID))) (\<lambda>reg.
     bindS (w_cmd curl_self) (\<lambda>_.
     bindS (callS (post_registerFinish s io (register_fields username reg))) (\<lambda>(status, _, _).
     w_line (''HTTP '' @ fmt_d (int status) @ '' '' @ emdash @ '' self-attestation verified against the credential'' @ apos @
       ''s own public key, accepted'')))))))))"

definition packedFull :: "Server \<Rightarrow> tool_io \<Rightarrow> unit tooling" where
  "packedFull s io =
     (let username = ''erin-packed-full'' in
     bindS (newAuthenticator io AlgES256) (\<lambda>auth.
     bindS (w_line ''-- packed full attestation registration (x5c) --'') (\<lambda>_.
     bindS (callS (post_registerBegin s io username)) (\<lambda>(_, _, opts).
     let credID = bytes_of_string ''erin-packed-full-cred-id'' in
     bindS (unb64 (co_Challenge opts)) (\<lambda>chal.
     bindS (\<lambda>t. (wrapE (\<lambda>_. Fatal) (v_RegisterPackedFull (io_keys io (t_keys t)) (io_signing io) auth rp_id base chal credID),
       t\<lparr>t_keys := t_keys t + 1\<rparr>)) (\<lambda>reg.
     bindS (w_cmd curl_full) (\<lambda>_.
     bindS (callS (post_registerFinish s io (register_fields username reg))) (\<lambda>(status, _, _).
     bindS (w_line (''HTTP '' @ fmt_d (int status) @ '' '' @ emdash @ '' leaf certificate in x5c verified as the statement'' @ apos @
       ''s signer, accepted'')) (\<lambda>_.
     w_line (''(not chained to a trust anchor '' @ emdash @
       '' that needs the FIDO Metadata Service, out of scope; see README Limits)''))))))))))"

text \<open>
  Listing and revoking.  \<open>list[0]["id"].(string)\<close> and \<open>loginResult["token"].(string)\<close> are empty
  if the key is missing or no string.
\<close>

definition text_at :: "string \<Rightarrow> any go_map option \<Rightarrow> string" where
  "text_at k m =
     (case Option.bind m (\<lambda>kvs. map_of kvs k) of Some (AText x) \<Rightarrow> x | _ \<Rightarrow> [])"

definition list_credentials :: "Server \<Rightarrow> tool_io \<Rightarrow> string \<Rightarrow> tool \<Rightarrow> any go_map option list option option \<times> tool" where
  "list_credentials s io token t =
     (case do_request s io ''GET'' [''credentials''] token t of
        (None, t') \<Rightarrow> (None, t')
      | (Some resp, t') \<Rightarrow> (Some (fst (Decode_into (fill_map_list (io_float io)) (resp_Body resp) None)), t'))"

definition show_list :: "any go_map option list option \<Rightarrow> any" where
  "show_list l = of_list (of_map (\<lambda>v. v)) l"

text \<open>
  The second request of the list is not checked: without a response its body is a nil
  dereference.  A URL that does not parse is one as well.
\<close>

definition revoke_first :: "Server \<Rightarrow> tool_io \<Rightarrow> string \<Rightarrow> any go_map option \<Rightarrow> unit tooling" where
  "revoke_first s io token first =
     (let id' = text_at ''id'' first in
     bindS (w_line []) (\<lambda>_.
     bindS (w_line ''-- revoke it --'') (\<lambda>_.
     bindS (w_cmd (curl_delete id')) (\<lambda>_.
     bindS (liftS (someOr (credential_path io id') Panic)) (\<lambda>path.
     bindS (callS (do_request s io ''DELETE'' path token)) (\<lambda>dresp.
     bindS (liftS (someOr dresp Fatal)) (\<lambda>dresp.
     bindS (w_line (''HTTP '' @ fmt_d (int (resp_Status dresp)))) (\<lambda>_.
     bindS (w_line []) (\<lambda>_.
     bindS (w_line ''-- list again: gone --'') (\<lambda>_.
     bindS (w_cmd curl_list) (\<lambda>_.
     bindS (callS (list_credentials s io token)) (\<lambda>l2.
     bindS (liftS (someOr l2 Panic)) (\<lambda>l2.
     w_jsonBlock (show_list l2))))))))))))))"

definition credentialManagement :: "Server \<Rightarrow> tool_io \<Rightarrow> unit tooling" where
  "credentialManagement s io =
     (let username = ''frank''; credID = bytes_of_string ''frank-credential-id-pad'' in
     bindS (newAuthenticator io AlgES256) (\<lambda>auth.
     bindS (callS (post_registerBegin s io username)) (\<lambda>(_, _, opts).
     bindS (unb64 (co_Challenge opts)) (\<lambda>chal.
     bindS (liftS (wrapE (\<lambda>_. Fatal) (v_Register auth rp_id base chal credID))) (\<lambda>reg.
     bindS (w_line ''-- register with a nickname --'') (\<lambda>_.
     bindS (w_cmd curl_nickname) (\<lambda>_.
     bindS (callS (post_registerFinish s io (register_fields username reg @ [(''nickname'', ''YubiKey on desk'')]))) (\<lambda>_.
     bindS (callS (post_loginBegin s io username)) (\<lambda>(_, _, lopts).
     bindS (unb64 (ro_Challenge lopts)) (\<lambda>chal.
     bindS (liftS (wrapE (\<lambda>_. Fatal) (fst (v_Authenticate (io_signing io) rp_id base chal credID auth)))) (\<lambda>assertion.
     bindS (callS (post_loginFinish s io (login_fields username assertion))) (\<lambda>(_, _, loginResult).
     let token = text_at ''token'' loginResult in
     bindS (w_line []) (\<lambda>_.
     bindS (w_line ''-- list credentials --'') (\<lambda>_.
     bindS (w_cmd curl_list) (\<lambda>_.
     bindS (callS (list_credentials s io token)) (\<lambda>l.
     bindS (liftS (someOr l Fatal)) (\<lambda>l.
     bindS (w_jsonBlock (show_list l)) (\<lambda>_.
     case l of Some (first # _) \<Rightarrow> revoke_first s io token first | _ \<Rightarrow> returnS ()))))))))))))))))))"

definition uvOverride :: "Server \<Rightarrow> tool_io \<Rightarrow> unit tooling" where
  "uvOverride s io =
     (let username = ''grace''; credID = bytes_of_string ''grace-credential-id-pad'' in
     bindS (newAuthenticator io AlgES256) (\<lambda>auth.
     bindS (callS (post_registerBegin s io username)) (\<lambda>(_, _, opts).
     bindS (unb64 (co_Challenge opts)) (\<lambda>chal.
     bindS (liftS (wrapE (\<lambda>_. Fatal) (v_Register auth rp_id base chal credID))) (\<lambda>reg.
     bindS (callS (post_registerFinish s io (register_fields username reg))) (\<lambda>_.
     bindS (w_line ''-- server default policy: uv=preferred --'') (\<lambda>_.
     bindS (callS (post_loginBegin s io username)) (\<lambda>(_, _, lopts).
     bindS (unb64 (ro_Challenge lopts)) (\<lambda>chal.
     bindS (liftS (wrapE (\<lambda>_. Fatal) (fst (v_Authenticate (io_signing io) rp_id base chal credID auth)))) (\<lambda>assertion.
     bindS (w_cmd curl_uv) (\<lambda>_.
     bindS (callS (post_loginFinish s io (login_fields username assertion @ [(''uv'', ''required'')]))) (\<lambda>(_, _, result).
     bindS (w_jsonBlock (of_map (\<lambda>v. v) result)) (\<lambda>_.
     bindS (w_line (''this one ceremony demanded stricter verification than the server default '' @ emdash)) (\<lambda>_.
     w_line (''policy.EffectivePolicy only ever tightens the floor, never loosens it'')))))))))))))))"

section \<open>The program\<close>

definition capture :: "tool_io \<Rightarrow> string \<Rightarrow> string \<Rightarrow> unit tooling \<Rightarrow> unit tooling" where
  "capture io dir name fn =
     bindS (\<lambda>t. (Inr (), t\<lparr>t_buf := []\<rparr>)) (\<lambda>_.
     bindS fn (\<lambda>_.
     let path = dir @ ''/'' @ name in
     bindS (\<lambda>t. if io_write io path then (Inr (), t\<lparr>t_files := t_files t @ [(path, t_buf t)]\<rparr>) else (Inl Fatal, t)) (\<lambda>_ t.
     (Inr (), t\<lparr>t_stdout := t_stdout t @ [''wrote '' @ path]\<rparr>))))"

definition outDir :: string where "outDir = ''docs/demo/captures''"

definition demodata_main :: "Server \<Rightarrow> tool_io \<Rightarrow> unit tooling" where
  "demodata_main s io =
     bindS (liftS (failIf (\<not> io_mkdir io) Fatal)) (\<lambda>_.
     bindS (capture io outDir ''rs256-ceremony.txt'' (ceremony s io ''bob'' AlgRS256 ''RS256'')) (\<lambda>_.
     bindS (capture io outDir ''eddsa-ceremony.txt'' (ceremony s io ''carol'' AlgEdDSA ''EdDSA'')) (\<lambda>_.
     bindS (capture io outDir ''packed-self.txt'' (packedSelf s io)) (\<lambda>_.
     bindS (capture io outDir ''packed-full.txt'' (packedFull s io)) (\<lambda>_.
     bindS (capture io outDir ''credential-management.txt'' (credentialManagement s io)) (\<lambda>_.
     bindS (capture io outDir ''uv-override.txt'' (uvOverride s io)) (\<lambda>_ t.
     (Inr (), t\<lparr>t_stdout := t_stdout t @ [''done '' @ emdash @ '' see docs/demo/captures/*.txt'']\<rparr>))))))))"

end
