(* ===== verification/Json_Nested.thy ===== *)
theory Json_Nested
  imports Json_Any Json_Correct
begin

text \<open>
  What the server writes is read back by a client: nested objects, arrays and numbers are
  scanned to their end at any depth, and the maps and structs that the client decodes them
  into hold what was written.
\<close>

section \<open>Scanning at any depth\<close>

text \<open>What can follow a value: a comma, a closing bracket or the newline at the end.\<close>

definition ends :: "bytes \<Rightarrow> bool" where
  "ends x \<longleftrightarrow> (case x of [] \<Rightarrow> True | c # _ \<Rightarrow> c = ch_comma \<or> c = ch_rbrace \<or> c = ch_rbracket \<or> c = 0x0a)"

lemma ends_simps [simp]:
  "ends []" "ends (ch_comma # x)" "ends (ch_rbrace # x)" "ends (ch_rbracket # x)" "ends (0x0a # x)"
  by (simp_all add: ends_def)

text \<open>A value with at most \<open>k\<close> brackets around its parts.\<close>

definition deep :: "nat \<Rightarrow> json \<Rightarrow> bytes \<Rightarrow> bool" where
  "deep k v e \<longleftrightarrow> (\<forall>d x. d + k \<le> maxNestingDepth \<longrightarrow> ends x \<longrightarrow> scan_value d (e @ x) = Some (v, x))"

named_theorems deep_intros \<open>values that are scanned at any depth\<close>

lemma deepD: "deep k v e \<Longrightarrow> d + k \<le> maxNestingDepth \<Longrightarrow> ends x \<Longrightarrow> scan_value d (e @ x) = Some (v, x)"
  by (simp add: deep_def)

lemma deep_mono: "deep k v e \<Longrightarrow> k \<le> n \<Longrightarrow> deep n v e"
  by (auto simp: deep_def)

lemma deep_string [deep_intros]: "deep k (JStr (quote (bytes_of_string s))) (Marshal_string s)"
  by (simp add: deep_def Marshal_string_def scan_value_quote scan_string_quote)

lemma deep_plain: "plain_text b \<Longrightarrow> deep k (JStr b) ([ch_quote] @ b @ [ch_quote])"
  by (simp add: deep_def scan_value_quote scan_plain)

lemma deep_bool [deep_intros]: "deep k (JBool b) (Marshal_bool b)"
  by (cases b)
    (simp_all add: deep_def Marshal_bool_def lit_true_def lit_false_def scan_value.simps strip_def
      json_chars isDigit_def isSpace_def)

subsection \<open>Numbers\<close>

lemma digit_unat: "k < 10 \<Longrightarrow> unat (of_nat (48 + k) :: byte) = 48 + k"
  unfolding unat_of_nat by simp

lemma digit_byte: "k < 10 \<Longrightarrow> isDigit (of_nat (48 + k))"
  using digit_unat [of k] unfolding isDigit_def word_le_nat_alt by (simp only:) simp

lemma decimal_digits: "list_all isDigit (decimal n)"
proof (induction n rule: decimal.induct)
  case (1 n)
  then show ?case
    using digit_byte [of "n mod 10"] digit_byte [of n] by (subst decimal.simps) auto
qed

lemma decimal_head: "\<exists>c r. decimal n = c # r \<and> isDigit c \<and> (n \<noteq> 0 \<longrightarrow> c \<noteq> 0x30)"
proof (induction n rule: decimal.induct)
  case (1 n)
  show ?case
  proof (cases "n < 10")
    case True
    have "n \<noteq> 0 \<longrightarrow> of_nat (48 + n) \<noteq> (0x30 :: byte)"
    proof (intro impI notI)
      assume "n \<noteq> 0" and "of_nat (48 + n) = (0x30 :: byte)"
      then have "unat (of_nat (48 + n) :: byte) = 0x30" by (simp only:) simp
      then show False using digit_unat [OF True] \<open>n \<noteq> 0\<close> by (simp only:)
    qed
    then show ?thesis using True digit_byte [of n] by (subst decimal.simps) simp
  next
    case False
    then show ?thesis using 1 by (subst decimal.simps) (auto simp: div_eq_0_iff)
  qed
qed

lemma ends_no_number: "ends x \<Longrightarrow> takeWhile isDigit x = [] \<and> dropWhile isDigit x = x \<and> scan_frac x = Some ([], x) \<and> scan_exp x = Some ([], x)"
  by (cases x) (auto simp: ends_def json_chars isDigit_def scan_frac_def scan_exp_def)

lemma scan_decimal:
  assumes "ends x"
  shows "scan_int (decimal n @ x) = Some (decimal n, x)"
proof -
  obtain c r where c: "decimal n = c # r" "isDigit c" "n \<noteq> 0 \<longrightarrow> c \<noteq> 0x30" using decimal_head [of n] by blast
  have digits: "takeWhile isDigit (decimal n @ x) = decimal n" "dropWhile isDigit (decimal n @ x) = x"
    using decimal_digits [of n] ends_no_number [OF assms]
    by (simp_all add: list_all_iff takeWhile_append2 dropWhile_append2)
  show ?thesis
  proof (cases "n = 0")
    case True
    then show ?thesis by (simp add: decimal.simps scan_int_def)
  next
    case False
    then show ?thesis using c digits by (simp add: scan_int_def scan_digits_def)
  qed
qed

lemma scan_number_int:
  assumes "ends x"
  shows "scan_number (Marshal_int i @ x) = Some (Marshal_int i, x)"
proof -
  note x = ends_no_number [OF assms]
  have "\<not> isDigit 0x2d" by (simp add: isDigit_def)
  then obtain c r where c: "decimal (nat i) = c # r" "c \<noteq> 0x2d" using decimal_head [of "nat i"] by metis
  show ?thesis
    using x scan_decimal [OF assms, of "nat i"] scan_decimal [OF assms, of "nat (- i)"] c
    by (auto simp: Marshal_int_def scan_number_def)
qed

lemma deep_int [deep_intros]: "deep k (JNum (Marshal_int i)) (Marshal_int i)"
proof -
  obtain c r where c: "Marshal_int i = c # r" "c = 0x2d \<or> isDigit c"
    using decimal_head [of "nat i"] by (cases "i < 0") (auto simp: Marshal_int_def)
  have "c \<noteq> ch_lbrace \<and> c \<noteq> ch_lbracket \<and> c \<noteq> ch_quote \<and> \<not> isSpace c"
    using c(2) by (auto simp: json_chars isDigit_def isSpace_def)
  then have "scan_value d (Marshal_int i @ x) = map_option (\<lambda>(s, t). (JNum s, t)) (scan_number (Marshal_int i @ x))" for d x
    using c by (subst scan_value.simps) simp
  then show ?thesis by (simp add: deep_def scan_number_int)
qed

subsection \<open>Arrays and objects\<close>

lemma length_join_values: "length vs \<le> Suc (length (join_values vs))"
  by (induction vs rule: join_values.induct) auto

lemma scan_elements_join:
  assumes "d + k \<le> maxNestingDepth"
  shows "list_all (\<lambda>(e, v). deep k v e) es \<Longrightarrow> es \<noteq> [] \<Longrightarrow> length es \<le> n \<Longrightarrow>
    scan_elements (scan_value d) n (join_values (map fst es) @ ch_rbracket # x) = Some (map snd es, x)"
proof (induction es arbitrary: n)
  case (Cons m es)
  obtain e v where m: "m = (e, v)" by (cases m)
  obtain n' where n: "n = Suc n'" using Cons.prems(3) by (cases n) auto
  have s: "ends y \<Longrightarrow> scan_value d (e @ y) = Some (v, y)" for y
    using Cons.prems(1) assms by (auto simp: m intro: deepD)
  have sp: "\<not> isSpace ch_rbracket" "ch_rbracket \<noteq> ch_comma" by (simp_all add: isSpace_def json_chars)
  show ?case
  proof (cases es)
    case Nil
    then show ?thesis using s [of "ch_rbracket # x"] sp by (simp add: m n)
  next
    case (Cons m' es')
    have "scan_elements (scan_value d) n' (join_values (map fst es) @ ch_rbracket # x) = Some (map snd es, x)"
      using Cons Cons.IH Cons.prems n by simp
    then show ?thesis
      using s [of "ch_comma # join_values (map fst es) @ ch_rbracket # x"] by (simp add: m n Cons)
  qed
qed simp

lemma scan_value_nothing: "skipSpace b = [] \<Longrightarrow> scan_value d b = None"
  by (subst scan_value.simps) simp

lemma scan_elements_first: "scan_elements pv n b = Some r \<Longrightarrow> pv b \<noteq> None"
  by (cases n) (auto simp: bind_eq_Some_conv)

lemma scan_value_rbracket: "skipSpace b = ch_rbracket # r \<Longrightarrow> scan_value d b = None"
  by (subst scan_value.simps) (simp add: json_chars isDigit_def)

lemma deep_array:
  assumes "list_all (\<lambda>(e, v). deep k v e) es"
  shows "deep (Suc k) (JArr (map snd es)) (Marshal_array (map fst es))"
  unfolding deep_def
proof (intro allI impI)
  fix d x assume d: "d + Suc k \<le> maxNestingDepth" and x: "ends x"
  have ch: "ch_lbracket \<noteq> ch_lbrace" "\<not> isSpace ch_lbracket" "\<not> isSpace ch_rbracket" by (simp_all add: json_chars isSpace_def)
  let ?b = "join_values (map fst es) @ ch_rbracket # x"
  have "scan_array d (scan_value (d + 1)) ?b = Some (JArr (map snd es), x)"
  proof (cases "es = []")
    case True
    then show ?thesis using d ch by (simp add: scan_array_def)
  next
    case False
    have len: "length es \<le> length ?b" using length_join_values [of "map fst es"] by simp
    have "d + 1 + k \<le> maxNestingDepth" using d by simp
    from scan_elements_join [OF this assms False len]
    have el: "scan_elements (scan_value (d + 1)) (length ?b) ?b = Some (map snd es, x)" .
    then have "scan_value (d + 1) ?b \<noteq> None" by (rule scan_elements_first)
    then have "skipSpace ?b \<noteq> [] \<and> hd (skipSpace ?b) \<noteq> ch_rbracket"
      using scan_value_rbracket [of ?b _ "d + 1"] scan_value_nothing [of ?b "d + 1"] by (metis list.collapse)
    moreover define b where "b = ?b"
    ultimately have "skipSpace b \<noteq> [] \<and> hd (skipSpace b) \<noteq> ch_rbracket"
        "scan_elements (scan_value (d + 1)) (length b) b = Some (map snd es, x)"
      using el by simp_all
    then have "scan_array d (scan_value (d + 1)) b = Some (JArr (map snd es), x)"
      using d by (cases "skipSpace b") (auto simp: scan_array_def)
    then show ?thesis by (simp only: b_def)
  qed
  then show "scan_value d (Marshal_array (map fst es) @ x) = Some (JArr (map snd es), x)"
    using ch by (subst scan_value.simps) (simp add: Marshal_array_def)
qed

lemma scan_members_deep:
  assumes "d + k \<le> maxNestingDepth"
  shows "list_all (\<lambda>(_, e, v). deep k v e) ms \<Longrightarrow> ms \<noteq> [] \<Longrightarrow> length ms \<le> n \<Longrightarrow>
    scan_members (scan_value d) n (join_members (encoded ms) @ ch_rbrace # x) = Some (parsed ms, x)"
proof (induction ms arbitrary: n)
  case (Cons m ms)
  obtain key e v where m: "m = (key, e, v)" by (cases m)
  obtain n' where n: "n = Suc n'" using Cons.prems(3) by (cases n) auto
  have s: "ends y \<Longrightarrow> scan_value d (e @ y) = Some (v, y)" for y
    using Cons.prems(1) assms by (auto simp: m intro: deepD)
  have ne: "ch_rbrace \<noteq> ch_comma" by (simp add: json_chars)
  show ?case
  proof (cases ms)
    case Nil
    then show ?thesis
      using scan_key_marshalled [of key "e @ ch_rbrace # x"] s [of "ch_rbrace # x"] ne by (simp add: m n)
  next
    case (Cons m' ms')
    obtain key' e' v' where m': "m' = (key', e', v')" by (cases m')
    have ih: "scan_members (scan_value d) n' (join_members (encoded ms) @ ch_rbrace # x) = Some (parsed ms, x)"
      using Cons Cons.IH Cons.prems n by simp
    have "join_members (encoded (m # ms)) = Marshal_string key @ ch_colon # e @ ch_comma # join_members (encoded ms)"
      by (simp add: Cons m m')
    then show ?thesis
      using scan_key_marshalled [of key "e @ ch_comma # join_members (encoded ms) @ ch_rbrace # x"]
        s [of "ch_comma # join_members (encoded ms) @ ch_rbrace # x"] ih
      by (simp add: m n)
  qed
qed simp

lemma deep_object:
  assumes "list_all (\<lambda>(_, e, v). deep k v e) ms"
  shows "deep (Suc k) (JObj (parsed ms)) (Marshal_object (encoded ms))"
  unfolding deep_def
proof (intro allI impI)
  fix d x assume d: "d + Suc k \<le> maxNestingDepth" and x: "ends x"
  let ?b = "join_members (encoded ms) @ ch_rbrace # x"
  have "scan_object d (scan_value (d + 1)) ?b = Some (JObj (parsed ms), x)"
  proof (cases "ms = []")
    case True
    then show ?thesis using d by (simp add: scan_object_def)
  next
    case False
    have len: "length ms \<le> length ?b" using length_join_members [of "encoded ms"] by (simp add: encoded_def)
    have "d + 1 + k \<le> maxNestingDepth" using d by simp
    from scan_members_deep [OF this assms False len]
    have members: "scan_members (scan_value (d + 1)) (length ?b) ?b = Some (parsed ms, x)" .
    obtain r where "join_members (encoded ms) = ch_quote # r"
      using join_members_head [of "encoded ms"] False by (auto simp: encoded_def)
    moreover have "ch_quote \<noteq> ch_rbrace" by (simp add: json_chars)
    ultimately show ?thesis using members d by (simp add: scan_object_def)
  qed
  then show "scan_value d (Marshal_object (encoded ms) @ x) = Some (JObj (parsed ms), x)"
    by (subst scan_value.simps) (simp add: Marshal_object_def)
qed

text \<open>The response body: one value and a newline.\<close>

lemma Decode_into_deep:
  assumes "deep k v e" and "k \<le> maxNestingDepth"
  shows "Decode_into fill (e @ [0x0a]) out = fill v out"
  using deepD [OF assms(1), of 0 "[0x0a]"] assms(2) by (simp add: Decode_into_def parse_stream_def)

end
