(* ===== verification/Demodata_Correct.thy ===== *)
theory Demodata_Correct
  imports Demodata Json_Nested Http_Flow
begin

text \<open>
  What the client of \<open>tools/demodata\<close> reads and writes on the wire: the bodies that it sends
  are decoded by the server to what it put in, and the responses of the server to what the
  server answered.
\<close>

section \<open>Responses\<close>

lemma decoded_text [simp]: "string_of_bytes (coerceUTF8 (bytes_of_string x)) = coerceString x"
  by (rule coerceString_def [symmetric])

lemma coerceString_name [simp]: "ascii_name k \<Longrightarrow> coerceString k = k"
  by (simp add: ascii_name_def coerceString_ascii)

lemmas ascii_eval = ascii_name_def byte_of_char_def

lemma find_field_unknown:
  assumes "list_all (\<lambda>n. foldName (bytes_of_string n) \<noteq> foldName (bytes_of_string k)) (map fst fds)"
  shows "find_field fds (bytes_of_string k) = None"
proof -
  have "find (\<lambda>(n, f). bytes_of_string n = bytes_of_string k) fds = None"
      "find (\<lambda>(n, f). foldName (bytes_of_string n) = foldName (bytes_of_string k)) fds = None"
    using assms by (auto simp: find_None_iff list_all_iff)
  then show ?thesis unfolding find_field_def by simp
qed

lemma set_members_skip:
  assumes "list_all (\<lambda>n. foldName (bytes_of_string n) \<noteq> foldName (bytes_of_string k)) (map fst fds)" and "ascii_name k"
  shows "set_members fds ((quote (bytes_of_string k), v) # ms) s = set_members fds ms s"
  using find_field_unknown [OF assms(1)] unquote_name [OF assms(2)] by (simp del: unquote_quote)

text \<open>Names are compared byte by byte, also where they are folded or sorted.\<close>

lemma wire_names:
  "foldName (bytes_of_string k) = foldName (map byte_of_char k)"
  "bytesCompare (bytes_of_string k) (bytes_of_string k') = bytesCompare (map byte_of_char k) (map byte_of_char k')"
  by (simp_all add: bytes_of_string_def)

lemma fill_text_quote [simp]: "fill_text (JStr (quote (bytes_of_string x))) old = (coerceString x, True)"
  by (simp add: fill_text_def)

text \<open>The members of an object, each with its encoding and with what it is parsed to.\<close>

definition text_member :: "string \<Rightarrow> string \<Rightarrow> member" where
  "text_member k x = (k, Marshal_string x, JStr (quote (bytes_of_string x)))"

definition bool_member :: "string \<Rightarrow> bool \<Rightarrow> member" where
  "bool_member k b = (k, Marshal_bool b, JBool b)"

definition int_member :: "string \<Rightarrow> int \<Rightarrow> member" where
  "int_member k i = (k, Marshal_int i, JNum (Marshal_int i))"

definition object_member :: "string \<Rightarrow> member list \<Rightarrow> member" where
  "object_member k ms = (k, Marshal_object (encoded ms), JObj (parsed ms))"

definition objects_member :: "string \<Rightarrow> member list list \<Rightarrow> member" where
  "objects_member k mss =
     (k, Marshal_array (map (\<lambda>ms. Marshal_object (encoded ms)) mss), JArr (map (\<lambda>ms. JObj (parsed ms)) mss))"

lemmas member_defs = text_member_def bool_member_def int_member_def object_member_def objects_member_def

definition deep_member :: "nat \<Rightarrow> member \<Rightarrow> bool" where
  "deep_member k m = (case m of (_, e, v) \<Rightarrow> deep k v e)"

lemma deep_object_members:
  assumes "\<forall>m \<in> set ms. deep_member k m"
  shows "deep (Suc k) (JObj (parsed ms)) (Marshal_object (encoded ms))"
  using assms by (intro deep_object) (simp add: list_all_iff deep_member_def case_prod_unfold)

lemma deep_member_intros [simp]:
  "deep_member k (text_member n x)" "deep_member k (bool_member n b)" "deep_member k (int_member n i)"
  by (simp_all add: deep_member_def member_defs deep_string deep_bool deep_int)

lemma deep_member_object [simp]:
  assumes "\<forall>m \<in> set ms. deep_member k m"
  shows "deep_member (Suc k) (object_member n ms)"
  using deep_object_members [OF assms] by (simp add: deep_member_def object_member_def)

lemma deep_objects:
  assumes "\<forall>ms \<in> set mss. \<forall>m \<in> set ms. deep_member k m"
  shows "deep (Suc (Suc k)) (JArr (map (\<lambda>ms. JObj (parsed ms)) mss)) (Marshal_array (map (\<lambda>ms. Marshal_object (encoded ms)) mss))"
proof -
  let ?es = "map (\<lambda>ms. (Marshal_object (encoded ms), JObj (parsed ms))) mss"
  have "list_all (\<lambda>(e, v). deep (Suc k) v e) ?es"
    using assms deep_object_members [of _ k] by (auto simp: list_all_iff)
  from deep_array [OF this] show ?thesis by (simp add: comp_def)
qed

lemma deep_member_objects [simp]:
  assumes "\<forall>ms \<in> set mss. \<forall>m \<in> set ms. deep_member k m"
  shows "deep_member (Suc (Suc k)) (objects_member n mss)"
  using deep_objects [OF assms] by (simp add: deep_member_def objects_member_def)

text \<open>The options of a registration.\<close>

definition options_of :: "Server \<Rightarrow> string \<Rightarrow> bytes \<Rightarrow> bytes \<Rightarrow> client_creationOptions" where
  "options_of s u userID chal = \<lparr>
     co_RP = Some [(''id'', coerceString (srv_RPID s)), (''name'', coerceString (srv_RPName s))],
     co_User = Some [(''displayName'', coerceString u), (''id'', b64 userID), (''name'', coerceString u)],
     co_Challenge = b64 chal,
     co_AuthenticatorSelection = Some [(''requireResidentKey'', ABool True), (''residentKey'', AText ''required''),
       (''userVerification'', AText (coerceString (reg_UVPolicy (srv_Registrar s))))]\<rparr>"

definition creation_members :: "Server \<Rightarrow> string \<Rightarrow> bytes \<Rightarrow> bytes \<Rightarrow> member list" where
  "creation_members s u userID chal = [
     object_member ''rp'' [text_member ''id'' (srv_RPID s), text_member ''name'' (srv_RPName s)],
     object_member ''user'' [text_member ''id'' (b64 userID), text_member ''name'' u, text_member ''displayName'' u],
     text_member ''challenge'' (b64 chal),
     objects_member ''pubKeyCredParams''
       (map (\<lambda>a. [text_member ''type'' ''public-key'', int_member ''alg'' a]) [AlgES256, AlgRS256, AlgEdDSA]),
     int_member ''timeout'' timeout_ms,
     text_member ''attestation'' ''none'',
     object_member ''authenticatorSelection'' [text_member ''residentKey'' ''required'',
       bool_member ''requireResidentKey'' True, text_member ''userVerification'' (reg_UVPolicy (srv_Registrar s))]]"

lemma creationOptions_members: "creationOptions s u userID chal = Marshal_object (encoded (creation_members s u userID chal))"
  by (simp add: creationOptions_def creation_members_def member_defs relyingParty_def userEntity_def
      publicKeyCredentialParam_def authenticatorSelection_def b64_def)

lemma deep_creation: "deep 3 (JObj (parsed (creation_members s u userID chal))) (creationOptions s u userID chal)"
proof -
  have "\<forall>m \<in> set (creation_members s u userID chal). deep_member (Suc (Suc 0)) m"
    by (simp add: creation_members_def)
  from deep_object_members [OF this] show ?thesis by (simp add: creationOptions_members numeral_3_eq_3)
qed

lemma b64_ascii [simp]: "coerceString (b64 b) = b64 b"
  by (simp add: b64_def)

lemma fill_field_pair [simp]:
  "fill_field get upd fill v (s, ok) = (case fill v (get s) of (x, ok') \<Rightarrow> Some (upd (\<lambda>_. x) s, ok \<and> ok'))"
  by (simp add: fill_field_def)

text \<open>Unrolling the decoding of an object; then the order of the keys of its maps.\<close>

lemmas fill_eval = fill_struct_def member_defs set_members_field set_members_skip wire_names ascii_eval
  fill_text_map_def fill_any_map_def fill_map_def put_all_def

lemma decode_creationOptions:
  "Decode_into (fill_creationOptions fl) (creationOptions s u userID chal @ [0x0a]) zero_creationOptions =
     (options_of s u userID chal, True)"
  apply (subst Decode_into_deep [OF deep_creation])
   apply (simp add: maxNestingDepth_def)
  apply (simp add: fill_creationOptions_def creation_members_def zero_creationOptions_def options_of_def fill_eval del: set_members.simps(2))
  done

text \<open>The options of a login, and the result of one.\<close>

definition request_members :: "Server \<Rightarrow> bytes \<Rightarrow> Credential list \<Rightarrow> member list" where
  "request_members s chal allow = [
     text_member ''rpId'' (srv_RPID s), text_member ''challenge'' (b64 chal), int_member ''timeout'' timeout_ms,
     text_member ''userVerification'' (auth_UVPolicy (srv_Authenticator s))] @
     (if allow = [] then [] else [objects_member ''allowCredentials''
       (map (\<lambda>c. [text_member ''type'' ''public-key'', text_member ''id'' (b64 (cred_ID c))]) allow)])"

lemma requestOptions_members: "requestOptions s chal allow [] = Marshal_object (encoded (request_members s chal allow))"
  by (simp add: requestOptions_def request_members_def member_defs allowedCredential_def [abs_def] b64_def comp_def)

lemma deep_request: "deep 3 (JObj (parsed (request_members s chal allow))) (requestOptions s chal allow [])"
proof -
  have "\<forall>m \<in> set (request_members s chal allow). deep_member (Suc (Suc 0)) m"
    by (auto simp: request_members_def)
  from deep_object_members [OF this] show ?thesis by (simp add: requestOptions_members numeral_3_eq_3)
qed

lemma decode_requestOptions:
  "Decode_into fill_requestOptions (requestOptions s chal allow [] @ [0x0a]) zero_requestOptions =
     (\<lparr>ro_Challenge = b64 chal, ro_FlowID = []\<rparr>, True)"
  by (subst Decode_into_deep [OF deep_request], simp add: maxNestingDepth_def)
    (simp add: fill_requestOptions_def request_members_def zero_requestOptions_def fill_eval del: set_members.simps(2))

definition shown_login :: "string \<Rightarrow> LoginResult \<Rightarrow> any go_map" where
  "shown_login token result = [(''token'', AText (coerceString token)),
     (''user'', AText (coerceString (result_Username result))), (''uv'', ABool (result_UVPerformed result))]"

lemma decode_loginFinish:
  "Decode_into (fill_any_map fl) (loginFinishResponse token result @ [0x0a]) None = (Some (shown_login token result), True)"
proof -
  let ?ms = "[text_member ''token'' token, text_member ''user'' (result_Username result), bool_member ''uv'' (result_UVPerformed result)]"
  have "\<forall>m \<in> set ?ms. deep_member 0 m" by simp
  from Decode_into_deep [OF deep_object_members [OF this], of "fill_any_map fl" None] show ?thesis
    by (simp add: loginFinishResponse_def shown_login_def maxNestingDepth_def fill_eval)
qed

text \<open>The list of credentials.\<close>

definition float_ok :: "float_text \<Rightarrow> bool" where
  "float_ok fl \<longleftrightarrow> (\<forall>i. \<bar>i\<bar> < 2 ^ 53 \<longrightarrow> fl (Marshal_int i) = Some (Marshal_int i))"

lemma unquote_plain: "plain_text b \<Longrightarrow> unquote b = b"
proof (induction b)
  case (Cons c b)
  then have "piece [c] [c]" by (intro piece_plain) (auto simp: plain_text_def)
  then have "unquote ([c] @ b) = [c] @ unquote b" unfolding piece_def by blast
  then show ?case using Cons by (simp add: plain_text_def)
qed simp

definition shown_credential :: "time_text \<Rightarrow> Credential \<Rightarrow> any go_map" where
  "shown_credential tt c = [
     (''aaguid'', AText (b64 (cred_AAGUID c))), (''algorithm'', ANum (Marshal_int (cred_Algorithm c))),
     (''createdAt'', AText (string_of_bytes (format_time tt (cred_CreatedAt c)))), (''id'', AText (b64 (cred_ID c)))] @
     (if cred_Nickname c = [] then [] else [(''nickname'', AText (coerceString (cred_Nickname c)))])"

definition summary_members :: "time_text \<Rightarrow> Credential \<Rightarrow> member list" where
  "summary_members tt c = [
     text_member ''id'' (b64 (cred_ID c)), int_member ''algorithm'' (cred_Algorithm c),
     (''createdAt'', Marshal_time tt (cred_CreatedAt c), JStr (format_time tt (cred_CreatedAt c))),
     text_member ''aaguid'' (b64 (cred_AAGUID c))] @
     (if cred_Nickname c = [] then [] else [text_member ''nickname'' (cred_Nickname c)])"

lemma summary_encoded:
  "json_time_ok (cred_CreatedAt c) \<Longrightarrow> credentialSummary tt c = Some (Marshal_object (encoded (summary_members tt c)))"
  by (simp add: credentialSummary_def summary_members_def member_defs b64_def)

lemma fill_summary:
  assumes "float_ok fl" and "\<bar>cred_Algorithm c\<bar> < 2 ^ 53" and "plain_text (format_time tt (cred_CreatedAt c))"
  shows "fill_any_map fl (JObj (parsed (summary_members tt c))) None = (Some (shown_credential tt c), True)"
proof -
  have "fl (Marshal_int (cred_Algorithm c)) = Some (Marshal_int (cred_Algorithm c))"
    using assms(1,2) by (simp add: float_ok_def)
  then show ?thesis
    using unquote_plain [OF assms(3)]
    by (simp add: summary_members_def shown_credential_def fill_eval)
qed

lemma decode_list:
  assumes fl: "float_ok fl" and c: "\<And>c. c \<in> set creds \<Longrightarrow> json_time_ok (cred_CreatedAt c) \<and>
      \<bar>cred_Algorithm c\<bar> < 2 ^ 53 \<and> plain_text (format_time tt (cred_CreatedAt c))"
  shows "\<exists>b. credentialSummaries tt creds = Some b \<and>
    Decode_into (fill_map_list fl) (b @ [0x0a]) None = (Some (map (\<lambda>c. Some (shown_credential tt c)) creds), True)"
proof -
  let ?mss = "map (summary_members tt) creds"
  have d: "\<forall>ms \<in> set ?mss. \<forall>m \<in> set ms. deep_member 0 m"
    using c by (auto simp: summary_members_def deep_member_def [where m = "(_, _, _)"] Marshal_time_def deep_plain
        simp del: append_Cons append_Nil intro!: deep_plain)
  have "credentialSummaries tt creds = Some (Marshal_array (map (\<lambda>ms. Marshal_object (encoded ms)) ?mss))"
    using c by (auto simp: credentialSummaries_def list_all_iff summary_encoded intro!: arg_cong [where f = Marshal_array])
  moreover have "fill_map_list fl (JArr (map (\<lambda>ms. JObj (parsed ms)) ?mss)) None =
      (Some (map (\<lambda>c. Some (shown_credential tt c)) creds), True)"
    using c fill_summary [OF fl] by (auto simp: fill_map_list_def list_all_iff)
  ultimately show ?thesis
    using Decode_into_deep [OF deep_objects [OF d], of "fill_map_list fl" None]
    by (simp add: maxNestingDepth_def)
qed

section \<open>Requests\<close>

text \<open>The bodies, with the keys in the order in which a map is written.\<close>

lemma Marshal_map_strings: "Marshal_map kvs = Marshal_object (encoded (string_members (put_all kvs [])))"
  by (auto simp: Marshal_map_def string_members_def encoded_def intro!: arg_cong [where f = Marshal_object])

lemma Decoder_Decode_map:
  assumes "put_all kvs [] \<noteq> []"
  shows "Decoder_Decode fds zero (Marshal_map kvs) =
    set_members fds (map (\<lambda>(k, x). (quote (bytes_of_string k), JStr (quote (bytes_of_string x)))) (put_all kvs [])) zero"
  using Decoder_Decode_object [OF string_members_scan, of "put_all kvs []" fds zero] assms
  by (simp add: Marshal_map_strings string_members_def parsed_def comp_def case_prod_unfold)

lemmas body_eval = Decoder_Decode_map put_all_def wire_names set_members_field set_string_quote ascii_eval

lemma begin_fields_body: "Marshal_map (begin_fields u) = begin_body u"
  by (simp add: begin_fields_def begin_body_def Marshal_map_strings put_all_def)

lemma decode_register_fields:
  "Decoder_Decode registerFinish_fields zeroRegisterFinish (Marshal_map (register_fields u reg)) =
     Some \<lparr>rf_Username = coerceString u, rf_RawID = b64 (rres_CredentialID reg),
       rf_ClientDataJSON = b64 (rres_ClientDataJSON reg), rf_AttestationObject = b64 (rres_AttestationObject reg),
       rf_Nickname = [], rf_UV = []\<rparr>"
  "Decoder_Decode registerFinish_fields zeroRegisterFinish (Marshal_map (register_fields u reg @ [(''nickname'', nick)])) =
     Some \<lparr>rf_Username = coerceString u, rf_RawID = b64 (rres_CredentialID reg),
       rf_ClientDataJSON = b64 (rres_ClientDataJSON reg), rf_AttestationObject = b64 (rres_AttestationObject reg),
       rf_Nickname = coerceString nick, rf_UV = []\<rparr>"
  by (simp_all add: body_eval register_fields_def registerFinish_fields_def zeroRegisterFinish_def del: set_members.simps(2))

lemma decode_login_fields:
  "Decoder_Decode loginFinish_fields zeroLoginFinish (Marshal_map (login_fields u res)) =
     Some \<lparr>lf_Username = coerceString u, lf_FlowID = [], lf_RawID = b64 (ares_CredentialID res),
       lf_ClientDataJSON = b64 (ares_ClientDataJSON res), lf_AuthenticatorData = b64 (ares_AuthenticatorData res),
       lf_Signature = b64 (ares_Signature res), lf_UV = []\<rparr>"
  "Decoder_Decode loginFinish_fields zeroLoginFinish (Marshal_map (login_fields u res @ [(''uv'', uv)])) =
     Some \<lparr>lf_Username = coerceString u, lf_FlowID = [], lf_RawID = b64 (ares_CredentialID res),
       lf_ClientDataJSON = b64 (ares_ClientDataJSON res), lf_AuthenticatorData = b64 (ares_AuthenticatorData res),
       lf_Signature = b64 (ares_Signature res), lf_UV = coerceString uv\<rparr>"
  by (simp_all add: body_eval login_fields_def loginFinish_fields_def zeroLoginFinish_def del: set_members.simps(2))

end
