(* ===== verification/Demodata_Run.thy ===== *)
theory Demodata_Run
  imports Demodata_Correct
begin

text \<open>
  The client of \<open>tools/demodata\<close> against a server that was set up for it: each of its requests
  is answered as it expects, step by step, with what the server's store holds afterwards.
\<close>

section \<open>A server that the client can drive\<close>

abbreviation clock_of :: "tool_io \<Rightarrow> nat \<Rightarrow> time" where
  "clock_of io n \<equiv> wallClock (env_io (io_env io n))"

abbreviation clock_of' :: "tool_io \<Rightarrow> nat \<Rightarrow> time" where
  "clock_of' io n \<equiv> wallClock (env_io' (io_env io n))"

text \<open>The server answers for \<open>http://localhost:8080\<close>, and its sessions follow its clock.\<close>

definition server_fits :: "Server \<Rightarrow> bool" where
  "server_fits s \<longleftrightarrow> server_wf s \<and> server_ok (srv_Registrar s) (srv_Authenticator s) base \<and>
     reg_RPID (srv_Registrar s) = rp_id \<and> signer_now (srv_Sessions s) = (\<lambda>t. t)"

text \<open>Every request arrives, nothing fails, and the whole run takes no longer than a challenge lives.\<close>

definition network_fits :: "crypto \<Rightarrow> time_text \<Rightarrow> Server \<Rightarrow> tool_io \<Rightarrow> bool" where
  "network_fits cr tt s io \<longleftrightarrow> float_ok (io_float io) \<and> time_text_ok tt \<and>
     (\<forall>n. io_link io n = Delivered \<and> env_works (io_env io n) \<and> env_crypto (io_env io n) = cr \<and>
        env_text (io_env io n) = tt \<and> env_rand (io_env io n) ChallengeLength \<noteq> None \<and>
        env_rand_id (io_env io n) 16 \<noteq> None \<and> json_time_ok (clock_of io n) \<and> json_time_ok (clock_of' io n) \<and>
        json_time_ok (clock_of' io n + signer_ttl (srv_Sessions s))) \<and>
     (\<forall>m n. clock_of io m - clock_of io n \<le> ChallengeTTL \<and> clock_of io m - clock_of' io n \<le> signer_ttl (srv_Sessions s))"

text \<open>The key generators and signers work, and what they make is not unusually long.\<close>

definition keys_fit :: "crypto \<Rightarrow> tool_io \<Rightarrow> bool" where
  "keys_fit cr io \<longleftrightarrow>
     (\<forall>n. key_source_ok (io_keys io n) \<and> certificates_correct cr (io_keys io n) (io_signing io) \<and>
        (\<forall>alg \<in> {AlgES256, AlgRS256, AlgEdDSA}. \<exists>v. New (io_keys io n) alg [] = Inr v) \<and>
        (\<forall>alg v. New (io_keys io n) alg [] = Inr v \<longrightarrow> signing_correct cr (io_signing io) v)) \<and>
     (\<forall>k d s. ecdsa_SignASN1 (io_signing io) k d = Some s \<longrightarrow> length s \<le> 10000) \<and>
     (\<forall>k d. ecdsa_SignASN1 (io_signing io) k d \<noteq> None) \<and>
     (\<forall>k. \<exists>der. x509_SelfSigned (io_signing io) k = Some der \<and> length der \<le> 100000)"

definition tool_ok :: "crypto \<Rightarrow> time_text \<Rightarrow> Server \<Rightarrow> tool_io \<Rightarrow> bool" where
  "tool_ok cr tt s io \<longleftrightarrow> server_fits s \<and> network_fits cr tt s io \<and> keys_fit cr io"

lemma tool_okD:
  assumes "tool_ok cr tt s io"
  shows "server_wf s" "server_ok (srv_Registrar s) (srv_Authenticator s) base" "reg_RPID (srv_Registrar s) = rp_id"
    "auth_RPID (srv_Authenticator s) = rp_id" "signer_now (srv_Sessions s) = (\<lambda>t. t)"
    "reg_Store (srv_Registrar s) = srv_Store s" "auth_Store (srv_Authenticator s) = srv_Store s"
    "float_ok (io_float io)" "time_text_ok tt" "io_link io n = Delivered" "env_works (io_env io n)"
    "env_crypto (io_env io n) = cr" "env_text (io_env io n) = tt"
    "\<exists>c. env_rand (io_env io n) ChallengeLength = Some c" "\<exists>c. env_rand_id (io_env io n) 16 = Some c"
    "json_time_ok (clock_of io n)" "json_time_ok (clock_of' io n)" "json_time_ok (clock_of' io n + signer_ttl (srv_Sessions s))"
    "clock_of io m - clock_of io n \<le> ChallengeTTL" "clock_of io m - clock_of' io n \<le> signer_ttl (srv_Sessions s)"
  using assms by (auto simp: tool_ok_def server_fits_def network_fits_def server_wf_def server_ok_def)

text \<open>The state of the server between two requests.\<close>

definition world_ok :: "Server \<Rightarrow> tool_io \<Rightarrow> world \<Rightarrow> bool" where
  "world_ok s io w \<longleftrightarrow> sound s w \<and> (\<forall>n. env_ok s w (io_env io n)) \<and>
     now (challenges w) = (\<lambda>t. t) \<and> ttl (challenges w) = ChallengeTTL"

definition awaits :: "tool_io \<Rightarrow> world \<Rightarrow> string \<Rightarrow> Purpose \<Rightarrow> bytes \<Rightarrow> bool" where
  "awaits io w u p c \<longleftrightarrow> (\<forall>n. redeemable (u, p) c (clock_of io n) (challenges w))"

definition served_to :: "world \<Rightarrow> tool \<Rightarrow> tool" where
  "served_to w t = t\<lparr>t_requests := t_requests t + 1, t_world := w\<rparr>"

lemma served_to_simps [simp]:
  "t_world (served_to w t) = w" "t_requests (served_to w t) = t_requests t + 1" "t_keys (served_to w t) = t_keys t"
  "t_buf (served_to w t) = t_buf t" "t_files (served_to w t) = t_files t" "t_stdout (served_to w t) = t_stdout t"
  by (simp_all add: served_to_def)

lemma send_served:
  assumes "tool_ok cr tt s io" and "Routes s (io_env io (t_requests t)) r (t_world t) = ((resp, log), w)"
  shows "send s io r t = (Some resp, served_to w t)"
  using assms(2) tool_okD(10) [OF assms(1)] by (simp add: send_def served_to_def Let_def)

lemma post_served:
  assumes "tool_ok cr tt s io"
    and "Routes s (io_env io (t_requests t)) (post_request path (Marshal_map body)) (t_world t) = ((resp, log), w)"
  shows "post None out s io path body t = ((resp_Status resp, False, out), served_to w t)"
    and "Decode_into f (resp_Body resp) out = (x, True) \<Longrightarrow>
      post (Some f) out s io path body t = ((resp_Status resp, False, x), served_to w t)"
  using send_served [OF assms(1,2) [unfolded post_request_def]] by (simp_all add: post_def)

text \<open>A challenge that was just issued can be redeemed during the whole run.\<close>

lemma issued_awaits:
  assumes ok: "tool_ok cr tt s io" and w: "world_ok s io w"
    and w': "w' = w\<lparr>challenges := issued_state (u, p) c (clock_of io n) (challenges w)\<rparr>"
  shows "world_ok s io w'" and "awaits io w' u p c" and "view s w' = view s w"
proof -
  have "redeemable (u, p) c (clock_of io m) (issued_state (u, p) c (clock_of io n) (challenges w))" for m
    using w tool_okD(19) [OF ok] by (intro ch.fresh_use) (simp add: world_ok_def)
  then show "awaits io w' u p c" by (simp add: awaits_def w')
  show "world_ok s io w'" using w by (simp add: world_ok_def w' env_ok_def ch.issue_config)
qed (simp add: w')

section \<open>The requests of the client\<close>

lemma registerBegin_served:
  assumes ok: "tool_ok cr tt s io" and w: "world_ok s io (t_world t)" and u: "u \<noteq> []" "coerceString u = u"
  shows "\<exists>c uid w'. post_registerBegin s io u t = ((200, False, options_of s u uid c), served_to w' t) \<and>
    world_ok s io w' \<and> view s w' = view s (t_world t) \<and> awaits io w' u PurposeRegister c"
proof -
  let ?e = "io_env io (t_requests t)"
  obtain c uid where r: "env_rand ?e ChallengeLength = Some c" "env_rand_id ?e 16 = Some uid"
    using tool_okD(14,15) [OF ok] by blast
  let ?w = "(t_world t)\<lparr>challenges := issued_state (u, PurposeRegister) c (wallClock (env_io ?e)) (challenges (t_world t))\<rparr>"
  have d: "Decode_into (fill_creationOptions (io_float io)) (resp_Body (writeJSON StatusOK (Some (creationOptions s u uid c))))
      zero_creationOptions = (options_of s u uid c, True)"
    using decode_creationOptions by (simp add: writeJSON_def)
  have "post_registerBegin s io u t = ((200, False, options_of s u uid c), served_to ?w t)"
    unfolding post_registerBegin_def
    by (subst post_served(2) [OF ok _ d]) (use register_begin_step [OF u r] in
        \<open>simp add: begin_fields_body, simp add: writeJSON_def StatusOK_def\<close>)
  then show ?thesis using issued_awaits [OF ok w refl] by blast
qed

lemma loginBegin_served:
  assumes ok: "tool_ok cr tt s io" and w: "world_ok s io (t_world t)" and u: "u \<noteq> []" "coerceString u = u"
  shows "\<exists>c w'. post_loginBegin s io u t = ((200, False, \<lparr>ro_Challenge = b64 c, ro_FlowID = []\<rparr>), served_to w' t) \<and>
    world_ok s io w' \<and> view s w' = view s (t_world t) \<and> awaits io w' u PurposeLogin c"
proof -
  let ?e = "io_env io (t_requests t)"
  obtain c where r: "env_rand ?e ChallengeLength = Some c" using tool_okD(14) [OF ok] by blast
  obtain creds where f: "FindByUsername (env_io ?e) (srv_Store s) u (disk (t_world t)) = Inr creds"
    using find_by_username_works [of s "t_world t" "env_io ?e" u] w tool_okD(11) [OF ok, of "t_requests t"]
    by (auto simp: world_ok_def env_works_def)
  let ?w = "(t_world t)\<lparr>challenges := issued_state (u, PurposeLogin) c (wallClock (env_io ?e)) (challenges (t_world t))\<rparr>"
  have d: "Decode_into fill_requestOptions (resp_Body (writeJSON StatusOK (Some (requestOptions s c creds []))))
      zero_requestOptions = (\<lparr>ro_Challenge = b64 c, ro_FlowID = []\<rparr>, True)"
    using decode_requestOptions by (simp add: writeJSON_def)
  have "post_loginBegin s io u t = ((200, False, \<lparr>ro_Challenge = b64 c, ro_FlowID = []\<rparr>), served_to ?w t)"
    unfolding post_loginBegin_def
    by (subst post_served(2) [OF ok _ d]) (use login_begin_step [OF u r f] in
        \<open>simp add: begin_fields_body, simp add: writeJSON_def StatusOK_def\<close>)
  then show ?thesis using issued_awaits [OF ok w refl] by blast
qed

lemma registerFinish_served:
  assumes ok: "tool_ok cr tt s io" and w: "world_ok s io (t_world t)"
    and body: "Decoder_Decode registerFinish_fields zeroRegisterFinish (Marshal_map body) = Some req" "decodeRegisterFinish req = Some q"
    and reg: "registers cr (env_io (io_env io (t_requests t))) (srv_Registrar s) q c (t_world t) cred"
  shows "\<exists>w'. post_registerFinish s io body t = ((204, False, ()), served_to w' t) \<and> world_ok s io w' \<and>
    view s w' = (view s (t_world t))(cred_ID cred \<mapsto> cred)"
proof -
  let ?e = "io_env io (t_requests t)" and ?w = "t_world t"
  note st = tool_okD(6) [OF ok] and cr = tool_okD(12) [OF ok]
  obtain w' where w': "Register cr (env_io ?e) (srv_Registrar s) q ?w = (Inr (), w')"
      "\<forall>io2. io_ok (srv_Store s) (disk ?w) io2 \<longrightarrow> io_ok (srv_Store s) (disk w') io2"
      "challenges w' = consumed_state (rr_Username q, PurposeRegister) c (wallClock (env_io ?e)) (challenges ?w)"
      "sound s w'" "view s w' = (view s ?w)(cred_ID cred \<mapsto> cred)"
    using reg unfolding registers_def st by blast
  have "handleRegisterFinish s ?e (post_request [''register'', ''finish''] (Marshal_map body)) ?w = (Inr noContent, w')"
    using w'(1) body by (simp add: handleRegisterFinish_def result_simps cr)
  then have "Routes s ?e (post_request [''register'', ''finish''] (Marshal_map body)) ?w = ((noContent, []), w')"
    by (simp add: Routes_routed [OF routed_posts(2)] handle_def answer_def)
  from post_served(1) [OF ok this, of "()"] have "post_registerFinish s io body t = ((204, False, ()), served_to w' t)"
    by (simp add: post_registerFinish_def noContent_def StatusNoContent_def)
  moreover have "world_ok s io w'" using w w' by (auto simp: world_ok_def env_ok_def consumed_state_def)
  ultimately show ?thesis using w'(5) by blast
qed

lemma register_fields_request:
  assumes "coerceString u = u" and "coerceString nick = nick"
    and "body = register_fields u reg \<and> nick = [] \<or> body = register_fields u reg @ [(''nickname'', nick)]"
  shows "\<exists>req. Decoder_Decode registerFinish_fields zeroRegisterFinish (Marshal_map body) = Some req \<and>
    decodeRegisterFinish req = Some (registration_request u [] nick reg)"
  using assms by (auto simp: decode_register_fields decodeRegisterFinish_def registration_request_def b64_def)

text \<open>A login under a credential that is stored for the authenticator.\<close>

definition token_of :: "time_text \<Rightarrow> Server \<Rightarrow> tool_io \<Rightarrow> string \<Rightarrow> string \<Rightarrow> bool" where
  "token_of tt s io u token \<longleftrightarrow> (\<exists>n. session_Issue tt (srv_Sessions s) u True (clock_of' io n) = Inr token)"

lemma loginFinish_served:
  assumes ok: "tool_ok cr tt s io" and w: "world_ok s io (t_world t)" and u: "u \<noteq> []" "coerceString u = u"
    and c: "awaits io (t_world t) u PurposeLogin c"
    and v: "v_good v" "signing_correct cr (io_signing io) v" "v_zeroCounter v \<longrightarrow> v_signCount v = 0"
    and cred: "view s (t_world t) credID = Some cred" "cred_PublicKey cred = encode_value (cose_value v)"
      "cred_Algorithm cred = v_Alg v" "cred_SignCount cred = v_signCount v" "cred_Username cred = u"
    and body: "\<And>res. Decoder_Decode loginFinish_fields zeroLoginFinish (Marshal_map (body res)) =
      Some \<lparr>lf_Username = u, lf_FlowID = [], lf_RawID = b64 (ares_CredentialID res),
        lf_ClientDataJSON = b64 (ares_ClientDataJSON res), lf_AuthenticatorData = b64 (ares_AuthenticatorData res),
        lf_Signature = b64 (ares_Signature res), lf_UV = uv\<rparr>"
  shows "\<exists>res token w'. v_Authenticate (io_signing io) rp_id base c credID v = (Inr res, v_next v) \<and>
    post_loginFinish s io (body res) t = ((200, False, Some (shown_login token
      \<lparr>result_Username = u, result_UVPerformed = True\<rparr>)), served_to w' t) \<and>
    world_ok s io w' \<and> token_of tt s io u token \<and>
    view s w' = (view s (t_world t))(credID \<mapsto> cred\<lparr>cred_SignCount := v_signCount (v_next v)\<rparr>)"
proof -
  let ?e = "io_env io (t_requests t)" and ?w = "t_world t"
  note st = tool_okD(7) [OF ok] and cr = tool_okD(12) [OF ok] and tt = tool_okD(13) [OF ok]
  have "ready_to_login (srv_Authenticator s) (env_io ?e) (env_io' ?e) u c credID v cred ?w"
    using w c cred counter_v_next [OF v(3)] tool_okD(11) [OF ok, of "t_requests t"]
    by (simp add: ready_to_login_def st world_ok_def awaits_def env_ok_def env_works_def)
  from assertion_runs [OF tool_okD(2) [OF ok] v(1,2) this, of uv] obtain res w' where
      res: "v_Authenticate (io_signing io) rp_id base c credID v = (Inr res, v_next v)"
    and login: "Login cr (env_io ?e) (env_io' ?e) (srv_Authenticator s) (assertion_request u uv res) ?w =
        (Inr \<lparr>result_Username = u, result_UVPerformed = True\<rparr>, w')"
    and w': "\<forall>io2. io_ok (srv_Store s) (disk ?w) io2 \<longrightarrow> io_ok (srv_Store s) (disk w') io2"
      "challenges w' = consumed_state (u, PurposeLogin) c (wallClock (env_io ?e)) (challenges ?w)" "sound s w'"
      "view s w' = (view s ?w)(credID \<mapsto> cred\<lparr>cred_SignCount := v_signCount (v_next v)\<rparr>)"
    unfolding st tool_okD(4) [OF ok] cred(5) by blast
  obtain token where token: "session_Issue tt (srv_Sessions s) u True (clock_of' io (t_requests t)) = Inr token"
    using tool_okD(5,17,18) [OF ok] by (auto simp: session_Issue_def Marshal_Claims_def Let_def)
  let ?resp = "writeJSON StatusOK (Some (loginFinishResponse token \<lparr>result_Username = u, result_UVPerformed = True\<rparr>))"
  have "handleLoginFinish s ?e (post_request [''login'', ''finish''] (Marshal_map (body res))) ?w = (Inr ?resp, w')"
    using login body [of res] u token by (simp add: handleLoginFinish_def result_simps decodeLoginFinish_def
        assertion_request_def Let_def b64_def cr tt)
  then have run: "Routes s ?e (post_request [''login'', ''finish''] (Marshal_map (body res))) ?w = ((?resp, []), w')"
    by (simp add: Routes_routed [OF routed_posts(4)] handle_def answer_def)
  have d: "Decode_into (fill_any_map (io_float io)) (resp_Body ?resp) None =
      (Some (shown_login token \<lparr>result_Username = u, result_UVPerformed = True\<rparr>), True)"
    using decode_loginFinish by (simp add: writeJSON_def)
  have "post_loginFinish s io (body res) t = ((200, False, Some (shown_login token
      \<lparr>result_Username = u, result_UVPerformed = True\<rparr>)), served_to w' t)"
    using post_served(2) [OF ok run d] by (simp add: post_loginFinish_def writeJSON_def StatusOK_def)
  moreover have "world_ok s io w'" using w w' by (auto simp: world_ok_def env_ok_def consumed_state_def)
  ultimately show ?thesis using res w'(4) token by (auto simp: token_of_def)
qed

section \<open>Listing and revoking\<close>

text \<open>A token is text of the base64url alphabet and a dot.\<close>

lemma encoded_letters: "set (RawURLEncoding_EncodeToString b) \<subseteq> set url_alphabet"
  using sextets_less [of b] by (auto simp: RawURLEncoding_EncodeToString_def list_all_iff)

lemma token_letters:
  assumes "session_Issue tt s u uv clock = Inr token"
  shows "set token \<subseteq> insert (CHR ''.'') (set url_alphabet)" and "token \<noteq> []"
  using session_Issue_token [OF assms] encoded_letters by (auto simp: issued_claims_def) blast+

lemma letters_plain:
  assumes "c \<in> insert (CHR ''.'') (set url_alphabet)"
  shows "byte_of_char c < 0x80" and "header_byte (byte_of_char c)" and "\<not> header_space c"
proof -
  have "list_all (\<lambda>c. byte_of_char c < 0x80 \<and> header_byte (byte_of_char c) \<and> \<not> header_space c) (CHR ''.'' # url_alphabet)"
    by (simp add: url_alphabet_def b64_common_def byte_of_char_def header_byte_def header_space_def)
  then show "byte_of_char c < 0x80" and "header_byte (byte_of_char c)" and "\<not> header_space c"
    using assms by (auto simp: list_all_iff)
qed

lemma bearer_header:
  assumes "set token \<subseteq> insert (CHR ''.'') (set url_alphabet)" and "token \<noteq> []"
  shows "list_all header_byte (bytes_of_string (bearer @ token))" and "trim_header (bearer @ token) = bearer @ token"
    and "coerceString token = token"
proof -
  show "list_all header_byte (bytes_of_string (bearer @ token))"
    using letters_plain(2) assms(1)
    by (auto simp: list_all_iff bytes_of_string_def bearer_def byte_of_char_def header_byte_def)
  obtain init c where t: "token = init @ [c]" using assms(2) by (cases token rule: rev_cases) auto
  then have "\<not> header_space c" using letters_plain(3) assms(1) by auto
  then show "trim_header (bearer @ token) = bearer @ token"
    by (simp add: trim_header_def t bearer_def header_space_def [of "CHR ''B''"])
  show "coerceString token = token" using letters_plain(1) assms(1) by (intro coerceString_ascii) auto
qed

lemma do_request_served:
  assumes ok: "tool_ok cr tt s io" and token: "token_of tt s io u token" and u: "coerceString u = u"
    and run: "Routes s (io_env io (t_requests t)) \<lparr>http_Method = method, http_Path = path,
      http_Authorization = bearer @ token, http_Body = []\<rparr> (t_world t) = ((resp, log), w)"
  shows "do_request s io method path token t = (Some resp, served_to w t)"
proof -
  obtain n where i: "session_Issue tt (srv_Sessions s) u True (clock_of' io n) = Inr token"
    using token by (auto simp: token_of_def)
  show ?thesis
    using bearer_header [OF token_letters [OF i]] send_served [OF ok run] by (simp add: do_request_def)
qed

lemma bearer_accepted:
  assumes ok: "tool_ok cr tt s io" and token: "token_of tt s io u token" and u: "coerceString u = u"
  shows "\<exists>claims. authenticate s (io_env io m) \<lparr>http_Method = method, http_Path = path,
      http_Authorization = bearer @ token, http_Body = []\<rparr> = Inr claims \<and> claims_Username claims = u"
proof -
  obtain n where i: "session_Issue tt (srv_Sessions s) u True (clock_of' io n) = Inr token"
    using token by (auto simp: token_of_def)
  have "Verify tt (srv_Sessions s) token (clock_of io m) = Inr (issued_claims (srv_Sessions s) u True (clock_of' io n))"
    using Verify_Issue [OF tool_okD(9) [OF ok] i, of "clock_of io m"] tool_okD(5) [OF ok] tool_okD(20) [OF ok, of m n] u
    by simp
  then show ?thesis by (simp add: authenticate_def tool_okD(13) [OF ok] issued_claims_def)
qed

lemma list_served:
  assumes ok: "tool_ok cr tt s io" and w: "world_ok s io (t_world t)" and u: "coerceString u = u"
    and token: "token_of tt s io u token"
    and c: "\<And>c. view s (t_world t) (cred_ID c) = Some c \<Longrightarrow> cred_Username c = u \<Longrightarrow>
      json_time_ok (cred_CreatedAt c) \<and> \<bar>cred_Algorithm c\<bar> < 2 ^ 53"
  shows "\<exists>creds. list_credentials s io token t =
      (Some (Some (map (\<lambda>c. Some (shown_credential tt c)) creds)), served_to (t_world t) t) \<and>
    distinct creds \<and> set creds = {c. view s (t_world t) (cred_ID c) = Some c \<and> cred_Username c = u}"
proof -
  let ?e = "io_env io (t_requests t)" and ?w = "t_world t"
  let ?r = "\<lparr>http_Method = ''GET'', http_Path = [''credentials''], http_Authorization = bearer @ token, http_Body = []\<rparr>"
  obtain claims where auth: "authenticate s ?e ?r = Inr claims" "claims_Username claims = u"
    using bearer_accepted [OF ok token u] by blast
  obtain creds where f: "FindByUsername (env_io ?e) (srv_Store s) u (disk ?w) = Inr creds"
    using find_by_username_works [of s ?w "env_io ?e" u] w tool_okD(11) [OF ok, of "t_requests t"]
    by (auto simp: world_ok_def env_works_def)
  have set: "distinct creds \<and> set creds = {c. view s ?w (cred_ID c) = Some c \<and> cred_Username c = u}"
    using FindByUsername_view [OF _ _ f] w by (auto simp: world_ok_def env_ok_def)
  obtain b where b: "credentialSummaries tt creds = Some b"
      "Decode_into (fill_map_list (io_float io)) (b @ [0x0a]) None = (Some (map (\<lambda>c. Some (shown_credential tt c)) creds), True)"
    using decode_list [OF tool_okD(8) [OF ok], of creds tt] set c tool_okD(9) [OF ok] by (auto simp: time_text_ok_def)
  have "Routes s ?e ?r ?w = ((writeJSON StatusOK (Some b), []), ?w)"
    using auth f b(1) tool_okD(13) [OF ok]
    by (simp add: Routes_def route_of_def handle_def answer_def handleListCredentials_def onS_def bindS_def liftS_def
        readS_def returnS_def)
  from do_request_served [OF ok token u this] show ?thesis
    using set b(2) by (intro exI [of _ creds]) (simp add: list_credentials_def writeJSON_def)
qed

lemma delete_served:
  assumes ok: "tool_ok cr tt s io" and w: "world_ok s io (t_world t)" and u: "coerceString u = u"
    and token: "token_of tt s io u token" and cred: "view s (t_world t) i = Some cred" "cred_Username cred = u"
    and i: "i \<noteq> []"
  shows "credential_path io (b64 i) = Some [''credentials'', b64 i]"
    and "\<exists>w'. do_request s io ''DELETE'' [''credentials'', b64 i] token t = (Some noContent, served_to w' t) \<and>
      world_ok s io w' \<and> view s w' = (view s (t_world t))(i := None)"
proof -
  let ?e = "io_env io (t_requests t)" and ?w = "t_world t"
  let ?r = "\<lparr>http_Method = ''DELETE'', http_Path = [''credentials'', b64 i], http_Authorization = bearer @ token, http_Body = []\<rparr>"
  show "credential_path io (b64 i) = Some [''credentials'', b64 i]"
    using encoded_letters by (simp add: credential_path_def b64_def)
  have ne: "b64 i \<noteq> []" using i by (cases i rule: sextets.cases) (simp_all add: b64_def RawURLEncoding_EncodeToString_def)
  obtain claims where auth: "authenticate s ?e ?r = Inr claims" "claims_Username claims = u"
    using bearer_accepted [OF ok token u] by blast
  have w': "sound s ?w" "env_ok s ?w ?e" "no_failures (env_io ?e)" "no_failures (env_io' ?e)"
    using w tool_okD(11) [OF ok, of "t_requests t"] by (auto simp: world_ok_def env_works_def)
  have find: "FindByID (env_io ?e) (srv_Store s) i (disk ?w) = Inr (Some cred)"
    using find_works [of "srv_Store s" "disk ?w" "env_io ?e" i] w' cred(1) by (simp add: env_ok_def)
  obtain d where d: "run_op (env_io' ?e) (srv_Store s) (OpDelete i) (disk ?w) = (Inr (), d)"
    using delete_works [of "srv_Store s" "disk ?w" "env_io' ?e" i] w' cred(1) by (auto simp: env_ok_def)
  have "Routes s ?e ?r ?w = ((noContent, []), ?w\<lparr>disk := d\<rparr>)"
    using auth find d ne cred(2)
    by (simp add: Routes_def route_of_def handle_def answer_def handleDeleteCredential_def onS_def bindS_def liftS_def
        readS_def returnS_def Let_def b64_def)
  from do_request_served [OF ok token u this]
  have "do_request s io ''DELETE'' [''credentials'', b64 i] token t = (Some noContent, served_to (?w\<lparr>disk := d\<rparr>) t)" .
  moreover have "world_ok s io (?w\<lparr>disk := d\<rparr>)"
    using st.exec_ok [OF w'(1) _ d] io_ok_kept [OF _ d] w w'(2) by (auto simp: world_ok_def env_ok_def)
  moreover have "view s (?w\<lparr>disk := d\<rparr>) = (view s ?w)(i := None)"
    using st.exec_success [OF w'(1) _ d] w'(2) by (auto simp: env_ok_def)
  ultimately show "\<exists>w'. do_request s io ''DELETE'' [''credentials'', b64 i] token t = (Some noContent, served_to w' t) \<and>
      world_ok s io w' \<and> view s w' = (view s (t_world t))(i := None)" by blast
qed

end
