(* ===== verification/Demodata_Steps.thy ===== *)
theory Demodata_Steps
  imports Demodata_Run
begin

text \<open>
  What a request of \<open>tools/demodata\<close> leads to, as a rewrite rule that applies at every point of
  the client's run where the server is in the state in which the request finds it.
\<close>

section \<open>Running the client\<close>

definition wrote :: "bytes \<Rightarrow> tool \<Rightarrow> tool" where
  "wrote b t = t\<lparr>t_buf := t_buf t @ b\<rparr>"

definition next_key :: "tool \<Rightarrow> tool" where
  "next_key t = t\<lparr>t_keys := t_keys t + 1\<rparr>"

lemma tool_simps [simp]:
  "t_world (wrote b t) = t_world t" "t_requests (wrote b t) = t_requests t" "t_keys (wrote b t) = t_keys t"
  "t_buf (wrote b t) = t_buf t @ b" "t_files (wrote b t) = t_files t" "t_stdout (wrote b t) = t_stdout t"
  "t_world (next_key t) = t_world t" "t_requests (next_key t) = t_requests t" "t_keys (next_key t) = t_keys t + 1"
  "t_buf (next_key t) = t_buf t" "t_files (next_key t) = t_files t" "t_stdout (next_key t) = t_stdout t"
  by (simp_all add: wrote_def next_key_def)

definition text_line :: "string \<Rightarrow> bytes" where
  "text_line x = bytes_of_string x @ [0x0a]"

definition text_block :: "any \<Rightarrow> bytes" where
  "text_block v = MarshalIndent_any v @ [0x0a]"

lemma run_steps:
  "w_line x t = (Inr (), wrote (text_line x) t)"
  "w_cmd x t = (Inr (), wrote (text_line (''$ '' @ x)) t)"
  "w_jsonBlock v t = (Inr (), wrote (text_block v) t)"
  "bindS (w_line x) f t = f () (wrote (text_line x) t)"
  "bindS (w_cmd x) f t = f () (wrote (text_line (''$ '' @ x)) t)"
  "bindS (w_jsonBlock v) f t = f () (wrote (text_block v) t)"
  "bindS (callS g) k t = (case g t of (y, t') \<Rightarrow> k y t')"
  "bindS (liftS (Inr z)) k t = k z t"
  "bindS (unb64 (b64 c)) l t = l c t"
  "New (io_keys io (t_keys t)) alg [] = Inr auth \<Longrightarrow> bindS (newAuthenticator io alg) m t = m auth (next_key t)"
  by (simp_all add: w_line_def w_cmd_def w_jsonBlock_def w_write_def text_line_def text_block_def wrote_def bindS_def
      callS_def liftS_def unb64_def b64_def newAuthenticator_def next_key_def split: prod.split)

lemma served_to_inject [simp]: "served_to w t = served_to w' t \<longleftrightarrow> w = w'"
  by (metis served_to_simps(1))

text \<open>What a request leads to depends on the server and the number of the request alone.\<close>

lemma post_anywhere:
  assumes "tool_ok cr tt s io" and "post fill out s io path body t = (x, served_to w t)"
    and "t_world t2 = t_world t" and "t_requests t2 = t_requests t"
  shows "post fill out s io path body t2 = (x, served_to w t2)"
proof -
  obtain resp log w' where r: "Routes s (io_env io (t_requests t)) \<lparr>http_Method = ''POST'', http_Path = path,
      http_Authorization = [], http_Body = Marshal_map body\<rparr> (t_world t) = ((resp, log), w')"
    by (metis prod.exhaust)
  have "send s io \<lparr>http_Method = ''POST'', http_Path = path, http_Authorization = [], http_Body = Marshal_map body\<rparr> t' =
      (Some resp, served_to w' t')" if "t_world t' = t_world t" "t_requests t' = t_requests t" for t'
    using send_served [OF assms(1), of t'] r that by simp
  then show ?thesis
    using assms(2-4) by (auto simp: post_def split: option.splits prod.splits)
qed

lemma keys_fitD:
  assumes "tool_ok cr tt s io"
  shows "ecdsa_SignASN1 (io_signing io) k d = Some x \<Longrightarrow> length x \<le> 10000"
    and "ecdsa_SignASN1 (io_signing io) k d \<noteq> None"
    and "\<exists>der. x509_SelfSigned (io_signing io) k = Some der \<and> length der \<le> 100000"
  using assms unfolding tool_ok_def keys_fit_def by blast+

lemma New_works:
  assumes "tool_ok cr tt s io" and "alg \<in> {AlgES256, AlgRS256, AlgEdDSA}"
  shows "\<exists>v. New (io_keys io n) alg [] = Inr v \<and> v_good v \<and> v_Alg v = alg \<and> signing_correct cr (io_signing io) v \<and>
    \<not> v_zeroCounter v \<and> v_signCount v = 1"
proof -
  obtain v where v: "New (io_keys io n) alg [] = Inr v" using assms unfolding tool_ok_def keys_fit_def by blast
  then show ?thesis
    using assms(1) New_good [of "io_keys io n" "[]" alg v] by (auto simp: tool_ok_def keys_fit_def)
qed

text \<open>A begin and a finish of a registration, as the client sees them at any point of its run.\<close>

lemma register_pair:
  assumes ok: "tool_ok cr tt s io" and w: "world_ok s io w" and u: "u \<noteq> []" "coerceString u = u"
  shows "\<exists>c uid w1. (\<forall>t. t_world t = w \<longrightarrow> t_requests t = n \<longrightarrow>
      post_registerBegin s io u t = ((200, False, options_of s u uid c), served_to w1 t)) \<and>
    world_ok s io w1 \<and> view s w1 = view s w \<and> awaits io w1 u PurposeRegister c"
proof -
  define t where "t = \<lparr>t_world = w, t_requests = n, t_keys = 0, t_buf = [], t_files = [], t_stdout = []\<rparr>"
  obtain c uid w1 where r: "post_registerBegin s io u t = ((200, False, options_of s u uid c), served_to w1 t)"
      "world_ok s io w1" "view s w1 = view s w" "awaits io w1 u PurposeRegister c"
    using registerBegin_served [OF ok _ u, of t] w by (auto simp: t_def)
  then show ?thesis
    using post_anywhere [OF ok r(1) [unfolded post_registerBegin_def]]
    by (intro exI [of _ c] exI [of _ uid] exI [of _ w1]) (simp add: post_registerBegin_def t_def)
qed

lemma login_pair:
  assumes ok: "tool_ok cr tt s io" and w: "world_ok s io w" and u: "u \<noteq> []" "coerceString u = u"
  shows "\<exists>c w1. (\<forall>t. t_world t = w \<longrightarrow> t_requests t = n \<longrightarrow>
      post_loginBegin s io u t = ((200, False, \<lparr>ro_Challenge = b64 c, ro_FlowID = []\<rparr>), served_to w1 t)) \<and>
    world_ok s io w1 \<and> view s w1 = view s w \<and> awaits io w1 u PurposeLogin c"
proof -
  define t where "t = \<lparr>t_world = w, t_requests = n, t_keys = 0, t_buf = [], t_files = [], t_stdout = []\<rparr>"
  obtain c w1 where r: "post_loginBegin s io u t = ((200, False, \<lparr>ro_Challenge = b64 c, ro_FlowID = []\<rparr>), served_to w1 t)"
      "world_ok s io w1" "view s w1 = view s w" "awaits io w1 u PurposeLogin c"
    using loginBegin_served [OF ok _ u, of t] w by (auto simp: t_def)
  then show ?thesis
    using post_anywhere [OF ok r(1) [unfolded post_loginBegin_def]]
    by (intro exI [of _ c] exI [of _ w1]) (simp add: post_loginBegin_def t_def)
qed

lemma registerFinish_anywhere:
  assumes ok: "tool_ok cr tt s io" and w: "world_ok s io w" and u: "coerceString u = u" "coerceString nick = nick"
    and body: "body = register_fields u reg \<and> nick = [] \<or> body = register_fields u reg @ [(''nickname'', nick)]"
    and reg: "registers cr (env_io (io_env io n)) (srv_Registrar s) (registration_request u [] nick reg) c w cred"
  shows "\<exists>w'. (\<forall>t. t_world t = w \<longrightarrow> t_requests t = n \<longrightarrow>
      post_registerFinish s io body t = ((204, False, ()), served_to w' t)) \<and>
    world_ok s io w' \<and> view s w' = (view s w)(cred_ID cred \<mapsto> cred)"
proof -
  define t where "t = \<lparr>t_world = w, t_requests = n, t_keys = 0, t_buf = [], t_files = [], t_stdout = []\<rparr>"
  have t: "t_world t = w" "t_requests t = n" by (simp_all add: t_def)
  obtain req where "Decoder_Decode registerFinish_fields zeroRegisterFinish (Marshal_map body) = Some req"
      "decodeRegisterFinish req = Some (registration_request u [] nick reg)"
    using register_fields_request [OF u body] by blast
  from registerFinish_served [OF ok _ this, of t, unfolded t, OF w reg] obtain w' where
      r: "post_registerFinish s io body t = ((204, False, ()), served_to w' t)"
      "world_ok s io w'" "view s w' = (view s w)(cred_ID cred \<mapsto> cred)"
    by blast
  then show ?thesis
    using post_anywhere [OF ok r(1) [unfolded post_registerFinish_def]] t
    by (intro exI [of _ w']) (simp add: post_registerFinish_def)
qed

text \<open>The stored credential of a user, up to its counter.\<close>

definition stored_for :: "tool_io \<Rightarrow> nat \<Rightarrow> string \<Rightarrow> string \<Rightarrow> VirtualAuthenticator \<Rightarrow> bytes \<Rightarrow> Credential" where
  "stored_for io n u nick v credID = registered (env_io (io_env io n)) u nick v rp_id credID"

lemma stored_for_fields [simp]:
  "cred_ID (stored_for io n u nick v credID) = credID"
  "cred_Username (stored_for io n u nick v credID) = coerceString u"
  "cred_PublicKey (stored_for io n u nick v credID) = encode_value (cose_value v)"
  "cred_Algorithm (stored_for io n u nick v credID) = v_Alg v"
  "cred_SignCount (stored_for io n u nick v credID) = v_signCount v"
  by (simp_all add: stored_for_def registered_fields)

lemma ready_anywhere:
  assumes ok: "tool_ok cr tt s io" and w: "world_ok s io w" "awaits io w u PurposeRegister c" "view s w credID = None"
  shows "ready_to_register (srv_Registrar s) (env_io (io_env io n)) u c credID w"
  using assms tool_okD(6) [OF ok] tool_okD(11,16) [OF ok, of n]
  by (auto simp: ready_to_register_def world_ok_def awaits_def env_ok_def env_works_def)

lemma coerceString_empty: "coerceString [] = []"
  by (simp add: ascii_name_def)

text \<open>The three kinds of attestation, made and accepted.\<close>

definition accepted_as :: "Server \<Rightarrow> tool_io \<Rightarrow> nat \<Rightarrow> world \<Rightarrow> (string \<times> string) list \<Rightarrow> bytes \<Rightarrow> Credential \<Rightarrow> world \<Rightarrow> bool" where
  "accepted_as s io n w body credID cred w' \<longleftrightarrow>
     (\<forall>t. t_world t = w \<longrightarrow> t_requests t = n \<longrightarrow>
       post_registerFinish s io body t = ((204, False, ()), served_to w' t)) \<and>
     world_ok s io w' \<and> view s w' = (view s w)(credID \<mapsto> cred)"

lemma register_none:
  assumes ok: "tool_ok cr tt s io" and w: "world_ok s io w" "awaits io w u PurposeRegister c" "view s w credID = None"
    and u: "coerceString u = u" "coerceString nick = nick" and v: "v_good v" "length credID < 2 ^ 16"
    and f: "\<And>reg. f reg = register_fields u reg \<and> nick = [] \<or> f reg = register_fields u reg @ [(''nickname'', nick)]"
  shows "\<exists>reg w'. v_Register v rp_id base c credID = Inr reg \<and>
    accepted_as s io n w (f reg) credID (stored_for io n u nick v credID) w'"
proof -
  note srv = tool_okD(2) [OF ok] and rp = tool_okD(3) [OF ok]
  obtain reg where reg: "v_Register v rp_id base c credID = Inr reg"
      "registers cr (env_io (io_env io n)) (srv_Registrar s) (registration_request u [] nick reg) c w
        (stored_for io n u nick v credID)"
    using none_registers [OF srv v ready_anywhere [OF ok w, of n], of cr "[]" nick] by (auto simp: rp stored_for_def)
  then show ?thesis
    using registerFinish_anywhere [OF ok w(1) u f reg(2)] by (auto simp: accepted_as_def)
qed

lemma register_self:
  assumes ok: "tool_ok cr tt s io" and w: "world_ok s io w" "awaits io w u PurposeRegister c" "view s w credID = None"
    and u: "coerceString u = u" and v: "v_good v" "length credID < 2 ^ 16"
    and sig: "v_Alg v = AlgES256" "signing_correct cr (io_signing io) v"
  shows "\<exists>reg w'. v_RegisterPackedSelf (io_signing io) v rp_id base c credID = Inr reg \<and>
    accepted_as s io n w (register_fields u reg) credID (stored_for io n u [] v credID) w'"
proof -
  note srv = tool_okD(2) [OF ok] and rp = tool_okD(3) [OF ok]
  have "length x \<le> 10000" if "v_sign (io_signing io) v msg = Inr x" for msg x
    using keys_fitD(1) [OF ok] that sig(1) by (cases "v_ecPriv v") (auto simp: v_sign_def someOr_def split: option.splits)
  then obtain reg where r: "v_RegisterPackedSelf (io_signing io) v rp_id base c credID = Inr reg"
      "length (rres_AttestationObject reg) \<le> MaxInputSize"
    using packed_self_made [OF v sig(2), of rp_id base c] by blast
  have g: "registers cr (env_io (io_env io n)) (srv_Registrar s) (registration_request u [] [] reg) c w
      (stored_for io n u [] v credID)"
    using packed_self_registers [OF srv v ready_anywhere [OF ok w, of n] sig(2) _ r(2), of "[]" "[]"] r(1)
    by (simp add: rp stored_for_def)
  from registerFinish_anywhere [OF ok w(1) u coerceString_empty disjI1 [OF conjI [OF refl refl]] g] show ?thesis
    using r(1) unfolding accepted_as_def stored_for_fields(1) by blast
qed

lemma register_full:
  assumes ok: "tool_ok cr tt s io" and w: "world_ok s io w" "awaits io w u PurposeRegister c" "view s w credID = None"
    and u: "coerceString u = u" and v: "v_good v" "length credID < 2 ^ 16"
  shows "\<exists>reg w'. v_RegisterPackedFull (io_keys io m) (io_signing io) v rp_id base c credID = Inr reg \<and>
    accepted_as s io n w (register_fields u reg) credID (stored_for io n u [] v credID) w'"
proof -
  note srv = tool_okD(2) [OF ok] and rp = tool_okD(3) [OF ok]
  obtain v0 where "New (io_keys io m) AlgES256 [] = Inr v0"
    using New_works [OF ok, of AlgES256 m] by blast
  then obtain k where k: "ecdsa_GenerateKey (io_keys io m) = Some k"
    by (auto simp: New_def new_keys_def result_simps someOr_def split: option.splits)
  obtain der where der: "x509_SelfSigned (io_signing io) k = Some der" "length der \<le> 100000"
    using keys_fitD(3) [OF ok] by blast
  let ?d = "sha256 (authdata_bytes registration_flags (registration_ad v rp_id credID) @
      sha256 (buildClientDataJSON ''webauthn.create'' base c))"
  obtain x where x: "ecdsa_SignASN1 (io_signing io) k ?d = Some x" "length x \<le> 10000"
    using keys_fitD(1,2) [OF ok] by (metis not_None_eq)
  obtain reg where r: "v_RegisterPackedFull (io_keys io m) (io_signing io) v rp_id base c credID = Inr reg"
      "length (rres_AttestationObject reg) \<le> MaxInputSize"
    using packed_full_made [OF v k der(1) x(1) x(2) der(2)] by blast
  have "certificates_correct cr (io_keys io m) (io_signing io)" using ok by (simp add: tool_ok_def keys_fit_def)
  then have g: "registers cr (env_io (io_env io n)) (srv_Registrar s) (registration_request u [] [] reg) c w
      (stored_for io n u [] v credID)"
    using packed_full_registers [OF srv v ready_anywhere [OF ok w, of n] _ _ r(2), of cr "io_keys io m" "io_signing io" "[]" "[]"] r(1)
    by (simp add: rp stored_for_def)
  from registerFinish_anywhere [OF ok w(1) u coerceString_empty disjI1 [OF conjI [OF refl refl]] g] show ?thesis
    using r(1) unfolding accepted_as_def stored_for_fields(1) by blast
qed

text \<open>A login under a stored credential, and the requests with its token.\<close>

lemma login_anywhere:
  assumes ok: "tool_ok cr tt s io" and w: "world_ok s io w" "awaits io w u PurposeLogin c" and u: "u \<noteq> []" "coerceString u = u"
    and v: "v_good v" "signing_correct cr (io_signing io) v" "\<not> v_zeroCounter v"
    and cred: "view s w credID = Some (stored_for io m u nick v credID)"
    and f: "(\<forall>res. f res = login_fields u res) \<or> (\<forall>res. f res = login_fields u res @ [(''uv'', ''required'')])"
  shows "\<exists>res token w'. v_Authenticate (io_signing io) rp_id base c credID v = (Inr res, v_next v) \<and>
    (\<forall>t. t_world t = w \<longrightarrow> t_requests t = n \<longrightarrow> post_loginFinish s io (f res) t =
      ((200, False, Some (shown_login token \<lparr>result_Username = u, result_UVPerformed = True\<rparr>)), served_to w' t)) \<and>
    world_ok s io w' \<and> token_of tt s io u token \<and>
    view s w' = (view s w)(credID \<mapsto> (stored_for io m u nick v credID)\<lparr>cred_SignCount := v_signCount v + 1\<rparr>)"
proof -
  define t where "t = \<lparr>t_world = w, t_requests = n, t_keys = 0, t_buf = [], t_files = [], t_stdout = []\<rparr>"
  have t: "t_world t = w" "t_requests t = n" by (simp_all add: t_def)
  have next': "v_signCount (v_next v) = v_signCount v + 1" using v(3) by (simp add: v_next_def)
  obtain uv where body: "Decoder_Decode loginFinish_fields zeroLoginFinish (Marshal_map (f res)) =
      Some \<lparr>lf_Username = u, lf_FlowID = [], lf_RawID = b64 (ares_CredentialID res),
        lf_ClientDataJSON = b64 (ares_ClientDataJSON res), lf_AuthenticatorData = b64 (ares_AuthenticatorData res),
        lf_Signature = b64 (ares_Signature res), lf_UV = uv\<rparr>" for res
    using f u(2) by (auto simp: decode_login_fields)
  have z: "v_zeroCounter v \<longrightarrow> v_signCount v = 0" using v(3) by simp
  have c': "cred_Username (stored_for io m u nick v credID) = u" using u(2) by simp
  from loginFinish_served [OF ok _ u _ v(1,2) z _ _ _ _ _ body, of t c credID "stored_for io m u nick v credID", unfolded t next',
      OF w cred _ _ _ c']
  obtain res token w' where r: "v_Authenticate (io_signing io) rp_id base c credID v = (Inr res, v_next v)"
      "post_loginFinish s io (f res) t =
        ((200, False, Some (shown_login token \<lparr>result_Username = u, result_UVPerformed = True\<rparr>)), served_to w' t)"
      "world_ok s io w'" "token_of tt s io u token"
      "view s w' = (view s w)(credID \<mapsto> (stored_for io m u nick v credID)\<lparr>cred_SignCount := v_signCount v + 1\<rparr>)"
    by auto
  show ?thesis
    using post_anywhere [OF ok r(2) [unfolded post_loginFinish_def]] t r(1,3-5)
    by (intro exI [of _ res] exI [of _ token] exI [of _ w']) (simp add: post_loginFinish_def)
qed

lemma do_request_anywhere:
  assumes "tool_ok cr tt s io" and "do_request s io method path token t = (x, served_to w t)"
    and "t_world t2 = t_world t" and "t_requests t2 = t_requests t"
  shows "do_request s io method path token t2 = (x, served_to w t2)"
proof (cases "list_all header_byte (bytes_of_string (bearer @ token))")
  case True
  define r where "r = \<lparr>http_Method = method, http_Path = path, http_Authorization = trim_header (bearer @ token), http_Body = []\<rparr>"
  obtain resp log w' where run: "Routes s (io_env io (t_requests t)) r (t_world t) = ((resp, log), w')"
    by (metis prod.exhaust)
  then show ?thesis
    using assms(2-4) True send_served [OF assms(1) run] send_served [OF assms(1), of t2 r resp log w']
    by (auto simp: do_request_def r_def)
next
  case False
  then have "t = served_to w t" using assms(2) by (simp add: do_request_def)
  then have "t_requests t = t_requests t + 1" using served_to_simps(2) by metis
  then show ?thesis by simp
qed

lemma list_anywhere:
  assumes ok: "tool_ok cr tt s io" and w: "world_ok s io w" and u: "coerceString u = u" and token: "token_of tt s io u token"
    and c: "\<And>c. view s w (cred_ID c) = Some c \<Longrightarrow> cred_Username c = u \<Longrightarrow>
      json_time_ok (cred_CreatedAt c) \<and> \<bar>cred_Algorithm c\<bar> < 2 ^ 53"
  shows "\<exists>creds. (\<forall>t. t_world t = w \<longrightarrow> t_requests t = n \<longrightarrow> list_credentials s io token t =
      (Some (Some (map (\<lambda>c. Some (shown_credential tt c)) creds)), served_to w t)) \<and>
    distinct creds \<and> set creds = {c. view s w (cred_ID c) = Some c \<and> cred_Username c = u}"
proof -
  define t where "t = \<lparr>t_world = w, t_requests = n, t_keys = 0, t_buf = [], t_files = [], t_stdout = []\<rparr>"
  have t: "t_world t = w" "t_requests t = n" by (simp_all add: t_def)
  obtain creds where r: "list_credentials s io token t =
      (Some (Some (map (\<lambda>c. Some (shown_credential tt c)) creds)), served_to w t)"
      "distinct creds \<and> set creds = {c. view s w (cred_ID c) = Some c \<and> cred_Username c = u}"
    using list_served [OF ok _ u token, of t, unfolded t, OF w] c by blast
  then obtain resp where d: "do_request s io ''GET'' [''credentials''] token t = (Some resp, served_to w t)"
      "fst (Decode_into (fill_map_list (io_float io)) (resp_Body resp) None) = Some (map (\<lambda>c. Some (shown_credential tt c)) creds)"
    by (auto simp: list_credentials_def split: option.splits prod.splits)
  have "list_credentials s io token t2 = (Some (Some (map (\<lambda>c. Some (shown_credential tt c)) creds)), served_to w t2)"
    if "t_world t2 = w" "t_requests t2 = n" for t2
    using do_request_anywhere [OF ok d(1), of t2] d(2) that t by (simp add: list_credentials_def)
  then show ?thesis using r(2) by blast
qed

lemma delete_anywhere:
  assumes ok: "tool_ok cr tt s io" and w: "world_ok s io w" and u: "coerceString u = u"
    and token: "token_of tt s io u token" and cred: "view s w i = Some cred" "cred_Username cred = u" and i: "i \<noteq> []"
  shows "\<exists>w'. (\<forall>t. t_world t = w \<longrightarrow> t_requests t = n \<longrightarrow>
      do_request s io ''DELETE'' [''credentials'', b64 i] token t = (Some noContent, served_to w' t)) \<and>
    world_ok s io w' \<and> view s w' = (view s w)(i := None)"
proof -
  define t where "t = \<lparr>t_world = w, t_requests = n, t_keys = 0, t_buf = [], t_files = [], t_stdout = []\<rparr>"
  have t: "t_world t = w" "t_requests t = n" by (simp_all add: t_def)
  obtain w' where r: "do_request s io ''DELETE'' [''credentials'', b64 i] token t = (Some noContent, served_to w' t)"
      "world_ok s io w'" "view s w' = (view s w)(i := None)"
    using delete_served(2) [OF ok _ u token _ cred(2) i, of t, unfolded t, OF w cred(1)] by blast
  then show ?thesis using do_request_anywhere [OF ok r(1)] t by (intro exI [of _ w']) simp
qed

end
