(* ===== verification/Demodata_Tour.thy ===== *)
theory Demodata_Tour
  imports Demodata_Steps
begin

text \<open>
  The six captures of \<open>tools/demodata\<close>: on a server that was set up for it, each runs to its
  end, writes the transcript that is stated here, and leaves the credentials that it announces.
\<close>

section \<open>What a capture leaves behind\<close>

text \<open>The owner, the algorithm and the counter of each stored credential.\<close>

definition held :: "Server \<Rightarrow> world \<Rightarrow> bytes \<Rightarrow> (string \<times> int \<times> 32 word) option" where
  "held s w i = map_option (\<lambda>c. (cred_Username c, cred_Algorithm c, cred_SignCount c)) (view s w i)"

lemma held_None [simp]: "held s w i = None \<longleftrightarrow> view s w i = None"
  by (simp add: held_def)

lemma held_cong:
  "view s w' = (view s w)(i \<mapsto> c) \<Longrightarrow> held s w' = (held s w)(i \<mapsto> (cred_Username c, cred_Algorithm c, cred_SignCount c))"
  "view s w' = (view s w)(i := None) \<Longrightarrow> held s w' = (held s w)(i := None)"
  "view s w' = view s w \<Longrightarrow> held s w' = held s w"
  by (auto simp: held_def fun_eq_iff)

text \<open>A part of the program runs to its end and appends a text to the writer.\<close>

definition writes :: "unit tooling \<Rightarrow> tool \<Rightarrow> bytes \<Rightarrow> tool \<Rightarrow> bool" where
  "writes m t txt t' \<longleftrightarrow>
     m t = (Inr (), t') \<and> t_buf t' = t_buf t @ txt \<and> t_files t' = t_files t \<and> t_stdout t' = t_stdout t"

section \<open>A registration and a login\<close>

text \<open>
  The four requests of a registration and the login after it, from key generation \<open>m\<close> and
  request \<open>n\<close> on, with what the authenticator makes in between.
\<close>

definition logs_in :: "time_text \<Rightarrow> Server \<Rightarrow> tool_io \<Rightarrow> nat \<Rightarrow> nat \<Rightarrow> world \<Rightarrow> string \<Rightarrow> string \<Rightarrow> int \<Rightarrow> bytes \<Rightarrow>
    (RegistrationResult \<Rightarrow> (string \<times> string) list) \<Rightarrow> (AssertionResult \<Rightarrow> (string \<times> string) list) \<Rightarrow>
    bytes \<Rightarrow> bytes \<Rightarrow> bytes \<Rightarrow> string \<Rightarrow> world \<Rightarrow> bool" where
  "logs_in tt s io m n w u nick alg i f g uid c c2 token w4 \<longleftrightarrow> (\<exists>v reg res w1 w2 w3.
     New (io_keys io m) alg [] = Inr v \<and> v_Alg v = alg \<and>
     (\<forall>t. t_world t = w \<longrightarrow> t_requests t = n \<longrightarrow>
       post_registerBegin s io u t = ((200, False, options_of s u uid c), served_to w1 t)) \<and>
     v_Register v rp_id base c i = Inr reg \<and>
     (\<forall>t. t_world t = w1 \<longrightarrow> t_requests t = n + 1 \<longrightarrow>
       post_registerFinish s io (f reg) t = ((204, False, ()), served_to w2 t)) \<and>
     (\<forall>t. t_world t = w2 \<longrightarrow> t_requests t = n + 2 \<longrightarrow>
       post_loginBegin s io u t = ((200, False, \<lparr>ro_Challenge = b64 c2, ro_FlowID = []\<rparr>), served_to w3 t)) \<and>
     v_Authenticate (io_signing io) rp_id base c2 i v = (Inr res, v_next v) \<and>
     (\<forall>t. t_world t = w3 \<longrightarrow> t_requests t = n + 3 \<longrightarrow> post_loginFinish s io (g res) t =
       ((200, False, Some (shown_login token \<lparr>result_Username = u, result_UVPerformed = True\<rparr>)), served_to w4 t)) \<and>
     world_ok s io w4 \<and> token_of tt s io u token \<and>
     view s w4 = (view s w)(i \<mapsto> (stored_for io (n + 1) u nick v i)\<lparr>cred_SignCount := 2\<rparr>))"

lemma register_and_login:
  fixes f :: "RegistrationResult \<Rightarrow> (string \<times> string) list" and g :: "AssertionResult \<Rightarrow> (string \<times> string) list"
  assumes ok: "tool_ok cr tt s io" and w: "world_ok s io w" and u: "u \<noteq> []" "coerceString u = u" "coerceString nick = nick"
    and alg: "alg \<in> {AlgES256, AlgRS256, AlgEdDSA}" and new: "held s w i = None" and i: "length i < 2 ^ 16"
    and f: "\<And>reg. f reg = register_fields u reg \<and> nick = [] \<or> f reg = register_fields u reg @ [(''nickname'', nick)]"
    and g: "(\<forall>res. g res = login_fields u res) \<or> (\<forall>res. g res = login_fields u res @ [(''uv'', ''required'')])"
  shows "\<exists>uid c c2 token w4. logs_in tt s io m n w u nick alg i f g uid c c2 token w4"
proof -
  obtain v where v: "New (io_keys io m) alg [] = Inr v" "v_good v" "v_Alg v = alg"
      "signing_correct cr (io_signing io) v" "\<not> v_zeroCounter v" "v_signCount v = 1"
    using New_works [OF ok alg] by blast
  obtain c uid w1 where w1: "\<forall>t. t_world t = w \<longrightarrow> t_requests t = n \<longrightarrow>
      post_registerBegin s io u t = ((200, False, options_of s u uid c), served_to w1 t)"
      "world_ok s io w1" "view s w1 = view s w" "awaits io w1 u PurposeRegister c"
    using register_pair [OF ok w u(1,2), of n] by blast
  have new1: "view s w1 i = None" using new w1(3) by simp
  obtain reg w2 where reg: "v_Register v rp_id base c i = Inr reg"
      "accepted_as s io (n + 1) w1 (f reg) i (stored_for io (n + 1) u nick v i) w2"
    using register_none [OF ok w1(2,4) new1 u(2,3) v(2) i f] by blast
  note w2 = reg(2) [unfolded accepted_as_def]
  obtain c2 w3 where w3: "\<forall>t. t_world t = w2 \<longrightarrow> t_requests t = n + 2 \<longrightarrow>
      post_loginBegin s io u t = ((200, False, \<lparr>ro_Challenge = b64 c2, ro_FlowID = []\<rparr>), served_to w3 t)"
      "world_ok s io w3" "view s w3 = view s w2" "awaits io w3 u PurposeLogin c2"
    using login_pair [OF ok _ u(1,2), of w2 "n + 2"] w2 by blast
  have stored: "view s w3 i = Some (stored_for io (n + 1) u nick v i)" using w2 w3(3) by simp
  obtain res token w4 where w4: "v_Authenticate (io_signing io) rp_id base c2 i v = (Inr res, v_next v)"
      "\<forall>t. t_world t = w3 \<longrightarrow> t_requests t = n + 3 \<longrightarrow> post_loginFinish s io (g res) t =
        ((200, False, Some (shown_login token \<lparr>result_Username = u, result_UVPerformed = True\<rparr>)), served_to w4 t)"
      "world_ok s io w4" "token_of tt s io u token"
      "view s w4 = (view s w3)(i \<mapsto> (stored_for io (n + 1) u nick v i)\<lparr>cred_SignCount := v_signCount v + 1\<rparr>)"
    using login_anywhere [OF ok w3(2,4) u(1,2) v(2,4,5) stored g] by blast
  have view: "view s w4 = (view s w)(i \<mapsto> (stored_for io (n + 1) u nick v i)\<lparr>cred_SignCount := 2\<rparr>)"
    using w4(5) w2 w3(3) w1(3) v(6) by simp
  then show ?thesis
    using v(1,3) w1(1) reg(1) w2 w3(1) w4(1-4) unfolding logs_in_def by blast
qed

lemma logs_in_after:
  assumes "logs_in tt s io m n w u nick alg i f g uid c c2 token w4" and "coerceString u = u"
  shows "world_ok s io w4" and "held s w4 = (held s w)(i \<mapsto> (u, alg, 2))"
  using assms by (auto simp: logs_in_def held_def fun_eq_iff)

definition ceremony_text :: "Server \<Rightarrow> string \<Rightarrow> int \<Rightarrow> string \<Rightarrow> bytes \<Rightarrow> bytes \<Rightarrow> bytes \<Rightarrow> string \<Rightarrow> bytes" where
  "ceremony_text s u alg label uid c c2 token = concat [
     text_line (''-- '' @ label @ '' registration --''),
     text_line (''$ '' @ curl_begin ''register'' u),
     text_block (show_creationOptions (options_of s u uid c)),
     text_line (''HTTP 204 '' @ emdash @ '' credential stored (algorithm '' @ fmt_d alg @ '', '' @ label @ '')''),
     text_line [],
     text_line (''-- '' @ label @ '' login --''),
     text_line (''$ '' @ curl_begin ''login'' u),
     text_block (show_requestOptions \<lparr>ro_Challenge = b64 c2, ro_FlowID = []\<rparr>),
     text_line ''HTTP 200'',
     text_block (AMap (shown_login token \<lparr>result_Username = u, result_UVPerformed = True\<rparr>))]"

lemma options_challenge [simp]: "co_Challenge (options_of s u uid c) = b64 c"
  by (simp add: options_of_def)

lemma of_map_Some [simp]: "of_map (\<lambda>v. v) (Some kvs) = AMap kvs"
  by (simp add: of_map_def)

lemma fmt_status [simp]: "fmt_d 204 = ''204''" "fmt_d 200 = ''200''"
  by code_simp+

lemma length_copy_into [simp]: "length (copy_into n b) = n"
  by (cases "n \<le> length b") (simp_all add: copy_into_def)

lemma ceremony_writes:
  assumes ok: "tool_ok cr tt s io" and w: "world_ok s io (t_world t)" and u: "u \<noteq> []" "coerceString u = u"
    and alg: "alg \<in> {AlgES256, AlgRS256, AlgEdDSA}"
    and new: "held s (t_world t) (copy_into 16 (bytes_of_string (u @ ''-credential-id-pad''))) = None"
  shows "\<exists>uid c c2 token t'. writes (ceremony s io u alg label) t (ceremony_text s u alg label uid c c2 token) t' \<and>
    world_ok s io (t_world t') \<and> held s (t_world t') = (held s (t_world t))
      (copy_into 16 (bytes_of_string (u @ ''-credential-id-pad'')) \<mapsto> (u, alg, 2))"
proof -
  let ?id = "copy_into 16 (bytes_of_string (u @ ''-credential-id-pad''))"
  have id: "length ?id < 2 ^ 16" by simp
  obtain uid c c2 token w4 where run: "logs_in tt s io (t_keys t) (t_requests t) (t_world t) u [] alg ?id
      (register_fields u) (login_fields u) uid c c2 token w4"
    using register_and_login [OF ok w u coerceString_empty alg new id, of "register_fields u" "login_fields u"] by blast
  then have "\<exists>t'. writes (ceremony s io u alg label) t (ceremony_text s u alg label uid c c2 token) t' \<and> t_world t' = w4"
    by (auto simp: logs_in_def writes_def ceremony_def ceremony_text_def run_steps Let_def)
  then show ?thesis using logs_in_after [OF run u(2)] by metis
qed

section \<open>Attestations\<close>

definition packed_self_text :: bytes where
  "packed_self_text = concat [
     text_line ''-- packed self-attestation registration --'',
     text_line (''$ '' @ curl_self),
     text_line (''HTTP 204 '' @ emdash @ '' self-attestation verified against the credential'' @ apos @
       ''s own public key, accepted'')]"

definition packed_full_text :: bytes where
  "packed_full_text = concat [
     text_line ''-- packed full attestation registration (x5c) --'',
     text_line (''$ '' @ curl_full),
     text_line (''HTTP 204 '' @ emdash @ '' leaf certificate in x5c verified as the statement'' @ apos @ ''s signer, accepted''),
     text_line (''(not chained to a trust anchor '' @ emdash @
       '' that needs the FIDO Metadata Service, out of scope; see README Limits)'')]"

lemma packedSelf_writes:
  assumes ok: "tool_ok cr tt s io" and w: "world_ok s io (t_world t)"
    and new: "held s (t_world t) (bytes_of_string ''dave-packed-self-cred-id'') = None"
  shows "\<exists>t'. writes (packedSelf s io) t packed_self_text t' \<and> world_ok s io (t_world t') \<and>
    held s (t_world t') = (held s (t_world t))(bytes_of_string ''dave-packed-self-cred-id'' \<mapsto> (''dave-packed-self'', AlgES256, 1))"
proof -
  define u i n where d: "u = ''dave-packed-self''" "i = bytes_of_string ''dave-packed-self-cred-id''" "n = t_requests t"
  have u: "u \<noteq> []" "coerceString u = u" and i: "length i < 2 ^ 16" by (simp_all add: d ascii_eval)
  obtain v where v: "New (io_keys io (t_keys t)) AlgES256 [] = Inr v" "v_good v" "v_Alg v = AlgES256"
      "signing_correct cr (io_signing io) v" "v_signCount v = 1"
    using New_works [OF ok] by blast
  obtain c uid w1 where w1: "\<forall>t'. t_world t' = t_world t \<longrightarrow> t_requests t' = n \<longrightarrow>
      post_registerBegin s io u t' = ((200, False, options_of s u uid c), served_to w1 t')"
      "world_ok s io w1" "view s w1 = view s (t_world t)" "awaits io w1 u PurposeRegister c"
    using register_pair [OF ok w u, of n] by blast
  have new1: "view s w1 i = None" using new w1(3) by (simp add: d)
  obtain reg w2 where reg: "v_RegisterPackedSelf (io_signing io) v rp_id base c i = Inr reg"
      "accepted_as s io (n + 1) w1 (register_fields u reg) i (stored_for io (n + 1) u [] v i) w2"
    using register_self [OF ok w1(2,4) new1 u(2) v(2) i v(3,4)] by blast
  note w2 = reg(2) [unfolded accepted_as_def]
  have "\<exists>t'. writes (packedSelf s io) t packed_self_text t' \<and> t_world t' = w2"
    using v(1) w1(1) reg(1) w2 unfolding d
    by (simp add: writes_def packedSelf_def packed_self_text_def run_steps Let_def)
  moreover have "held s w2 = (held s (t_world t))(i \<mapsto> (u, AlgES256, 1))"
    using w2 w1(3) v(3,5) u(2) by (simp add: held_def fun_eq_iff)
  ultimately show ?thesis using w2 unfolding d by metis
qed

text \<open>The last line claims success under every status, that of a refusal and 0 for a lost answer included.\<close>

lemma packedSelf_reports_any_status:
  assumes "New (io_keys io (t_keys t)) AlgES256 [] = Inr v"
    and "post_registerBegin s io ''dave-packed-self''
        (wrote (text_line ''-- packed self-attestation registration --'') (next_key t)) = ((st1, failed1, opts), t1)"
    and "RawURLEncoding_DecodeString (co_Challenge opts) = Some c"
    and "v_RegisterPackedSelf (io_signing io) v rp_id base c (bytes_of_string ''dave-packed-self-cred-id'') = Inr reg"
    and "post_registerFinish s io (register_fields ''dave-packed-self'' reg) (wrote (text_line (''$ '' @ curl_self)) t1) =
        ((status, failed2, out), t2)"
  shows "packedSelf s io t = (Inr (), wrote (text_line (''HTTP '' @ fmt_d (int status) @ '' '' @ emdash @
      '' self-attestation verified against the credential'' @ apos @ ''s own public key, accepted'')) t2)"
  using assms by (simp add: packedSelf_def run_steps unb64_def Let_def)

lemma full_step:
  "v_RegisterPackedFull (io_keys io (t_keys t)) sg v rpID origin c i = Inr reg \<Longrightarrow>
   bindS (\<lambda>t. (wrapE F (v_RegisterPackedFull (io_keys io (t_keys t)) sg v rpID origin c i), t\<lparr>t_keys := Suc (t_keys t)\<rparr>)) k t =
     k reg (next_key t)"
  by (simp add: bindS_def next_key_def)

lemma packedFull_writes:
  assumes ok: "tool_ok cr tt s io" and w: "world_ok s io (t_world t)"
    and new: "held s (t_world t) (bytes_of_string ''erin-packed-full-cred-id'') = None"
  shows "\<exists>t'. writes (packedFull s io) t packed_full_text t' \<and> world_ok s io (t_world t') \<and>
    held s (t_world t') = (held s (t_world t))(bytes_of_string ''erin-packed-full-cred-id'' \<mapsto> (''erin-packed-full'', AlgES256, 1))"
proof -
  define u i n where d: "u = ''erin-packed-full''" "i = bytes_of_string ''erin-packed-full-cred-id''" "n = t_requests t"
  have u: "u \<noteq> []" "coerceString u = u" and i: "length i < 2 ^ 16" by (simp_all add: d ascii_eval)
  obtain v where v: "New (io_keys io (t_keys t)) AlgES256 [] = Inr v" "v_good v" "v_Alg v = AlgES256" "v_signCount v = 1"
    using New_works [OF ok] by blast
  obtain c uid w1 where w1: "\<forall>t'. t_world t' = t_world t \<longrightarrow> t_requests t' = n \<longrightarrow>
      post_registerBegin s io u t' = ((200, False, options_of s u uid c), served_to w1 t')"
      "world_ok s io w1" "view s w1 = view s (t_world t)" "awaits io w1 u PurposeRegister c"
    using register_pair [OF ok w u, of n] by blast
  have new1: "view s w1 i = None" using new w1(3) by (simp add: d)
  obtain reg w2 where reg: "v_RegisterPackedFull (io_keys io (t_keys t + 1)) (io_signing io) v rp_id base c i = Inr reg"
      "accepted_as s io (n + 1) w1 (register_fields u reg) i (stored_for io (n + 1) u [] v i) w2"
    using register_full [OF ok w1(2,4) new1 u(2) v(2) i] by blast
  note w2 = reg(2) [unfolded accepted_as_def]
  have "\<exists>t'. writes (packedFull s io) t packed_full_text t' \<and> t_world t' = w2"
    using v(1) w1(1) reg(1) w2 unfolding d
    by (simp add: writes_def packedFull_def packed_full_text_def run_steps full_step Let_def)
  moreover have "held s w2 = (held s (t_world t))(i \<mapsto> (u, AlgES256, 1))"
    using w2 w1(3) v(3,4) u(2) by (simp add: held_def fun_eq_iff)
  ultimately show ?thesis using w2 unfolding d by metis
qed

section \<open>Listing, revoking and the override\<close>

lemma stored_for_more [simp]:
  "cred_CreatedAt (stored_for io n u nick v i) = clock_of io n"
  "cred_Nickname (stored_for io n u nick v i) = coerceString nick"
  by (auto simp: stored_for_def registered_def stamped_def new_credential_def json_credential_def)

definition frank_id :: bytes where "frank_id = bytes_of_string ''frank-credential-id-pad''"

definition management_text :: "time_text \<Rightarrow> Credential \<Rightarrow> bytes" where
  "management_text tt cred = concat [
     text_line ''-- register with a nickname --'',
     text_line (''$ '' @ curl_nickname),
     text_line [],
     text_line ''-- list credentials --'',
     text_line (''$ '' @ curl_list),
     text_block (AArr [AMap (shown_credential tt cred)]),
     text_line [],
     text_line ''-- revoke it --'',
     text_line (''$ '' @ curl_delete (b64 frank_id)),
     text_line ''HTTP 204'',
     text_line [],
     text_line ''-- list again: gone --'',
     text_line (''$ '' @ curl_list),
     text_block (AArr [])]"

lemma token_shown:
  assumes "token_of tt s io u token"
  shows "text_at ''token'' (Some (shown_login token r)) = token"
proof -
  obtain n where "session_Issue tt (srv_Sessions s) u True (clock_of' io n) = Inr token"
    using assms by (auto simp: token_of_def)
  from bearer_header(3) [OF token_letters [OF this]] show ?thesis by (simp add: text_at_def shown_login_def)
qed

lemma id_shown: "text_at ''id'' (Some (shown_credential tt c)) = b64 (cred_ID c)"
  by (simp add: text_at_def shown_credential_def)

lemma credentialManagement_writes:
  assumes ok: "tool_ok cr tt s io" and w: "world_ok s io (t_world t)"
    and new: "held s (t_world t) frank_id = None" "\<forall>i a n. held s (t_world t) i \<noteq> Some (''frank'', a, n)"
  shows "\<exists>cred t'. writes (credentialManagement s io) t (management_text tt cred) t' \<and>
    cred_ID cred = frank_id \<and> cred_Algorithm cred = AlgES256 \<and> cred_Nickname cred = ''YubiKey on desk'' \<and>
    world_ok s io (t_world t') \<and> held s (t_world t') = held s (t_world t)"
proof -
  define u nick n where d: "u = ''frank''" "nick = ''YubiKey on desk''" "n = t_requests t"
  define f where "f = (\<lambda>reg. register_fields u reg @ [(''nickname'', nick)])"
  have u: "u \<noteq> []" "coerceString u = u" "coerceString nick = nick" by (simp_all add: d ascii_eval)
  have i: "length frank_id < 2 ^ 16" "frank_id \<noteq> []" by (simp_all add: frank_id_def bytes_of_string_def)
  obtain uid c c2 token w4 where run: "logs_in tt s io (t_keys t) n (t_world t) u nick AlgES256 frank_id f (login_fields u) uid c c2 token w4"
    using register_and_login [OF ok w u _ new(1) i(1), of AlgES256 f "login_fields u" "t_keys t" n] by (auto simp: f_def)
  then obtain cred where w4: "world_ok s io w4" "token_of tt s io u token" "view s w4 = (view s (t_world t))(frank_id \<mapsto> cred)"
    and cred: "cred_ID cred = frank_id" "cred_Algorithm cred = AlgES256" "cred_Nickname cred = nick" "cred_Username cred = u"
      "cred_CreatedAt cred = clock_of io (n + 1)"
    using u by (auto simp: logs_in_def)
  have own: "{c. view s w4 (cred_ID c) = Some c \<and> cred_Username c = u} = {cred}"
    using new(2) cred w4(3) by (auto simp: held_def d split: if_splits)
  have "json_time_ok (cred_CreatedAt c) \<and> \<bar>cred_Algorithm c\<bar> < 2 ^ 53" if "view s w4 (cred_ID c) = Some c" "cred_Username c = u" for c
  proof -
    have "c = cred" using own that by blast
    then show ?thesis using cred tool_okD(16) [OF ok] by (simp add: AlgES256_def)
  qed
  then obtain creds where l1: "\<forall>t. t_world t = w4 \<longrightarrow> t_requests t = n + 4 \<longrightarrow> list_credentials s io token t =
      (Some (Some (map (\<lambda>c. Some (shown_credential tt c)) creds)), served_to w4 t)" "distinct creds" "set creds = {cred}"
    using list_anywhere [OF ok w4(1) u(2) w4(2), of "n + 4"] unfolding own by blast
  then have creds: "creds = [cred]" by (cases creds) (auto simp: subset_singleton_iff)
  obtain w5 where w5: "\<forall>t. t_world t = w4 \<longrightarrow> t_requests t = n + 5 \<longrightarrow>
      do_request s io ''DELETE'' [''credentials'', b64 frank_id] token t = (Some noContent, served_to w5 t)"
      "world_ok s io w5" "view s w5 = (view s w4)(frank_id := None)"
    using delete_anywhere [OF ok w4(1) u(2) w4(2) _ cred(4) i(2), of "n + 5"] w4(3) by auto
  have same: "view s w5 = view s (t_world t)" using new(1) w4(3) w5(3) by auto
  have own5: "{c. view s w5 (cred_ID c) = Some c \<and> cred_Username c = u} = {}"
    using new(2) by (auto simp: same held_def d)
  then have none: "json_time_ok (cred_CreatedAt c) \<and> \<bar>cred_Algorithm c\<bar> < 2 ^ 53"
    if "view s w5 (cred_ID c) = Some c" "cred_Username c = u" for c
    using that by blast
  obtain creds2 where l2: "\<forall>t. t_world t = w5 \<longrightarrow> t_requests t = n + 6 \<longrightarrow> list_credentials s io token t =
      (Some (Some (map (\<lambda>c. Some (shown_credential tt c)) creds2)), served_to w5 t)" "set creds2 = {}"
    using list_anywhere [OF ok w5(2) u(2) w4(2) none, of "n + 6"] unfolding own5 by blast
  have path: "credential_path io (b64 frank_id) = Some [''credentials'', b64 frank_id]"
    using encoded_letters by (simp add: credential_path_def b64_def)
  have "\<exists>t'. writes (credentialManagement s io) t (management_text tt cred) t' \<and> t_world t' = w5"
    using run l1(1) l2 w5(1) path token_shown [OF w4(2)] id_shown [of tt cred] cred(1)
    unfolding creds f_def logs_in_def d frank_id_def
    by (auto simp: writes_def credentialManagement_def management_text_def run_steps Let_def show_list_def revoke_first_def
        of_list_def frank_id_def noContent_def StatusNoContent_def)
  moreover have "held s w5 = held s (t_world t)" by (simp add: held_def same fun_eq_iff)
  ultimately show ?thesis using cred w5(2) d(2) by metis
qed

definition grace_id :: bytes where "grace_id = bytes_of_string ''grace-credential-id-pad''"

definition override_text :: "string \<Rightarrow> bytes" where
  "override_text token = concat [
     text_line ''-- server default policy: uv=preferred --'',
     text_line (''$ '' @ curl_uv),
     text_block (AMap (shown_login token \<lparr>result_Username = ''grace'', result_UVPerformed = True\<rparr>)),
     text_line (''this one ceremony demanded stricter verification than the server default '' @ emdash),
     text_line ''policy.EffectivePolicy only ever tightens the floor, never loosens it'']"

lemma uvOverride_writes:
  assumes ok: "tool_ok cr tt s io" and w: "world_ok s io (t_world t)" and new: "held s (t_world t) grace_id = None"
  shows "\<exists>token t'. writes (uvOverride s io) t (override_text token) t' \<and> world_ok s io (t_world t') \<and>
    held s (t_world t') = (held s (t_world t))(grace_id \<mapsto> (''grace'', AlgES256, 2))"
proof -
  define u where u_def: "u = ''grace''"
  define g where "g = (\<lambda>res. login_fields u res @ [(''uv'', ''required'')])"
  have u: "u \<noteq> []" "coerceString u = u" by (simp_all add: u_def ascii_eval)
  have i: "length grace_id < 2 ^ 16" by (simp add: grace_id_def)
  obtain uid c c2 token w4 where run: "logs_in tt s io (t_keys t) (t_requests t) (t_world t) u [] AlgES256 grace_id
      (register_fields u) g uid c c2 token w4"
    using register_and_login [OF ok w u coerceString_empty _ new i, of AlgES256 "register_fields u" g "t_keys t" "t_requests t"]
    by (auto simp: g_def)
  then have "\<exists>t'. writes (uvOverride s io) t (override_text token) t' \<and> t_world t' = w4"
    unfolding logs_in_def g_def u_def grace_id_def
    by (auto simp: writes_def uvOverride_def override_text_def run_steps Let_def)
  then show ?thesis using logs_in_after [OF run u(2)] unfolding u_def by metis
qed

section \<open>The whole program\<close>

text \<open>A capture writes its transcript to its file.\<close>

definition captures :: "unit tooling \<Rightarrow> tool \<Rightarrow> string \<Rightarrow> bytes \<Rightarrow> tool \<Rightarrow> bool" where
  "captures m t name txt t' \<longleftrightarrow> m t = (Inr (), t') \<and>
     t_files t' = t_files t @ [(outDir @ ''/'' @ name, txt)] \<and>
     t_stdout t' = t_stdout t @ [''wrote '' @ outDir @ ''/'' @ name]"

lemma tool_blank: "t_world (t\<lparr>t_buf := b\<rparr>) = t_world t"
  by simp

lemma capture_captures:
  assumes "writes fn (t\<lparr>t_buf := []\<rparr>) txt t'" and "\<forall>path. io_write io path"
  shows "\<exists>t''. captures (capture io outDir name fn) t name txt t'' \<and> t_world t'' = t_world t'"
  using assms by (simp add: capture_def captures_def writes_def bindS_def Let_def)

text \<open>The captures, on a server at which nobody has registered.\<close>

definition bob_id :: bytes where "bob_id = bytes_of_string ''bob-credential-i''"
definition carol_id :: bytes where "carol_id = bytes_of_string ''carol-credential''"
definition dave_id :: bytes where "dave_id = bytes_of_string ''dave-packed-self-cred-id''"
definition erin_id :: bytes where "erin_id = bytes_of_string ''erin-packed-full-cred-id''"

lemmas tour_ids = bob_id_def carol_id_def dave_id_def erin_id_def frank_id_def grace_id_def

lemma padded_ids:
  "copy_into 16 (bytes_of_string (''bob'' @ ''-credential-id-pad'')) = bob_id"
  "copy_into 16 (bytes_of_string (''carol'' @ ''-credential-id-pad'')) = carol_id"
  by (simp_all add: copy_into_def tour_ids bytes_of_string_def)

lemma distinct_ids: "distinct [bob_id, carol_id, dave_id, erin_id, frank_id, grace_id]"
  by (simp add: tour_ids bytes_of_string_def byte_of_char_def)

text \<open>What each file holds, up to the random values of the run.\<close>

definition ceremony_shown :: "Server \<Rightarrow> string \<Rightarrow> int \<Rightarrow> string \<Rightarrow> bytes \<Rightarrow> bool" where
  "ceremony_shown s u alg label txt \<longleftrightarrow> (\<exists>uid c c2 token. txt = ceremony_text s u alg label uid c c2 token)"

definition management_shown :: "time_text \<Rightarrow> bytes \<Rightarrow> bool" where
  "management_shown tt txt \<longleftrightarrow> (\<exists>cred. txt = management_text tt cred \<and> cred_ID cred = frank_id \<and>
     cred_Algorithm cred = AlgES256 \<and> cred_Nickname cred = ''YubiKey on desk'')"

definition override_shown :: "bytes \<Rightarrow> bool" where
  "override_shown txt \<longleftrightarrow> (\<exists>token. txt = override_text token)"

text \<open>
  A stage of the program: whatever the server holds before it, the file of that name is
  written as expected, and the server holds what it should.
\<close>

type_synonym holdings = "bytes \<Rightarrow> (string \<times> int \<times> 32 word) option"

definition stage :: "Server \<Rightarrow> tool_io \<Rightarrow> holdings \<Rightarrow> unit tooling \<Rightarrow> string \<Rightarrow> (bytes \<Rightarrow> bool) \<Rightarrow> holdings \<Rightarrow> bool" where
  "stage s io h fn name shown h' \<longleftrightarrow> (\<forall>t. world_ok s io (t_world t) \<longrightarrow> held s (t_world t) = h \<longrightarrow>
     (\<exists>txt t'. captures (capture io outDir name fn) t name txt t' \<and> shown txt \<and>
       world_ok s io (t_world t') \<and> held s (t_world t') = h'))"

lemma stageI:
  assumes "\<forall>path. io_write io path"
    and "\<And>t. world_ok s io (t_world t) \<Longrightarrow> held s (t_world t) = h \<Longrightarrow>
      \<exists>txt t'. writes fn t txt t' \<and> shown txt \<and> world_ok s io (t_world t') \<and> held s (t_world t') = h'"
  shows "stage s io h fn name shown h'"
proof -
  have "\<exists>txt t'. captures (capture io outDir name fn) t name txt t' \<and> shown txt \<and>
      world_ok s io (t_world t') \<and> held s (t_world t') = h'"
    if t: "world_ok s io (t_world t)" "held s (t_world t) = h" for t
  proof -
    obtain x t' where r: "writes fn (t\<lparr>t_buf := []\<rparr>) x t'" "shown x" "world_ok s io (t_world t')" "held s (t_world t') = h'"
      using assms(2) [of "t\<lparr>t_buf := []\<rparr>", unfolded tool_blank, OF t] by blast
    obtain t'' where "captures (capture io outDir name fn) t name x t''" "t_world t'' = t_world t'"
      using capture_captures [OF r(1) assms(1)] by blast
    then show ?thesis using r(2-4) by metis
  qed
  then show ?thesis unfolding stage_def by blast
qed

lemma stageE:
  assumes "stage s io h fn name shown h'" and "world_ok s io (t_world t)" and "held s (t_world t) = h"
  obtains x t' where "captures (capture io outDir name fn) t name x t'" and "shown x"
    and "world_ok s io (t_world t')" and "held s (t_world t') = h'"
  using assms unfolding stage_def by blast

lemma ceremony_stage:
  assumes "tool_ok cr tt s io" and "\<forall>path. io_write io path" and "u \<noteq> []" and "coerceString u = u"
    and "alg \<in> {AlgES256, AlgRS256, AlgEdDSA}" and "copy_into 16 (bytes_of_string (u @ ''-credential-id-pad'')) = i"
    and "h i = None"
  shows "stage s io h (ceremony s io u alg label) name (ceremony_shown s u alg label) (h(i \<mapsto> (u, alg, 2)))"
proof (rule stageI [OF assms(2)])
  fix t :: tool assume "world_ok s io (t_world t)" "held s (t_world t) = h"
  then show "\<exists>txt t'. writes (ceremony s io u alg label) t txt t' \<and> ceremony_shown s u alg label txt \<and>
      world_ok s io (t_world t') \<and> held s (t_world t') = h(i \<mapsto> (u, alg, 2))"
    using ceremony_writes [OF assms(1) _ assms(3-5), of t label] assms(6,7) unfolding ceremony_shown_def by metis
qed

lemma packed_stages:
  assumes "tool_ok cr tt s io" and "\<forall>path. io_write io path"
  shows "h dave_id = None \<Longrightarrow> stage s io h (packedSelf s io) name (\<lambda>txt. txt = packed_self_text)
      (h(dave_id \<mapsto> (''dave-packed-self'', AlgES256, 1)))"
    and "h erin_id = None \<Longrightarrow> stage s io h (packedFull s io) name (\<lambda>txt. txt = packed_full_text)
      (h(erin_id \<mapsto> (''erin-packed-full'', AlgES256, 1)))"
  by (rule stageI [OF assms(2)], drule packedSelf_writes [OF assms(1), folded dave_id_def], simp del: held_None, metis)
    (rule stageI [OF assms(2)], drule packedFull_writes [OF assms(1), folded erin_id_def], simp del: held_None, metis)

lemma management_stage:
  assumes "tool_ok cr tt s io" and "\<forall>path. io_write io path"
  shows "h frank_id = None \<Longrightarrow> \<forall>i a n. h i \<noteq> Some (''frank'', a, n) \<Longrightarrow>
    stage s io h (credentialManagement s io) name (management_shown tt) h"
  by (rule stageI [OF assms(2)], drule credentialManagement_writes [OF assms(1)])
    (simp_all del: held_None, unfold management_shown_def, blast)

lemma override_stage:
  assumes "tool_ok cr tt s io" and "\<forall>path. io_write io path"
  shows "h grace_id = None \<Longrightarrow> stage s io h (uvOverride s io) name override_shown (h(grace_id \<mapsto> (''grace'', AlgES256, 2)))"
  by (rule stageI [OF assms(2)], drule uvOverride_writes [OF assms(1)])
    (simp_all del: held_None, unfold override_shown_def, blast)

definition tour_text :: "time_text \<Rightarrow> Server \<Rightarrow> (string \<times> bytes) list \<Rightarrow> bool" where
  "tour_text tt s files \<longleftrightarrow> list_all2 (\<lambda>(path, txt) (name, shown). path = ''docs/demo/captures/'' @ name \<and> shown txt) files [
     (''rs256-ceremony.txt'', ceremony_shown s ''bob'' AlgRS256 ''RS256''),
     (''eddsa-ceremony.txt'', ceremony_shown s ''carol'' AlgEdDSA ''EdDSA''),
     (''packed-self.txt'', \<lambda>txt. txt = packed_self_text),
     (''packed-full.txt'', \<lambda>txt. txt = packed_full_text),
     (''credential-management.txt'', management_shown tt),
     (''uv-override.txt'', override_shown)]"

definition tour_holds :: holdings where
  "tour_holds = [bob_id \<mapsto> (''bob'', AlgRS256, 2), carol_id \<mapsto> (''carol'', AlgEdDSA, 2),
     dave_id \<mapsto> (''dave-packed-self'', AlgES256, 1), erin_id \<mapsto> (''erin-packed-full'', AlgES256, 1),
     grace_id \<mapsto> (''grace'', AlgES256, 2)]"

lemma tour_stages:
  assumes ok: "tool_ok cr tt s io" and files: "\<forall>path. io_write io path"
  shows "\<exists>h1 h2 h3 h4.
    stage s io Map.empty (ceremony s io ''bob'' AlgRS256 ''RS256'') ''rs256-ceremony.txt'' (ceremony_shown s ''bob'' AlgRS256 ''RS256'') h1 \<and>
    stage s io h1 (ceremony s io ''carol'' AlgEdDSA ''EdDSA'') ''eddsa-ceremony.txt'' (ceremony_shown s ''carol'' AlgEdDSA ''EdDSA'') h2 \<and>
    stage s io h2 (packedSelf s io) ''packed-self.txt'' (\<lambda>txt. txt = packed_self_text) h3 \<and>
    stage s io h3 (packedFull s io) ''packed-full.txt'' (\<lambda>txt. txt = packed_full_text) h4 \<and>
    stage s io h4 (credentialManagement s io) ''credential-management.txt'' (management_shown tt) h4 \<and>
    stage s io h4 (uvOverride s io) ''uv-override.txt'' override_shown tour_holds"
proof -
  note ids = distinct_ids [simplified]
  define h1 h2 h3 h4 where h: "h1 = [bob_id \<mapsto> (''bob'', AlgRS256, 2 :: 32 word)]" "h2 = h1(carol_id \<mapsto> (''carol'', AlgEdDSA, 2))"
    "h3 = h2(dave_id \<mapsto> (''dave-packed-self'', AlgES256, 1))" "h4 = h3(erin_id \<mapsto> (''erin-packed-full'', AlgES256, 1))"
  have tour: "h4(grace_id \<mapsto> (''grace'', AlgES256, 2)) = tour_holds" by (simp add: h tour_holds_def)
  have "h1 carol_id = None" "h2 dave_id = None" "h3 erin_id = None" "h4 frank_id = None" "h4 grace_id = None"
    and frank: "\<forall>i a n. h4 i \<noteq> Some (''frank'', a, n)"
    using ids by (auto simp: h split: if_splits)
  note names = this
  have bob: "''bob'' \<noteq> []" "coerceString ''bob'' = ''bob''" and carol: "''carol'' \<noteq> []" "coerceString ''carol'' = ''carol''"
    by (simp_all add: ascii_eval)
  have alg: "AlgRS256 \<in> {AlgES256, AlgRS256, AlgEdDSA}" "AlgEdDSA \<in> {AlgES256, AlgRS256, AlgEdDSA}" by simp_all
  note 1 = ceremony_stage [where h = Map.empty and name = "''rs256-ceremony.txt''" and label = "''RS256''" and alg = AlgRS256,
      OF ok files bob alg(1) padded_ids(1) refl, folded h(1)]
    and 2 = ceremony_stage [where h = h1 and name = "''eddsa-ceremony.txt''" and label = "''EdDSA''" and alg = AlgEdDSA,
      OF ok files carol alg(2) padded_ids(2) names(1), folded h]
  note 3 = packed_stages(1) [where h = h2 and name = "''packed-self.txt''", OF ok files names(2), folded h]
    and 4 = packed_stages(2) [where h = h3 and name = "''packed-full.txt''", OF ok files names(3), folded h]
    and 5 = management_stage [where h = h4 and name = "''credential-management.txt''", OF ok files names(4) frank]
    and 6 = override_stage [where h = h4 and name = "''uv-override.txt''", OF ok files names(5), unfolded tour]
  show ?thesis using 1 2 3 4 5 6 by blast
qed

lemma tour_runs:
  assumes ok: "tool_ok cr tt s io" and w: "world_ok s io (t_world t)" and fresh: "held s (t_world t) = Map.empty"
    and files: "io_mkdir io" "\<forall>path. io_write io path"
  shows "\<exists>t' files. demodata_main s io t = (Inr (), t') \<and> t_files t' = t_files t @ files \<and> tour_text tt s files \<and>
    world_ok s io (t_world t') \<and> held s (t_world t') = tour_holds"
proof -
  obtain h1 h2 h3 h4 where st:
    "stage s io Map.empty (ceremony s io ''bob'' AlgRS256 ''RS256'') ''rs256-ceremony.txt'' (ceremony_shown s ''bob'' AlgRS256 ''RS256'') h1"
    "stage s io h1 (ceremony s io ''carol'' AlgEdDSA ''EdDSA'') ''eddsa-ceremony.txt'' (ceremony_shown s ''carol'' AlgEdDSA ''EdDSA'') h2"
    "stage s io h2 (packedSelf s io) ''packed-self.txt'' (\<lambda>txt. txt = packed_self_text) h3"
    "stage s io h3 (packedFull s io) ''packed-full.txt'' (\<lambda>txt. txt = packed_full_text) h4"
    "stage s io h4 (credentialManagement s io) ''credential-management.txt'' (management_shown tt) h4"
    "stage s io h4 (uvOverride s io) ''uv-override.txt'' override_shown tour_holds"
    using tour_stages [OF ok files(2)] by blast
  obtain x1 t1 where c1: "captures (capture io outDir ''rs256-ceremony.txt'' (ceremony s io ''bob'' AlgRS256 ''RS256'')) t ''rs256-ceremony.txt'' x1 t1"
    "ceremony_shown s ''bob'' AlgRS256 ''RS256'' x1" "world_ok s io (t_world t1)" "held s (t_world t1) = h1"
    by (rule stageE [OF st(1) w fresh])
  obtain x2 t2 where c2: "captures (capture io outDir ''eddsa-ceremony.txt'' (ceremony s io ''carol'' AlgEdDSA ''EdDSA'')) t1 ''eddsa-ceremony.txt'' x2 t2"
    "ceremony_shown s ''carol'' AlgEdDSA ''EdDSA'' x2" "world_ok s io (t_world t2)" "held s (t_world t2) = h2"
    by (rule stageE [OF st(2) c1(3,4)])
  obtain x3 t3 where c3: "captures (capture io outDir ''packed-self.txt'' (packedSelf s io)) t2 ''packed-self.txt'' x3 t3"
    "x3 = packed_self_text" "world_ok s io (t_world t3)" "held s (t_world t3) = h3"
    by (rule stageE [OF st(3) c2(3,4)])
  obtain x4 t4 where c4: "captures (capture io outDir ''packed-full.txt'' (packedFull s io)) t3 ''packed-full.txt'' x4 t4"
    "x4 = packed_full_text" "world_ok s io (t_world t4)" "held s (t_world t4) = h4"
    by (rule stageE [OF st(4) c3(3,4)])
  obtain x5 t5 where c5: "captures (capture io outDir ''credential-management.txt'' (credentialManagement s io)) t4 ''credential-management.txt'' x5 t5"
    "management_shown tt x5" "world_ok s io (t_world t5)" "held s (t_world t5) = h4"
    by (rule stageE [OF st(5) c4(3,4)])
  obtain x6 t6 where c6: "captures (capture io outDir ''uv-override.txt'' (uvOverride s io)) t5 ''uv-override.txt'' x6 t6"
    "override_shown x6" "world_ok s io (t_world t6)" "held s (t_world t6) = tour_holds"
    by (rule stageE [OF st(6) c5(3,4)])
  have "\<exists>t'. demodata_main s io t = (Inr (), t') \<and> t_world t' = t_world t6 \<and> t_files t' = t_files t @
      map (\<lambda>(name, x). (outDir @ ''/'' @ name, x)) [(''rs256-ceremony.txt'', x1), (''eddsa-ceremony.txt'', x2),
        (''packed-self.txt'', x3), (''packed-full.txt'', x4), (''credential-management.txt'', x5), (''uv-override.txt'', x6)]"
    using c1(1) c2(1) c3(1) c4(1) c5(1) c6(1) files(1)
    by (simp add: demodata_main_def captures_def bindS_def liftS_def)
  then show ?thesis
    using c1(2) c2(2) c3(2) c4(2) c5(2) c6(2-4) by (fastforce simp: tour_text_def outDir_def)
qed

end
