(* ===== verification/Demodata_Example.thy ===== *)
theory Demodata_Example
  imports Demodata_Tour
begin

text \<open>
  The run at which the properties of \<open>tools/demodata\<close> are applied.
\<close>

text \<open>
  A server and key generators at which the tool runs.  The schemes are the simplest correct
  ones: an ECDSA or RSA signature is the digest (its first 32 bytes), a certificate stands for the base point of
  the curve.
\<close>

definition tour_point :: "int \<times> int" where
  "tour_point =
     (0x6b17d1f2e12c4247f8bce6e563a440f277037d812deb33a0f4a13945d898c296,
      0x4fe342e2fe1a7f9b8ee7eb4a7c0f9e162bce33576b315ececbb6406837bf51f5)"

definition tour_crypto :: crypto where
  "tour_crypto = \<lparr>ecdsa_VerifyASN1 = (\<lambda>c x y d s. s = take 32 d), rsa_VerifyPKCS1v15 = (\<lambda>n e d s. s = d),
     ed25519_Verify = (\<lambda>k m s. s = k @ m),
     ParseCertificate = (\<lambda>der. Some (EcdsaKey P256 (fst tour_point) (snd tour_point)))\<rparr>"

definition tour_signing :: signing where
  "tour_signing = \<lparr>ecdsa_SignASN1 = (\<lambda>k d. Some (take 32 d)), rsa_SignPKCS1v15 = (\<lambda>k d. Some d),
     ed25519_Sign = (\<lambda>k m. k @ m), x509_SelfSigned = (\<lambda>k. Some [])\<rparr>"

definition tour_keys :: key_source where
  "tour_keys = \<lparr>rand_aaguid = Some (replicate 16 0),
     ecdsa_GenerateKey = Some \<lparr>ec_Curve = P256, ec_X = fst tour_point, ec_Y = snd tour_point, ec_D = 1\<rparr>,
     rsa_GenerateKey = (\<lambda>_. Some \<lparr>rsa_N = 2 ^ 2047, rsa_E = 65537, rsa_D = 1\<rparr>),
     ed25519_GenerateKey = Some (demo_key, demo_key)\<rparr>"

definition tour_server :: Server where
  "tour_server = demo_server\<lparr>
     srv_Registrar := \<lparr>reg_Origins = NewOriginAllowlist [base], reg_Store = sample_store, reg_RPID = rp_id, reg_UVPolicy = UVPreferred\<rparr>,
     srv_Authenticator := \<lparr>auth_Origins = NewOriginAllowlist [base], auth_Store = sample_store, auth_RPID = rp_id, auth_UVPolicy = UVPreferred\<rparr>,
     srv_RPID := rp_id\<rparr>"

definition tour_io :: tool_io where
  "tour_io = \<lparr>io_env = (\<lambda>n. (demo_env second (of_nat n))\<lparr>env_crypto := tour_crypto\<rparr>), io_link = (\<lambda>_. Delivered),
     io_keys = (\<lambda>_. tour_keys), io_signing = tour_signing, io_float = Some, io_path = (\<lambda>_. None), io_mkdir = True,
     io_write = (\<lambda>_. True)\<rparr>"

definition tour_start :: tool where
  "tour_start = \<lparr>t_world = demo_world, t_requests = 0, t_keys = 0, t_buf = [], t_files = [], t_stdout = []\<rparr>"

lemma tour_point_on_curve: "on_curve P256 (fst tour_point) (snd tour_point)"
  by (simp add: on_curve_def tour_point_def)

lemma tour_keys_ok: "key_source_ok tour_keys"
proof -
  have "(2 :: int) ^ 2047 < 2 ^ 2048" by (rule power_strict_increasing) simp_all
  moreover have "65537 < (2 :: int) ^ 31" by simp
  ultimately show ?thesis using tour_point_on_curve by (simp add: key_source_ok_def tour_keys_def demo_key_def del: power_numeral)
qed

lemma tour_keys_work:
  "alg \<in> {AlgES256, AlgRS256, AlgEdDSA} \<Longrightarrow> \<exists>v. New tour_keys alg [] = Inr v"
  by (auto simp: New_def new_keys_def tour_keys_def Let_def)

lemma tour_signs: "New tour_keys alg [] = Inr v \<Longrightarrow> signing_correct tour_crypto tour_signing v"
  by (auto simp: New_def new_keys_def tour_keys_def Let_def signing_correct_def v_sign_def v_PublicKey_def signature_valid_def
      tour_crypto_def tour_signing_def AlgES256_def AlgRS256_def AlgEdDSA_def split: if_splits)

lemma tour_certifies: "certificates_correct tour_crypto tour_keys tour_signing"
  by (auto simp: certificates_correct_def tour_crypto_def tour_signing_def signature_valid_def)

lemma tour_ok: "tool_ok tour_crypto decimal_text tour_server tour_io"
proof -
  have "coerceString base = base" by (simp add: base_def ascii_eval)
  then have "server_fits tour_server"
    by (simp add: server_fits_def server_wf_def server_ok_def tour_server_def demo_server_def NewOriginAllowlist_def valid_policy_def)
  moreover have "network_fits tour_crypto decimal_text tour_server tour_io"
    by (simp add: network_fits_def float_ok_def decimal_text_ok tour_io_def env_works_def demo_env_def demo_io_ok
        json_time_ok_def second_def ChallengeTTL_def tour_server_def demo_server_def)
  moreover have "keys_fit tour_crypto tour_io"
    using tour_keys_ok tour_keys_work tour_signs tour_certifies
    by (simp add: keys_fit_def tour_io_def) (simp add: tour_signing_def min_def)
  ultimately show ?thesis by (simp add: tool_ok_def)
qed

lemma tour_start_ok:
  "world_ok tour_server tour_io (t_world tour_start)" "held tour_server (t_world tour_start) = Map.empty"
  "t_files tour_start = []" "t_buf tour_start = []" "io_mkdir tour_io" "\<forall>path. io_write tour_io path"
proof -
  have e: "env_ok tour_server demo_world (io_env tour_io n)" for n
    using demo_env_ok(1) [of second "of_nat n"] by (simp add: env_ok_def tour_io_def tour_server_def demo_server_def demo_env_def)
  show "world_ok tour_server tour_io (t_world tour_start)"
    using e demo_world_ok by (simp add: world_ok_def tour_start_def tour_server_def demo_server_def NewChallengeStore_def)
  show "held tour_server (t_world tour_start) = Map.empty"
    using demo_world_ok(2) by (simp add: fun_eq_iff tour_start_def tour_server_def demo_server_def)
qed (simp_all add: tour_start_def tour_io_def)

end
