(* ===== verification/Spec2Isabelle.thy ===== *)
theory Spec2Isabelle
  imports Concurrent_Flow Startup Cbor_Truncated Cbor_Loops Demodata_Example
begin

text \<open>
  A verification development for Vouchsafe, a WebAuthn (passkey) relying-party server in Go
  that uses the standard library only.

  The program.  \<open>cmd/vouchsafe/main.go\<close> reads flags, opens the credential file, loads or makes
  the session key and serves \<open>internal/httpapi\<close>.  A client registers a passkey by
  \<open>POST /register/begin\<close>, which draws a challenge, and \<open>POST /register/finish\<close>, which hands the
  authenticator's answer to \<open>Registrar.Register\<close>; it logs in by \<open>/login/begin\<close> and
  \<open>/login/finish\<close>, which hands the assertion to \<open>Authenticator.Login\<close> and answers with a session
  token; the token lists and deletes the user's credentials.  Both ceremonies consume the
  challenge, parse CBOR, COSE keys and authenticatorData, check origin, relying party and
  flags, verify a signature, and then write the credential file.

  The state is \<open>world\<close> (\<open>Ceremony\<close>): the pending challenges and the file system.  A Go function
  that can fail is a function into \<open>error + value\<close>; one that also changes state is an \<open>op\<close>, from a
  state to a result and the state that it leaves behind, in its failures too (\<open>Prelude\<close>).
  Clock, random source, failing system calls and the order of a map iteration are arguments,
  so every theorem holds for all of them.

  The theories, with the code that they model:

  \<^item> \<open>Cbor\<close>: \<open>internal/cbor/decode.go\<close>, with 64-bit arguments as words; \<open>Cbor_Encode\<close>:
    \<open>internal/cbortest/encode.go\<close>; \<open>Cbor_Correct\<close>: the decoder accepts exactly the canonical
    encodings within its limits; \<open>Cbor_Truncated\<close>: cut input is reported as cut.
  \<^item> \<open>Authdata\<close>: \<open>internal/authdata/parse.go\<close>; \<open>Cose\<close>: \<open>internal/cose/key.go\<close>; \<open>Policy\<close>:
    \<open>internal/policy\<close>; each with its accept-exactly theorem.
  \<^item> \<open>Challenge\<close>: \<open>internal/ceremony/challenge.go\<close> as a state machine, its contract as the locale
    \<open>one_time_challenges\<close>, interpreted on the operations of the code.
  \<^item> \<open>Store\<close>: \<open>internal/store/file.go\<close> over a file system whose calls can fail; \<open>Store_Correct\<close>:
    the refinement of a map from ID to credential and crashes inside a save; \<open>Store_Contract\<close>:
    the locale \<open>credential_store\<close> and its interpretation on the file-backed store.
  \<^item> \<open>Base64\<close>, \<open>Utf8\<close>, \<open>Json\<close>, \<open>Json_Correct\<close>, \<open>Sha256\<close>, \<open>Url\<close>: what the program uses of Go's
    standard library, written out (base64 with and without padding, UTF-8 repair, the JSON
    scanner and encoder, SHA-256 and HMAC, and the host of a URL).
  \<^item> \<open>Session\<close>: \<open>internal/session/token.go\<close>.
  \<^item> \<open>Ceremony\<close>: \<open>register.go\<close>, \<open>attestation.go\<close> and \<open>login.go\<close> of \<open>internal/ceremony\<close>; \<open>Ceremony_Correct\<close>:
    soundness and completeness of both, on the contracts of the two stores.
  \<^item> \<open>Virtualauth\<close>: \<open>internal/webauthntest/virtualauth.go\<close>; \<open>Virtual_Correct\<close>: what it builds parses
    to what it was built from; \<open>End_To_End\<close>: its registrations and logins are accepted.
  \<^item> \<open>Httpapi\<close>: \<open>internal/httpapi/api.go\<close> and \<open>page.go\<close>; \<open>Httpapi_Correct\<close>: the outcomes of each handler;
    \<open>Server_Run\<close>: histories of requests and their invariants; \<open>Http_Flow\<close>: the passkey flow over
    the four endpoints.
  \<^item> \<open>Sections\<close>: each handler cut at the locks that it takes, as a program of atomic sections;
    \<open>Interleaving\<close>: threads that run such programs; \<open>Concurrent\<close>: what every interleaving of
    requests keeps; \<open>Concurrent_Flow\<close>: two logins under one credential.  \<open>Cbor_Loops\<close>: the loops of
    the decoder end with the input.
  \<^item> \<open>Serve\<close>: flags, session key file and wiring of \<open>cmd/vouchsafe/main.go\<close> (\<open>setupServer\<close> is \<open>runServe\<close> up
    to the finished server); \<open>Startup\<close>: the rest of \<open>runServe\<close>, the certificate of \<open>--tls\<close> and \<open>main\<close>.
  \<^item> \<open>Json_Any\<close>: JSON read into and written from values of any type, as the client does it;
    \<open>Json_Nested\<close>: nested text reads back.  \<open>Demodata\<close>: \<open>tools/demodata/main.go\<close>, the client that
    drives a server through its features; \<open>Demodata_Correct\<close>: the bodies that it sends and reads;
    \<open>Demodata_Run\<close> and \<open>Demodata_Steps\<close>: each of its requests; \<open>Demodata_Tour\<close>: its six captures and the
    whole program; \<open>Demodata_Example\<close>: a concrete run.

  The names are those of the code.  A name that two packages share has the package or an
  initial before it (\<open>cose_Parse\<close>, \<open>session_Issue\<close>, \<open>v_Register\<close>), record fields likewise.  A long
  function is cut where its parts have a meaning of their own: \<open>checkClientData\<close>,
  \<open>checkAuthData\<close>, \<open>checkAttestation\<close> and \<open>checkAssertion\<close> are consecutive parts of \<open>Register\<close> and
  \<open>Login\<close>, and \<open>Login_checks\<close> and \<open>Login_commit\<close> are the two sides of the point where \<open>Login\<close> has
  released the lock of the store.

  Bounds.  No definition takes fuel.  \<open>decodeValue\<close> recurses on the distance to \<open>MaxDepth\<close>, the
  loops over items on their count, and the scanners on the input that is left, so every
  function is total.  Lengths, counters and CBOR arguments keep their 32 or 64 bits; times are
  nanoseconds in unbounded integers, where Go's \<open>time.Time\<close> does not overflow either.

  Parameters, and what is assumed of them.  \<open>crypto\<close> holds the signature checks and the
  certificate parser of the standard library and \<open>signing\<close> its key generators and signers; only
  the liveness theorems assume anything of them, namely that a signature verifies under its
  own key (\<open>signing_correct\<close>, and \<open>certificates_correct\<close> for a certificate).  \<open>time_text\<close> is the RFC 3339 text of a
  time, of which the round trip of tokens assumes that reading inverts writing.
  \<open>html/template\<close>, the case table of Unicode and the reordering of a map iteration are functions.
  Each theorem with such a hypothesis has a witness at concrete functions, for which the
  virtual authenticator and a server are run from the empty store (\<open>Http_Flow\<close>).

  The properties, from the whole to the parts: a token traces back to a challenge and a
  registration, soundness and completeness of the two ceremonies, single use of challenges,
  what changes the store and who may do so, what a response tells, the honest flow to its
  end, by one user and by the demo tool; requests that run at the same time; the round trips
  between the virtual authenticator and the parsers; start-up and restart; and the exact behaviour of each parser, of the two stores and of the tokens.

  Requests.  A request runs to its end before the next begins in \<open>Server_Run\<close>.  In \<open>Concurrent\<close> any
  number of them interleave at the points where a handler holds no lock; a section under the
  mutex of a store is one step, which is what the mutex guarantees.

  Not modelled.  The TLS handshake, the network and HTTP framing (a request is its method, its
  unescaped path segments, its \<open>Authorization\<close> header and its body), so that a process that
  listens is where \<open>main\<close> ends; the text of error messages behind a sentinel error and of log
  lines; the Windows branch of \<open>store.Open\<close>; the zones of \<open>time.Time\<close>; the template of the demo
  page, which \<open>html/template\<close> renders.  Certificates whose key is of another kind or curve than
  those of \<open>PublicKey\<close> count as having an unsupported key.
\<close>

section \<open>The ceremonies\<close>

text \<open>
  C2: A login succeeds only if every check of WebAuthn holds: the clientDataJSON is an
  assertion for an allowed origin, its challenge is the one pending for the request's user
  and is not expired, the credential is stored, the authenticatorData names this relying
  party with the user present (and verified, if the server or the request asks for it), the
  stored key verifies the signature under its stored algorithm over both, and the counter
  did not fall.  Then the identity is the stored credential's owner, the challenge is used
  up, and in the whole store only that credential's counter changed.
\<close>

theorem login_sound:
  assumes "store_ok (auth_Store a) (disk w)" and "io_ok (auth_Store a) (disk w) io"
    and "io_ok (auth_Store a) (disk w) io'" and "Login cr io io' a req w = (Inr res, w')"
  shows "\<exists>chal cred ad key.
    client_data_ok ''webauthn.get'' (auth_Origins a) (ar_ClientDataJSON req) chal \<and>
    redeemable (ar_Username req, PurposeLogin) chal (wallClock io) (challenges w) \<and>
    store_view (auth_Store a) (disk w) (ar_CredentialID req) = Some cred \<and>
    authdata_accepts (auth_RPID a) (auth_UVPolicy a) (ar_UVOverride req) (ar_AuthenticatorData req) ad \<and>
    stored_key cred key \<and>
    signature_valid cr (cred_Algorithm cred) (Public key)
      (ar_AuthenticatorData req @ sha256 (ar_ClientDataJSON req)) (ar_Signature req) \<and>
    counter_ok (cred_SignCount cred) (SignCount ad) \<and>
    res = \<lparr>result_Username = cred_Username cred, result_UVPerformed = UV ad\<rparr> \<and>
    challenges w' = consumed_state (ar_Username req, PurposeLogin) chal (wallClock io) (challenges w) \<and>
    store_ok (auth_Store a) (disk w') \<and>
    store_view (auth_Store a) (disk w') =
      (store_view (auth_Store a) (disk w))(ar_CredentialID req \<mapsto> cred\<lparr>cred_SignCount := SignCount ad\<rparr>)"
  using Login_Inr [OF assms] unfolding login_accepts_def by blast

theorem login_sound_witness:
  "\<exists>(req :: AssertionRequest) (w :: world) cred (ad :: AuthData) key.
    store_view sample_store (disk w) (ar_CredentialID req) = Some cred \<and>
    cred_Username cred = demo_user \<and> stored_key cred key \<and>
    signature_valid demo_crypto (cred_Algorithm cred) (Public key)
      (ar_AuthenticatorData req @ sha256 (ar_ClientDataJSON req)) (ar_Signature req) \<and>
    counter_ok (cred_SignCount cred) (SignCount ad)"
proof -
  obtain w1 ar w2 where ok: "store_ok sample_store (disk w1)" "\<forall>t. io_ok sample_store (disk w1) (demo_io t)"
    and run: "Login demo_crypto (demo_io (3 * second)) (demo_io (3 * second)) demo_authenticator
      (assertion_request demo_user [] ar) (demo_challenge w1) =
      (Inr \<lparr>result_Username = demo_user, result_UVPerformed = True\<rparr>, w2)"
    using demo_ceremonies by blast
  have d: "disk (demo_challenge w1) = disk w1" "auth_Store demo_authenticator = sample_store"
    by (simp_all add: demo_challenge_def demo_authenticator_def)
  from login_sound [OF _ _ _ run, unfolded d, OF ok(1) ok(2) [rule_format] ok(2) [rule_format]]
  obtain cred key and ad :: AuthData where h: "store_view sample_store (disk w1) (ar_CredentialID (assertion_request demo_user [] ar)) = Some cred"
      "stored_key cred key" "signature_valid demo_crypto (cred_Algorithm cred) (Public key)
        (ar_AuthenticatorData (assertion_request demo_user [] ar) @
          sha256 (ar_ClientDataJSON (assertion_request demo_user [] ar))) (ar_Signature (assertion_request demo_user [] ar))"
      "counter_ok (cred_SignCount cred) (SignCount ad)"
      "\<lparr>result_Username = demo_user, result_UVPerformed = True\<rparr> =
        \<lparr>result_Username = cred_Username cred, result_UVPerformed = UV ad\<rparr>" by blast
  moreover from h(5) have "cred_Username cred = demo_user" by simp
  ultimately show ?thesis by blast
qed

text \<open>
  C10: On a working disk these conditions are also enough: a login that satisfies them is
  accepted, and yields the owner of the credential and whether the user was verified.
\<close>

theorem login_complete:
  assumes "store_ok (auth_Store a) (disk w)" and "io_ok (auth_Store a) (disk w) io"
    and "io_ok (auth_Store a) (disk w) io'" and "no_failures io" and "no_failures io'"
    and "client_data_ok ''webauthn.get'' (auth_Origins a) (ar_ClientDataJSON req) chal"
    and "redeemable (ar_Username req, PurposeLogin) chal (wallClock io) (challenges w)"
    and "store_view (auth_Store a) (disk w) (ar_CredentialID req) = Some cred"
    and "authdata_accepts (auth_RPID a) (auth_UVPolicy a) (ar_UVOverride req) (ar_AuthenticatorData req) ad"
    and "stored_key cred key" and "signature_valid cr (cred_Algorithm cred) (Public key)
      (ar_AuthenticatorData req @ sha256 (ar_ClientDataJSON req)) (ar_Signature req)"
    and "counter_ok (cred_SignCount cred) (SignCount ad)"
  shows "\<exists>w'. Login cr io io' a req w =
    (Inr \<lparr>result_Username = cred_Username cred, result_UVPerformed = UV ad\<rparr>, w')"
proof -
  have "login_accepts cr a req (wallClock io) w chal cred ad"
    using assms(6-12) unfolding login_accepts_def by blast
  from Login_complete [OF assms(1-5) this] show ?thesis by blast
qed

theorem login_complete_witness:
  "\<exists>req w w' (cred :: Credential). Login demo_crypto (demo_io (3 * second)) (demo_io (3 * second)) demo_authenticator req w =
    (Inr \<lparr>result_Username = cred_Username cred, result_UVPerformed = True\<rparr>, w')"
proof -
  obtain w1 ar w2 where ok: "store_ok sample_store (disk w1)" "\<forall>t. io_ok sample_store (disk w1) (demo_io t)"
    and run: "Login demo_crypto (demo_io (3 * second)) (demo_io (3 * second)) demo_authenticator
      (assertion_request demo_user [] ar) (demo_challenge w1) =
      (Inr \<lparr>result_Username = demo_user, result_UVPerformed = True\<rparr>, w2)"
    using demo_ceremonies by blast
  have st: "store_ok (auth_Store demo_authenticator) (disk (demo_challenge w1))"
      "io_ok (auth_Store demo_authenticator) (disk (demo_challenge w1)) (demo_io (3 * second))"
    using ok by (simp_all add: demo_challenge_def demo_authenticator_def)
  obtain chal cred ad where acc: "login_accepts demo_crypto demo_authenticator (assertion_request demo_user [] ar)
        (wallClock (demo_io (3 * second))) (demo_challenge w1) chal cred ad"
      "\<lparr>result_Username = demo_user, result_UVPerformed = True\<rparr> =
        \<lparr>result_Username = cred_Username cred, result_UVPerformed = UV ad\<rparr>"
    using Login_Inr [OF st(1,2,2) run] by blast
  then obtain key where key: "stored_key cred key" "signature_valid demo_crypto (cred_Algorithm cred) (Public key)
        (ar_AuthenticatorData (assertion_request demo_user [] ar) @
          sha256 (ar_ClientDataJSON (assertion_request demo_user [] ar))) (ar_Signature (assertion_request demo_user [] ar))"
    unfolding login_accepts_def by blast
  note c = acc(1) [unfolded login_accepts_def]
  have "UV ad" using acc(2) by simp
  then show ?thesis
    using login_complete [OF st(1,2,2) demo_io_ok(2,2) c [THEN conjunct1] c [THEN conjunct2, THEN conjunct1]
      c [THEN conjunct2, THEN conjunct2, THEN conjunct1]
      c [THEN conjunct2, THEN conjunct2, THEN conjunct2, THEN conjunct1] key
      c [THEN conjunct2, THEN conjunct2, THEN conjunct2, THEN conjunct2, THEN conjunct2]]
    by auto
qed

text \<open>
  C11: A challenge serves one attempt: after a login request was processed, with whatever
  result, the same request is refused in every later state whose challenges are those that
  the attempt left behind.
\<close>

theorem login_replay_refused:
  assumes "Login cr io io' a req w = (r, w')" and "challenges w2 = challenges w'"
  shows "\<exists>e. fst (Login cr2 io2 io2' a req w2) = Inl e"
  using assms by (rule Login_replay)

theorem login_replay_refused_witness:
  "\<exists>req w w' res e. Login demo_crypto (demo_io (3 * second)) (demo_io (3 * second)) demo_authenticator req w = (Inr res, w') \<and>
    fst (Login demo_crypto (demo_io (3 * second)) (demo_io (3 * second)) demo_authenticator req w') = Inl e"
proof -
  obtain req w w' res where run:
      "Login demo_crypto (demo_io (3 * second)) (demo_io (3 * second)) demo_authenticator req w = (Inr res, w')"
    using demo_ceremonies by blast
  from login_replay_refused [OF run refl] show ?thesis using run by blast
qed

text \<open>
  C12: A login that fails, at whatever check or system call, leaves the credential file as it
  was, byte for byte: no counter moves.
\<close>

theorem failed_login_changes_no_credential:
  assumes "store_ok (auth_Store a) (disk w)" and "io_ok (auth_Store a) (disk w) io'"
    and "Login cr io io' a req w = (Inl e, w')"
  shows "disk w' (store_path (auth_Store a)) = disk w (store_path (auth_Store a))"
  using assms by (rule Login_Inl)

theorem failed_login_changes_no_credential_witness:
  "\<exists>w' e. Login demo_crypto (demo_io 0) (demo_io 0) demo_authenticator
      \<lparr>ar_Username = demo_user, ar_CredentialID = [], ar_ClientDataJSON = [], ar_AuthenticatorData = [],
        ar_Signature = [], ar_UVOverride = []\<rparr> demo_world = (Inl e, w') \<and> disk w' ''vouchsafe.json'' = None"
proof -
  let ?req = "\<lparr>ar_Username = demo_user, ar_CredentialID = [], ar_ClientDataJSON = [], ar_AuthenticatorData = [],
        ar_Signature = [], ar_UVOverride = []\<rparr> :: AssertionRequest"
  have ok: "store_ok (auth_Store demo_authenticator) (disk demo_world)"
      "io_ok (auth_Store demo_authenticator) (disk demo_world) (demo_io 0)"
    by (simp_all add: demo_authenticator_def demo_world_def sample_ok demo_io_ok)
  have "Login demo_crypto (demo_io 0) (demo_io 0) demo_authenticator ?req demo_world =
      (Inl MalformedClientData, demo_world)"
    by (simp add: Login_def Login_checks_def checkClientData_def result_simps Unmarshal_clientData_def
        Unmarshal_def parse_json_def scan_value.simps skipSpace_def)
  from failed_login_changes_no_credential [OF ok this] this show ?thesis
    by (auto simp: demo_world_def demo_authenticator_def sample_store_def)
qed

text \<open>
  C3: A registration succeeds only if the clientDataJSON is a creation for an allowed origin
  with the pending challenge, the attestation object holds authenticatorData for this relying
  party with the user present (and verified where asked for), the attested key is a usable
  COSE key, the attestation statement proves what its format asks for, and the credential
  ID is new.  Then exactly one credential is added, with the attested ID and key, the
  key's algorithm, the received counter and the request's user.
\<close>

theorem registration_sound:
  assumes "store_ok (reg_Store r) (disk w)" and "io_ok (reg_Store r) (disk w) io"
    and "Register cr io r req w = (Inr u, w')"
  shows "\<exists>chal fmt attStmt raw ad at key.
    client_data_ok ''webauthn.create'' (reg_Origins r) (rr_ClientDataJSON req) chal \<and>
    redeemable (rr_Username req, PurposeRegister) chal (wallClock io) (challenges w) \<and>
    attestation_object (rr_AttestationObject req) fmt attStmt raw \<and>
    authdata_accepts (reg_RPID r) (reg_UVPolicy r) (rr_UVOverride req) raw ad \<and>
    Attested ad = Some at \<and> cose_Parse (CredentialPublicKey at) = Inr key \<and>
    attestation_ok cr fmt attStmt (raw @ sha256 (rr_ClientDataJSON req)) key \<and>
    challenges w' = consumed_state (rr_Username req, PurposeRegister) chal (wallClock io) (challenges w) \<and>
    store_ok (reg_Store r) (disk w') \<and>
    store_view (reg_Store r) (disk w) (CredentialID at) = None \<and>
    store_view (reg_Store r) (disk w') = (store_view (reg_Store r) (disk w))
      (CredentialID at \<mapsto> stamped io \<lparr>cred_ID = CredentialID at, cred_Username = rr_Username req,
         cred_PublicKey = CredentialPublicKeyRaw at, cred_Algorithm = Alg key,
         cred_SignCount = SignCount ad, cred_AAGUID = AAGUID at, cred_CreatedAt = wallClock io,
         cred_Nickname = rr_Nickname req\<rparr>)"
  using Register_Inr [OF assms] unfolding register_accepts_def new_credential_def by fast

theorem registration_sound_witness:
  "\<exists>(req :: RegistrationRequest) fmt attStmt raw ad at key.
    attestation_object (rr_AttestationObject req) fmt attStmt raw \<and>
    authdata_accepts ''example.com'' UVPreferred [] raw ad \<and>
    Attested ad = Some at \<and> cose_Parse (CredentialPublicKey at) = Inr key"
proof -
  obtain rr w1 where run: "Register demo_crypto (demo_io second) demo_registrar
      (registration_request demo_user [] [] rr) demo_start = (Inr (), w1)"
    using demo_ceremonies by blast
  have d: "store_ok (reg_Store demo_registrar) (disk demo_start)"
      "io_ok (reg_Store demo_registrar) (disk demo_start) (demo_io second)"
    by (simp_all add: demo_disk demo_registrar_def sample_ok demo_io_ok)
  have c: "reg_RPID demo_registrar = ''example.com''" "reg_UVPolicy demo_registrar = UVPreferred"
      "rr_UVOverride (registration_request demo_user [] [] rr) = []"
    by (simp_all add: demo_registrar_def registration_request_def)
  from registration_sound [OF d run] show ?thesis unfolding c by blast
qed

text \<open>
  C13: On a working disk every registration that satisfies these conditions is accepted.
\<close>

theorem registration_complete:
  assumes "store_ok (reg_Store r) (disk w)" and "io_ok (reg_Store r) (disk w) io"
    and "no_failures io" and "json_time_ok (wallClock io)"
    and "client_data_ok ''webauthn.create'' (reg_Origins r) (rr_ClientDataJSON req) chal"
    and "redeemable (rr_Username req, PurposeRegister) chal (wallClock io) (challenges w)"
    and "attestation_object (rr_AttestationObject req) fmt attStmt raw"
    and "authdata_accepts (reg_RPID r) (reg_UVPolicy r) (rr_UVOverride req) raw ad"
    and "Attested ad = Some at" and "cose_Parse (CredentialPublicKey at) = Inr key"
    and "attestation_ok cr fmt attStmt (raw @ sha256 (rr_ClientDataJSON req)) key"
    and "store_view (reg_Store r) (disk w) (CredentialID at) = None"
  shows "\<exists>w'. Register cr io r req w = (Inr (), w')"
proof -
  have "register_accepts cr r req (wallClock io) w chal ad at key"
    using assms(5-11) unfolding register_accepts_def by blast
  from Register_complete [OF assms(1-4) this assms(12)] show ?thesis by blast
qed

theorem registration_complete_witness:
  "\<exists>req w'. Register demo_crypto (demo_io second) demo_registrar req demo_start = (Inr (), w')"
proof -
  obtain rr w1 where run: "Register demo_crypto (demo_io second) demo_registrar
      (registration_request demo_user [] [] rr) demo_start = (Inr (), w1)"
    using demo_ceremonies by blast
  have d: "store_ok (reg_Store demo_registrar) (disk demo_start)"
      "io_ok (reg_Store demo_registrar) (disk demo_start) (demo_io second)" "json_time_ok (wallClock (demo_io second))"
    by (simp_all add: demo_disk demo_registrar_def sample_ok demo_io_ok json_time_ok_def second_def)
  obtain chal ad at key where acc: "register_accepts demo_crypto demo_registrar (registration_request demo_user [] [] rr)
        (wallClock (demo_io second)) demo_start chal ad at key"
      "store_view (reg_Store demo_registrar) (disk demo_start) (CredentialID at) = None"
    using Register_Inr [OF d(1,2) run] by blast
  then obtain fmt attStmt raw where att: "attestation_object (rr_AttestationObject (registration_request demo_user [] [] rr)) fmt attStmt raw"
      "authdata_accepts (reg_RPID demo_registrar) (reg_UVPolicy demo_registrar)
        (rr_UVOverride (registration_request demo_user [] [] rr)) raw ad"
      "attestation_ok demo_crypto fmt attStmt
        (raw @ sha256 (rr_ClientDataJSON (registration_request demo_user [] [] rr))) key"
    unfolding register_accepts_def by blast
  note c = acc(1) [unfolded register_accepts_def]
  from registration_complete [OF d(1,2) demo_io_ok(2) d(3) c [THEN conjunct1] c [THEN conjunct2, THEN conjunct1]
      att(1,2) c [THEN conjunct2, THEN conjunct2, THEN conjunct2, THEN conjunct1]
      c [THEN conjunct2, THEN conjunct2, THEN conjunct2, THEN conjunct2] att(3) acc(2)]
  show ?thesis by blast
qed

text \<open>
  A registration that fails, at whatever check or system call, leaves the credential
  file as it was.
\<close>

theorem failed_registration_changes_no_credential:
  assumes "store_ok (reg_Store r) (disk w)" and "io_ok (reg_Store r) (disk w) io"
    and "Register cr io r req w = (Inl e, w')"
  shows "disk w' (store_path (reg_Store r)) = disk w (store_path (reg_Store r))"
  using assms by (rule Register_Inl)

theorem failed_registration_changes_no_credential_witness:
  "\<exists>w' e. Register demo_crypto (demo_io 0) demo_registrar
      \<lparr>rr_Username = demo_user, rr_CredentialID = [], rr_ClientDataJSON = [], rr_AttestationObject = [],
        rr_UVOverride = [], rr_Nickname = []\<rparr> demo_world = (Inl e, w') \<and> disk w' ''vouchsafe.json'' = None"
proof -
  let ?req = "\<lparr>rr_Username = demo_user, rr_CredentialID = [], rr_ClientDataJSON = [], rr_AttestationObject = [],
        rr_UVOverride = [], rr_Nickname = []\<rparr> :: RegistrationRequest"
  have ok: "store_ok (reg_Store demo_registrar) (disk demo_world)"
      "io_ok (reg_Store demo_registrar) (disk demo_world) (demo_io 0)"
    by (simp_all add: demo_registrar_def demo_world_def sample_ok demo_io_ok)
  have "Register demo_crypto (demo_io 0) demo_registrar ?req demo_world = (Inl MalformedClientData, demo_world)"
    by (simp add: Register_def checkClientData_def result_simps Unmarshal_clientData_def
        Unmarshal_def parse_json_def scan_value.simps skipSpace_def)
  from failed_registration_changes_no_credential [OF ok this] this show ?thesis
    by (auto simp: demo_world_def demo_registrar_def sample_store_def)
qed

section \<open>The virtual authenticator\<close>

text \<open>
  C18: \<open>New\<close> builds a consistent authenticator for each of the three algorithms, and for no
  other one: a key of the kind that goes with the algorithm, a 16-byte AAGUID, and a
  counter that starts at 1, or at 0 for good with \<open>WithZeroCounter\<close>.
\<close>

theorem New_is_consistent:
  assumes "key_source_ok g" and "set opts \<subseteq> {WithZeroCounter}" and "New g alg opts = Inr v"
  shows "v_good v \<and> v_Alg v = alg \<and> alg \<in> {AlgES256, AlgRS256, AlgEdDSA} \<and>
    (v_zeroCounter v \<longleftrightarrow> opts \<noteq> []) \<and> v_signCount v = (if opts = [] then 1 else 0)"
  using assms by (rule New_good)

theorem New_is_consistent_witness:
  "\<exists>v. v_good v \<and> v_Alg v = AlgEdDSA \<and> v_zeroCounter v \<and> v_signCount v = 0"
proof -
  let ?g = "\<lparr>rand_aaguid = Some (replicate 16 0), ecdsa_GenerateKey = None, rsa_GenerateKey = (\<lambda>_. None),
    ed25519_GenerateKey = Some (demo_key, demo_key)\<rparr> :: key_source"
  have "key_source_ok ?g" by (simp add: key_source_ok_def demo_key_def)
  moreover have "\<exists>v. New ?g AlgEdDSA [WithZeroCounter] = Inr v"
    by (simp add: New_def new_keys_def Let_def)
  ultimately show ?thesis using New_is_consistent [of ?g "[WithZeroCounter]" AlgEdDSA] by auto
qed

text \<open>
  C17: The encoders and the server's parsers are inverse: the COSE key of a consistent
  authenticator decodes and parses to its public key and algorithm, whatever follows it.
\<close>

theorem cose_key_roundtrip:
  assumes "v_good v"
  shows "\<exists>b x. encodePublicKey v = Some b \<and>
    (length (b @ rest) \<le> MaxInputSize \<longrightarrow> Decode (b @ rest) = Inr (x, length b)) \<and>
    cose_Parse x = Inr \<lparr>Public = v_PublicKey v, Alg = v_Alg v\<rparr>"
  using encodePublicKey_good [OF assms] cose_value_good [OF assms] cose_Parse_good [OF assms]
    Decode_encode_value [of "cose_value v" rest] by auto

theorem cose_key_roundtrip_witness:
  "\<exists>b. encodePublicKey demo_v = Some b"
  using cose_key_roundtrip [OF demo_v_good, of "[]"] by blast

text \<open>
  C16: The authenticatorData of a registration and of a login parse to what they were built
  from: the hash of the RP ID, the flags, the counter after its advance, and the credential
  with its key.
\<close>

theorem authdata_roundtrip:
  assumes "v_good v" and "length credID < 2 ^ 16"
  shows "(\<exists>b ad at. buildAuthDataRegistration v rpID credID = Some b \<and> Parse b = Inr ad \<and>
      RPIDHash ad = sha256 (bytes_of_string rpID) \<and> SignCount ad = v_signCount v \<and> UP ad \<and> UV ad \<and> \<not> ED ad \<and>
      Attested ad = Some at \<and> AAGUID at = v_AAGUID v \<and> CredentialID at = credID \<and>
      encodePublicKey v = Some (CredentialPublicKeyRaw at) \<and>
      cose_Parse (CredentialPublicKey at) = Inr \<lparr>Public = v_PublicKey v, Alg = v_Alg v\<rparr>) \<and>
    (\<exists>b ad v'. buildAuthDataAssertion rpID v = (b, v') \<and> Parse b = Inr ad \<and>
      RPIDHash ad = sha256 (bytes_of_string rpID) \<and> SignCount ad = v_signCount v' \<and> UP ad \<and> UV ad \<and>
      \<not> AT ad \<and> \<not> ED ad \<and> v_signCount v' = (if v_zeroCounter v then v_signCount v else v_signCount v + 1))"
  using registration_layout [OF assms, of rpID] assertion_layout(1) [of rpID v] assertion_layout(2) [of _ rpID] encodePublicKey_good [OF assms(1)]
    cose_Parse_good [OF assms(1)]
  by (auto simp: registration_ad_def registration_at_def assertion_ad_def Let_def)

theorem authdata_roundtrip_witness:
  "\<exists>b ad. buildAuthDataRegistration demo_v ''example.com'' demo_credID = Some b \<and> Parse b = Inr ad"
  using authdata_roundtrip [OF demo_v_good, of demo_credID "''example.com''"] by (auto simp: demo_credID_def)

text \<open>
  The clientDataJSON that a client writes reads back as its type, origin (with malformed
  UTF-8 replaced) and challenge.
\<close>

theorem clientDataJSON_roundtrip:
  "\<exists>cd. Unmarshal_clientData (buildClientDataJSON typ origin chal) = Some cd \<and> cd_Type cd = coerceString typ \<and>
    cd_Origin cd = coerceString origin \<and> RawURLEncoding_DecodeString (cd_Challenge cd) = Some chal"
  using Unmarshal_buildClientDataJSON [of "typ" origin chal] by simp

text \<open>
  C15: Registration succeeds with each of the three attestations that the authenticator can
  make, \<open>none\<close>, \<open>packed\<close> self-signed and \<open>packed\<close> with a certificate, and stores its
  credential with its key, algorithm and counter.
\<close>

theorem every_attestation_registers:
  assumes "server_ok r a origin" and "v_good v" and "length credID < 2 ^ 16"
    and "ready_to_register r io u chal credID w" and "signing_correct cr sg v" and "certificates_correct cr g sg"
    and "Inr res \<in> {v_Register v (reg_RPID r) origin chal credID,
       v_RegisterPackedSelf sg v (reg_RPID r) origin chal credID,
       v_RegisterPackedFull g sg v (reg_RPID r) origin chal credID}"
    and "length (rres_AttestationObject res) \<le> MaxInputSize"
  shows "\<exists>w' cred. Register cr io r (registration_request u uv nick res) w = (Inr (), w') \<and>
    store_view (reg_Store r) (disk w') = (store_view (reg_Store r) (disk w))(credID \<mapsto> cred) \<and>
    cred_Username cred = coerceString u \<and> cred_Algorithm cred = v_Alg v \<and> cred_SignCount cred = v_signCount v \<and>
    encodePublicKey v = Some (cred_PublicKey cred)"
proof -
  consider "v_Register v (reg_RPID r) origin chal credID = Inr res"
    | "v_RegisterPackedSelf sg v (reg_RPID r) origin chal credID = Inr res"
    | "v_RegisterPackedFull g sg v (reg_RPID r) origin chal credID = Inr res"
    using assms(7) by auto
  then have "registers cr io r (registration_request u uv nick res) chal w (registered io u nick v (reg_RPID r) credID)"
    using none_registers [OF assms(1-4)] packed_self_registers [OF assms(1-5) _ assms(8)]
      packed_full_registers [OF assms(1-4,6) _ assms(8)]
    by cases auto
  then show ?thesis
    using encodePublicKey_good [OF assms(2)]
    by (auto simp: registers_def registered_fields intro!: exI [of _ "registered io u nick v (reg_RPID r) credID"])
qed

theorem every_attestation_registers_witness:
  "\<exists>res w'. Register demo_crypto (demo_io second) demo_registrar (registration_request demo_user [] [] res) demo_start =
    (Inr (), w')"
proof -
  let ?g = "\<lparr>rand_aaguid = None, ecdsa_GenerateKey = None, rsa_GenerateKey = (\<lambda>_. None),
    ed25519_GenerateKey = None\<rparr> :: key_source"
  have c: "length demo_credID < 2 ^ 16" "certificates_correct demo_crypto ?g demo_signing"
    by (simp_all add: demo_credID_def certificates_correct_def)
  obtain b where b: "buildAuthDataRegistration demo_v (reg_RPID demo_registrar) demo_credID = Some b"
    using registration_layout(1) [OF demo_v_good c(1)] by blast
  obtain res where res: "v_Register demo_v (reg_RPID demo_registrar) demo_origin [1] demo_credID = Inr res"
      "rres_AttestationObject res = buildAttestationObjectNone b"
    by (simp add: v_Register_def b Let_def)
  have "length (buildAttestationObjectNone b) \<le> MaxInputSize"
    using length_att_value [of "''none''" "VMap []" b] att_size [OF demo_v_good c(1), of "reg_RPID demo_registrar"] b
      registration_layout(1) [OF demo_v_good c(1), of "reg_RPID demo_registrar"] length_encode_map [of "[]"]
    by (simp add: buildNone_value MaxInputSize_def del: encode_value.simps)
  then show ?thesis
    using every_attestation_registers [OF demo_server_ok(2) demo_v_good c(1) demo_ready demo_signing_correct c(2), of res "[]" "[]"]
      res by auto
qed

section \<open>The HTTP interface\<close>



text \<open>
  C7: The stored credentials change in three ways only: a request with an accepted
  registration adds one credential, a request with an accepted login moves one counter, and
  a request with a valid token deletes one credential of the token's owner.  Every other
  request, each failed one included, leaves them as they are.
\<close>

theorem changes_are_authorised:
  assumes "server_wf s" and "store_ok (srv_Store s) (disk w)" and "env_ok s w e"
    and "Routes s e r w = (rep, w')"
  shows "store_ok (srv_Store s) (disk w') \<and>
    (store_view (srv_Store s) (disk w') = store_view (srv_Store s) (disk w) \<or>
     (\<exists>q chal ad at key. asks_registration r q \<and>
        register_accepts (env_crypto e) (srv_Registrar s) q (wallClock (env_io e)) w chal ad at key \<and>
        store_view (srv_Store s) (disk w) (CredentialID at) = None \<and>
        store_view (srv_Store s) (disk w') = (store_view (srv_Store s) (disk w))(CredentialID at \<mapsto>
          stamped (env_io e) (new_credential (rr_Username q) (rr_Nickname q) ad at key (wallClock (env_io e))))) \<or>
     (\<exists>a chal cred ad. asks_login r a \<and>
        login_accepts (env_crypto e) (srv_Authenticator s) a (wallClock (env_io e)) w chal cred ad \<and>
        store_view (srv_Store s) (disk w') =
          (store_view (srv_Store s) (disk w))(ar_CredentialID a \<mapsto> cred\<lparr>cred_SignCount := SignCount ad\<rparr>)) \<or>
     (\<exists>claims i cred. authenticate s e r = Inr claims \<and> store_view (srv_Store s) (disk w) i = Some cred \<and>
        cred_Username cred = claims_Username claims \<and>
        store_view (srv_Store s) (disk w') = (store_view (srv_Store s) (disk w))(i := None)))"
  using Routes_changes [OF assms] unfolding authorised_change_def .

theorem changes_are_authorised_witness:
  "\<exists>rep w'. Routes demo_server (demo_env 0 1) \<lparr>http_Method = ''DELETE'', http_Path = [''credentials'', ''AQID''],
      http_Authorization = [], http_Body = []\<rparr> demo_world = (rep, w') \<and>
    store_view sample_store (disk w') = Map.empty"
proof -
  let ?r = "\<lparr>http_Method = ''DELETE'', http_Path = [''credentials'', ''AQID''], http_Authorization = [],
    http_Body = []\<rparr> :: request"
  obtain rep w' where run: "Routes demo_server (demo_env 0 1) ?r demo_world = (rep, w')"
    by (cases "Routes demo_server (demo_env 0 1) ?r demo_world")
  have "\<not> asks_registration ?r q" "\<not> asks_login ?r a" "authenticate demo_server (demo_env 0 1) ?r \<noteq> Inr claims" for q a claims
    by (simp_all add: asks_registration_def asks_login_def authenticate_def bearer_def Decoder_Decode_def
        parse_stream_def scan_value.simps skipSpace_def)
  then have "store_view (srv_Store demo_server) (disk w') = store_view (srv_Store demo_server) (disk demo_world)"
    using changes_are_authorised [OF demo_server_ok(1) demo_world_ok(1) demo_env_ok(1) run] by blast
  then show ?thesis using run demo_world_ok(2) by (auto simp: demo_server_def)
qed

text \<open>
  C1: In every history of requests from an empty store, a token is issued only for a login
  that answers a challenge which an earlier \<open>/login/begin\<close> request for the same user or flow
  made the server draw, at most 120 seconds before, with a signature under a credential
  that an earlier accepted \<open>/register/finish\<close> request stored; and the token is issued to the
  user of that registration.
\<close>

theorem token_traces_back:
  assumes "server_wf s" and "server_run s w (pre @ (w1, e, r, resp) # rest)"
    and "routed r LoginFinish" and "resp_Status resp = StatusOK"
  shows "\<exists>a chal cred ad token. asks_login r a \<and>
    login_accepts (env_crypto e) (srv_Authenticator s) a (wallClock (env_io e)) w1 chal cred ad \<and>
    session_Issue (env_text e) (srv_Sessions s) (cred_Username cred) (UV ad) (wallClock (env_io' e)) = Inr token \<and>
    resp = writeJSON StatusOK (Some (loginFinishResponse token
      \<lparr>result_Username = cred_Username cred, result_UVPerformed = UV ad\<rparr>)) \<and>
    (\<exists>(w0, e0, r0, resp0) \<in> set rest. \<exists>t0. begins e0 r0 (ar_Username a) PurposeLogin chal t0 \<and>
       wallClock (env_io e) - t0 \<le> ChallengeTTL) \<and>
    (\<exists>x \<in> set rest. registered_by s x (ar_CredentialID a) cred)"
  using assms by (rule token_origin)

theorem token_traces_back_witness:
  "\<exists>w1 r a chal cred ad. asks_login r a \<and>
    login_accepts demo_crypto demo_authenticator a (3 * second) w1 chal cred ad"
proof -
  obtain w1 rr w2 creds w3 ar w4 token where run: "server_run demo_server w4 ([] @ [
      (w3, demo_env (3 * second) 4, post_request [''login'', ''finish''] (login_finish_body demo_user [] ar),
         writeJSON StatusOK (Some (loginFinishResponse token \<lparr>result_Username = demo_user, result_UVPerformed = True\<rparr>))),
      (w2, demo_env (2 * second) 3, post_request [''login'', ''begin''] (begin_body demo_user),
         writeJSON StatusOK (Some (requestOptions demo_server (replicate ChallengeLength 3) creds []))),
      (w1, demo_env second 2, post_request [''register'', ''finish''] (register_finish_body demo_user [] [] rr), noContent),
      (demo_world, demo_env 0 1, post_request [''register'', ''begin''] (begin_body demo_user),
         writeJSON StatusOK (Some (creationOptions demo_server demo_user (replicate 16 1) (replicate ChallengeLength 1))))])"
    using demo_trace by auto
  have ok: "resp_Status (writeJSON StatusOK v) = StatusOK" for v by (simp add: writeJSON_def)
  have "srv_Authenticator demo_server = demo_authenticator" by (simp add: demo_server_def)
  then show ?thesis
    using token_traces_back [OF demo_server_ok(1) run routed_posts(4) ok] by (simp only: demo_env_ok) blast
qed

text \<open>
  In every history each stored credential stems from an accepted registration, and is as
  that registration stored it but for its counter.
\<close>

theorem stored_credentials_were_registered:
  assumes "server_run s w tr" and "server_wf s" and "store_view (srv_Store s) (disk w) i = Some c"
  shows "\<exists>(w0, e0, r0, resp0) \<in> set tr. \<exists>q chal ad at key n. asks_registration r0 q \<and>
    register_accepts (env_crypto e0) (srv_Registrar s) q (wallClock (env_io e0)) w0 chal ad at key \<and>
    i = CredentialID at \<and>
    c = (stamped (env_io e0) (new_credential (rr_Username q) (rr_Nickname q) ad at key
      (wallClock (env_io e0))))\<lparr>cred_SignCount := n\<rparr>"
proof -
  obtain x where x: "x \<in> set tr" "registered_by s x i c" using server_run_registered [OF assms] by blast
  obtain w0 e0 r0 resp0 where "x = (w0, e0, r0, resp0)" by (cases x)
  then show ?thesis
    using x by (intro bexI [of _ "(w0, e0, r0, resp0)"]) (simp_all add: registered_by.simps)
qed

theorem stored_credentials_were_registered_witness:
  "\<exists>t w0 q chal ad at key. register_accepts demo_crypto demo_registrar q t w0 chal ad at key \<and>
    demo_credID = CredentialID at"
proof -
  let ?e = "demo_env 0 1" and ?e2 = "demo_env second 2"
  let ?r1 = "post_request [''register'', ''begin''] (begin_body demo_user)"
  obtain w1 rr w2 where r: "Routes demo_server ?e ?r1 demo_world = ((writeJSON StatusOK
        (Some (creationOptions demo_server demo_user (replicate 16 1) (replicate ChallengeLength 1))), []), w1)"
      "Routes demo_server ?e2 (post_request [''register'', ''finish''] (register_finish_body demo_user [] [] rr)) w1 =
        ((noContent, []), w2)"
      "view demo_server w2 demo_credID = Some (registered (env_io ?e2) demo_user [] demo_v
        (reg_RPID (srv_Registrar demo_server)) demo_credID)" "env_ok demo_server w1 ?e2"
    using demo_runs by blast
  note run = server_run.serve [OF server_run.serve [OF server_run.start [OF demo_world_ok(3,1,2)] demo_env_ok(1) r(1)] r(4,2)]
  have "srv_Registrar demo_server = demo_registrar" by (simp add: demo_server_def)
  then show ?thesis
    using stored_credentials_were_registered [OF run demo_server_ok(1) r(3)] by (auto simp: demo_env_ok) blast+
qed

text \<open>
  C6: The passkey flow works: on a configured server with a working disk, a user who registers
  with the virtual authenticator through the two registration endpoints and then logs in
  through the two login endpoints, each within the lifetime of its challenge, gets a session
  token that verifies to that user until it expires.
\<close>

theorem passkey_flow_succeeds:
  assumes "flow_ok s e1 e2 e3 e4 sg v origin credID w" and "time_text_ok (env_text e4)"
    and "u \<noteq> []" and "coerceString u = u" and "coerceString nick = nick"
    and "coerceString uv = uv" and "coerceString uv2 = uv2"
    and "env_rand e1 ChallengeLength = Some c1" and "env_rand_id e1 16 = Some uid"
    and "env_rand e3 ChallengeLength = Some c2"
  shows "\<exists>w1 rr w2 creds w3 ar w4 token.
    Routes s e1 (post_request [''register'', ''begin''] (begin_body u)) w =
      ((writeJSON StatusOK (Some (creationOptions s u uid c1)), []), w1) \<and>
    v_Register v (reg_RPID (srv_Registrar s)) origin c1 credID = Inr rr \<and>
    Routes s e2 (post_request [''register'', ''finish''] (register_finish_body u nick uv rr)) w1 = ((noContent, []), w2) \<and>
    Routes s e3 (post_request [''login'', ''begin''] (begin_body u)) w2 =
      ((writeJSON StatusOK (Some (requestOptions s c2 creds [])), []), w3) \<and>
    fst (v_Authenticate sg (reg_RPID (srv_Registrar s)) origin c2 credID v) = Inr ar \<and>
    Routes s e4 (post_request [''login'', ''finish''] (login_finish_body u uv2 ar)) w3 =
      ((writeJSON StatusOK (Some (loginFinishResponse token
         \<lparr>result_Username = u, result_UVPerformed = True\<rparr>)), []), w4) \<and>
    (let issued = signer_now (srv_Sessions s) (wallClock (env_io' e4));
         expires = issued + signer_ttl (srv_Sessions s) in
     \<forall>clock. Verify (env_text e4) (srv_Sessions s) token clock =
       (if expires < signer_now (srv_Sessions s) clock then Inl TokenExpired
        else Inr \<lparr>claims_Username = u, claims_UVPerformed = True, claims_IssuedAt = issued,
          claims_ExpiresAt = expires\<rparr>))"
proof -
  have "Verify (env_text e4) (srv_Sessions s) token clock =
      (if signer_now (srv_Sessions s) (wallClock (env_io' e4)) + signer_ttl (srv_Sessions s)
          < signer_now (srv_Sessions s) clock then Inl TokenExpired
       else Inr (issued_claims (srv_Sessions s) u True (wallClock (env_io' e4))))"
    if "session_Issue (env_text e4) (srv_Sessions s) u True (wallClock (env_io' e4)) = Inr token" for token clock
    using Verify_Issue [OF assms(2) that] assms(4) by simp
  with flow_runs [OF assms(1,3-10)] show ?thesis
    by (simp only: Let_def issued_claims_def) (metis fst_conv)
qed

theorem passkey_flow_succeeds_witness:
  "\<exists>w3 ar w4 token. Routes demo_server (demo_env (3 * second) 4)
      (post_request [''login'', ''finish''] (login_finish_body demo_user [] ar)) w3 =
      ((writeJSON StatusOK (Some (loginFinishResponse token
         \<lparr>result_Username = demo_user, result_UVPerformed = True\<rparr>)), []), w4)"
proof -
  have "time_text_ok (env_text (demo_env (3 * second) 4))" by (simp add: demo_env_ok decimal_text_ok)
  from passkey_flow_succeeds [OF demo_flow this demo_strings(1,2,4,4,4) demo_env_ok(7,8,7)]
  show ?thesis by blast
qed

text \<open>
  C14: Deleting a credential: with a valid token and a working disk, the credential goes exactly
  if it is stored and belongs to the token's user; a credential that does not exist and one
  of somebody else get the same answer, the same (empty) log and an unchanged world.
\<close>

theorem delete_only_own:
  assumes "store_ok (srv_Store s) (disk w)" and "env_ok s w e" and "env_works e"
    and "authenticate s e r = Inr claims" and "RawURLEncoding_DecodeString pathID = Some i"
  shows "if \<exists>cred. store_view (srv_Store s) (disk w) i = Some cred \<and> cred_Username cred = claims_Username claims
    then \<exists>w'. answer (handleDeleteCredential s e pathID r) w = ((noContent, []), w') \<and>
      store_view (srv_Store s) (disk w') = (store_view (srv_Store s) (disk w))(i := None)
    else answer (handleDeleteCredential s e pathID r) w = ((writeError StatusNotFound ''credential not found'', []), w)"
proof -
  have io: "io_ok (srv_Store s) (disk w) (env_io e)" "io_ok (srv_Store s) (disk w) (env_io' e)"
      "no_failures (env_io e)" "no_failures (env_io' e)"
    using assms(2,3) by (simp_all add: env_ok_def env_works_def)
  have find: "FindByID (env_io e) (srv_Store s) i (disk w) = Inr (store_view (srv_Store s) (disk w) i)"
    by (rule find_works [OF assms(1) io(1,3)])
  show ?thesis
  proof (cases "\<exists>cred. store_view (srv_Store s) (disk w) i = Some cred \<and> cred_Username cred = claims_Username claims")
    case True
    then obtain cred where cred: "store_view (srv_Store s) (disk w) i = Some cred" "cred_Username cred = claims_Username claims"
      by blast
    obtain d where d: "DeleteCredential (env_io' e) (srv_Store s) i (disk w) = (Inr (), d)"
      using delete_works [OF assms(1) io(2,4), of i] cred(1) by auto
    have "handleDeleteCredential s e pathID r w = (Inr noContent, w\<lparr>disk := d\<rparr>)"
      using cred find d by (simp add: handleDeleteCredential_def result_simps assms(4,5) Let_def)
    then show ?thesis
      using True DeleteCredential_Inr [OF assms(1) io(2) d] by (simp add: answer_def)
  next
    case False
    then have "handleDeleteCredential s e pathID r w = (Inl (refuse StatusNotFound ''credential not found''), w)"
      using find by (auto simp: handleDeleteCredential_def result_simps assms(4,5) Let_def split: option.splits)
    then show ?thesis by (simp only: if_not_P [OF False]) (simp add: answer_def refuse_def)
  qed
qed

theorem delete_only_own_witness:
  "\<exists>token w w'. answer (handleDeleteCredential demo_server (demo_env (2 * second) 3)
      (RawURLEncoding_EncodeToString demo_credID) (demo_request token)) w = ((noContent, []), w') \<and>
    store_view sample_store (disk w) demo_credID \<noteq> None \<and> store_view sample_store (disk w') demo_credID = None"
proof -
  obtain w c where w: "store_ok sample_store (disk w)" "env_ok demo_server w (demo_env (2 * second) 3)"
      "store_view sample_store (disk w) demo_credID = Some c" "cred_Username c = demo_user"
    using demo_registered by blast
  obtain token where token: "authenticate demo_server (demo_env (2 * second) 3) (demo_request token) =
      Inr (issued_claims (srv_Sessions demo_server) demo_user True 0)"
    using demo_token by blast
  have st: "srv_Store demo_server = sample_store" by (simp add: demo_server_def)
  have "claims_Username (issued_claims (srv_Sessions demo_server) demo_user True 0) = demo_user"
    by (simp add: issued_claims_def)
  with delete_only_own [of demo_server, unfolded st, OF w(1,2) demo_env_ok(2) token RawURLEncoding_roundtrip [of demo_credID]] w(3,4)
  obtain w' where "answer (handleDeleteCredential demo_server (demo_env (2 * second) 3)
        (RawURLEncoding_EncodeToString demo_credID) (demo_request token)) w = ((noContent, []), w')"
      "store_view sample_store (disk w') = (store_view sample_store (disk w))(demo_credID := None)"
    by auto
  then show ?thesis using w(3) by (intro exI [of _ token] exI [of _ w] exI [of _ w']) simp
qed

text \<open>
  Listing credentials: a list is returned only to a bearer of a valid token, changes
  nothing, and holds each stored credential of the token's user once and no other one.
\<close>

theorem list_shows_own:
  assumes "store_ok (srv_Store s) (disk w)" and "env_ok s w e"
    and "answer (handleListCredentials s e r) w = ((resp, log), w')" and "resp_Status resp = StatusOK"
  shows "w' = w \<and> (\<exists>token claims creds. http_Authorization r = ''Bearer '' @ token \<and>
    Verify (env_text e) (srv_Sessions s) token (wallClock (env_io e)) = Inr claims \<and>
    resp = writeJSON StatusOK (credentialSummaries (env_text e) creds) \<and> distinct creds \<and>
    set creds = {c. store_view (srv_Store s) (disk w) (cred_ID c) = Some c \<and> cred_Username c = claims_Username claims})"
proof -
  have "success resp" using assms(4) by (simp add: success_def)
  then have run: "handleListCredentials s e r w = (Inr resp, w')"
    using assms(3) handler_refusals(5) refusals_fail by (auto elim!: answer_cases)
  obtain claims creds where h: "w' = w" "authenticate s e r = Inr claims"
      "resp = writeJSON StatusOK (credentialSummaries (env_text e) creds)" "distinct creds"
      "set creds = {c. store_view (srv_Store s) (disk w) (cred_ID c) = Some c \<and> cred_Username c = claims_Username claims}"
    using list_success [OF assms(1,2) run] by blast
  have "take (length bearer) (http_Authorization r) = bearer"
    using h(2) by (auto simp: authenticate_def split: if_splits)
  then have "http_Authorization r = bearer @ drop (length bearer) (http_Authorization r)"
      "Verify (env_text e) (srv_Sessions s) (drop (length bearer) (http_Authorization r)) (wallClock (env_io e)) = Inr claims"
    using h(2) by (metis append_take_drop_id, simp add: authenticate_def)
  then show ?thesis using h unfolding bearer_def by blast
qed

theorem list_shows_own_witness:
  "\<exists>w token resp. fst (answer (handleListCredentials demo_server (demo_env (2 * second) 3) (demo_request token)) w) = (resp, []) \<and>
    (\<exists>creds. resp = writeJSON StatusOK (credentialSummaries decimal_text creds) \<and> distinct creds \<and>
      demo_credID \<in> cred_ID ` set creds)"
proof -
  obtain w c where w: "store_ok sample_store (disk w)" "env_ok demo_server w (demo_env (2 * second) 3)"
      "store_view sample_store (disk w) demo_credID = Some c" "cred_Username c = demo_user" "cred_ID c = demo_credID"
    using demo_registered by blast
  obtain token where token: "authenticate demo_server (demo_env (2 * second) 3) (demo_request token) =
      Inr (issued_claims (srv_Sessions demo_server) demo_user True 0)"
    using demo_token by blast
  have st: "srv_Store demo_server = sample_store" by (simp add: demo_server_def)
  obtain creds where creds: "FindByUsername (env_io (demo_env (2 * second) 3)) (srv_Store demo_server) demo_user (disk w) = Inr creds"
    using find_by_username_works [of demo_server w "env_io (demo_env (2 * second) 3)" demo_user] w(1) st
      demo_env_ok(2) [of "2 * second" 3] by (auto simp: env_works_def)
  let ?resp = "writeJSON StatusOK (credentialSummaries decimal_text creds)"
  have run: "answer (handleListCredentials demo_server (demo_env (2 * second) 3) (demo_request token)) w = ((?resp, []), w)"
    using creds by (simp add: handleListCredentials_def result_simps token issued_claims_def demo_env_ok)
  have "resp_Status ?resp = StatusOK" by (simp add: writeJSON_def)
  from list_shows_own [of demo_server, unfolded st, OF w(1,2) run this]
  obtain token' claims creds' where l: "http_Authorization (demo_request token) = ''Bearer '' @ token'"
      "Verify decimal_text (srv_Sessions demo_server) token' (2 * second) = Inr claims"
      "?resp = writeJSON StatusOK (credentialSummaries decimal_text creds')" "distinct creds'"
      "set creds' = {c. store_view sample_store (disk w) (cred_ID c) = Some c \<and> cred_Username c = claims_Username claims}"
    by (simp only: demo_env_ok) blast
  have "token' = token" using l(1) by (simp add: demo_request_def bearer_def)
  then have "claims = issued_claims (srv_Sessions demo_server) demo_user True 0"
    using l(2) token by (simp add: authenticate_def demo_request_def demo_env_ok)
  with w have "c \<in> set creds'" using l(5) w(3-5) by (simp add: issued_claims_def)
  then show ?thesis using l(3,4) run w(5) by (metis fst_conv imageI)
qed

section \<open>Requests that run at the same time\<close>




text \<open>
  C4: The origin of tokens survives concurrency.  However requests interleave, a thread that
  answers \<open>/login/finish\<close> with a token went through three locked sections, in this order: it
  redeemed a challenge that a begin request, at most 120 seconds before, made the server draw;
  it read a credential that an accepted registration had stored by then, and every check of
  a login held; and it stored the counter while the credential still existed.  The token is
  issued to the owner of that credential.
\<close>

theorem concurrent_tokens_trace_back:
  assumes "server_wf s" and "interleaved s w0 w ts tr" and "i < length ts" and "ts ! i = th"
    and "routed (th_request th) LoginFinish" and "th_prog th = Return rep" and "resp_Status (fst rep) = StatusOK"
  shows "\<exists>post x3 mid x2 mid' x1 pre a chal cred ad token.
    tr = post @ x3 # mid @ x2 # mid' @ x1 # pre \<and> lk_thread x1 = i \<and> lk_thread x2 = i \<and> lk_thread x3 = i \<and>
    asks_login (th_request th) a \<and>
    login_accepts (env_crypto (th_env th)) (srv_Authenticator s) a (wallClock (env_io (th_env th)))
      ((lk_world x1)\<lparr>disk := disk (lk_world x2)\<rparr>) chal cred ad \<and>
    view s (lk_world x3) (ar_CredentialID a) \<noteq> None \<and> token_reply s (th_env th) cred ad token (fst rep) \<and>
    (\<exists>x \<in> set pre. \<exists>t0. begins (lk_env x) (lk_request x) (ar_Username a) PurposeLogin chal t0 \<and>
       wallClock (env_io (th_env th)) - t0 \<le> ChallengeTTL) \<and>
    (\<exists>x \<in> set (mid' @ x1 # pre). registered_in s x (ar_CredentialID a) cred)"
  using assms by (rule concurrent_token)

theorem concurrent_tokens_trace_back_witness:
  "\<exists>(w1 :: world) (w2 :: world) a chal cred ad. login_accepts demo_crypto demo_authenticator a (3 * second)
    (w1\<lparr>disk := disk w2\<rparr>) chal cred ad"
proof -
  obtain w1 rr w2 creds w3 ar w4 token where run: "server_run demo_server w4 [
      (w3, demo_env (3 * second) 4, post_request [''login'', ''finish''] (login_finish_body demo_user [] ar),
         writeJSON StatusOK (Some (loginFinishResponse token \<lparr>result_Username = demo_user, result_UVPerformed = True\<rparr>))),
      (w2, demo_env (2 * second) 3, post_request [''login'', ''begin''] (begin_body demo_user),
         writeJSON StatusOK (Some (requestOptions demo_server (replicate ChallengeLength 3) creds []))),
      (w1, demo_env second 2, post_request [''register'', ''finish''] (register_finish_body demo_user [] [] rr), noContent),
      (demo_world, demo_env 0 1, post_request [''register'', ''begin''] (begin_body demo_user),
         writeJSON StatusOK (Some (creationOptions demo_server demo_user (replicate 16 1) (replicate ChallengeLength 1))))]"
    using demo_trace by auto
  obtain w0 ts tr where il: "interleaved demo_server w0 w4 ts tr" and fin: "list_all2 finished (rev [
      (w3, demo_env (3 * second) 4, post_request [''login'', ''finish''] (login_finish_body demo_user [] ar),
         writeJSON StatusOK (Some (loginFinishResponse token \<lparr>result_Username = demo_user, result_UVPerformed = True\<rparr>))),
      (w2, demo_env (2 * second) 3, post_request [''login'', ''begin''] (begin_body demo_user),
         writeJSON StatusOK (Some (requestOptions demo_server (replicate ChallengeLength 3) creds []))),
      (w1, demo_env second 2, post_request [''register'', ''finish''] (register_finish_body demo_user [] [] rr), noContent),
      (demo_world, demo_env 0 1, post_request [''register'', ''begin''] (begin_body demo_user),
         writeJSON StatusOK (Some (creationOptions demo_server demo_user (replicate 16 1) (replicate ChallengeLength 1))))]) ts"
    using server_run_interleaved [OF run demo_server_ok(1)] by blast
  obtain th log where th: "3 < length ts" "ts ! 3 = th" "th_env th = demo_env (3 * second) 4"
      "th_request th = post_request [''login'', ''finish''] (login_finish_body demo_user [] ar)"
      "th_prog th = Return (writeJSON StatusOK (Some (loginFinishResponse token
        \<lparr>result_Username = demo_user, result_UVPerformed = True\<rparr>)), log)"
    using fin by (auto simp: list_all2_Cons1 finished_def)
  have ok: "resp_Status (fst (writeJSON StatusOK v, log)) = StatusOK" for v by (simp add: writeJSON_def)
  have "srv_Authenticator demo_server = demo_authenticator" by (simp add: demo_server_def)
  moreover have "routed (th_request th) LoginFinish" by (simp only: th(4) routed_posts(4))
  ultimately show ?thesis
    using concurrent_tokens_trace_back [OF demo_server_ok(1) il th(1,2) _ th(5) ok]
    by (simp only: th(3) demo_env_ok) blast
qed

text \<open>
  C5: The counter can go back.  Two logins under one credential, pending for different user
  names, that a server could each accept, can run so that both receive their token although
  the counter that is stored at the end is the smaller of the two: both read the credential
  before either stores its counter, and the one with the larger counter stores first.  A
  cloned authenticator that answers with any number in between is then accepted.
\<close>

theorem concurrent_logins_lose_an_update:
  assumes "server_wf s" and "interleaved s w0 w ts tr"
    and "login_ready s ea ra w a chal cred ad resp" and "login_ready s eb rb w b chal2 cred ad2 resp2"
    and "ar_Username a \<noteq> ar_Username b" and "ar_CredentialID b = ar_CredentialID a" and "SignCount ad < SignCount ad2"
  shows "\<exists>w' tr' cred'.
    interleaved s w0 w' (pair_of ts ea ra (Return (resp, [])) eb rb (Return (resp2, []))) tr' \<and>
    view s w' (ar_CredentialID a) = Some cred' \<and> cred_SignCount cred' < SignCount ad2"
  using lost_update [OF assms(1-6)] assms(7) by fastforce

theorem concurrent_logins_lose_an_update_witness:
  "\<exists>(w0 :: world) (w' :: world) ts' tr' i (cred' :: Credential) n. interleaved demo_server w0 w' ts' tr' \<and>
    view demo_server w' i = Some cred' \<and> cred_SignCount cred' < n"
proof -
  obtain w0 w ts tr ra a c cred ad resp rb b c2 ad2 resp2 where h: "interleaved demo_server w0 w ts tr"
      "login_ready demo_server (demo_env (3 * second) 5) ra w a c cred ad resp"
      "login_ready demo_server (demo_env (3 * second) 6) rb w b c2 cred ad2 resp2"
      "ar_Username a \<noteq> ar_Username b" "ar_CredentialID b = ar_CredentialID a" "SignCount ad < SignCount ad2"
    using demo_two_logins by blast
  from concurrent_logins_lose_an_update [OF demo_server_ok(1) h] show ?thesis by blast
qed

section \<open>The demo tool\<close>

text \<open>
  C9: The demo tool reaches its end: against a server that is set up for
  \<open>http://localhost:8080\<close> and at which nobody has registered, with a network that delivers and key
  generators that work, it writes its six files and nothing else.  Each file is the
  transcript of its feature: both ceremonies with status 204 and 200 and a token for the user,
  both packed attestations accepted, a credential listed, revoked and gone, and a login under
  the stricter policy.  Afterwards the server holds the credentials of bob, carol, dave, erin
  and grace, with their algorithms and advanced counters, and none of frank.
\<close>

theorem demo_tour_completes:
  assumes "tool_ok cr tt s io" and "world_ok s io (t_world t)" and "held s (t_world t) = Map.empty"
    and "io_mkdir io" and "\<forall>path. io_write io path"
  shows "\<exists>t' files. demodata_main s io t = (Inr (), t') \<and> t_files t' = t_files t @ files \<and>
    list_all2 (\<lambda>(path, txt) (name, shown). path = ''docs/demo/captures/'' @ name \<and> shown txt) files [
      (''rs256-ceremony.txt'', ceremony_shown s ''bob'' AlgRS256 ''RS256''),
      (''eddsa-ceremony.txt'', ceremony_shown s ''carol'' AlgEdDSA ''EdDSA''),
      (''packed-self.txt'', \<lambda>txt. txt = packed_self_text),
      (''packed-full.txt'', \<lambda>txt. txt = packed_full_text),
      (''credential-management.txt'', management_shown tt),
      (''uv-override.txt'', override_shown)] \<and>
    held s (t_world t') = [bob_id \<mapsto> (''bob'', AlgRS256, 2), carol_id \<mapsto> (''carol'', AlgEdDSA, 2),
      dave_id \<mapsto> (''dave-packed-self'', AlgES256, 1), erin_id \<mapsto> (''erin-packed-full'', AlgES256, 1),
      grace_id \<mapsto> (''grace'', AlgES256, 2)]"
  using tour_runs [OF assms] unfolding tour_text_def tour_holds_def by blast

theorem demo_tour_completes_witness:
  "\<exists>(t' :: tool) files. demodata_main tour_server tour_io tour_start = (Inr (), t') \<and> t_files t' = files \<and> length files = 6 \<and>
    held tour_server (t_world t') bob_id = Some (''bob'', AlgRS256, 2) \<and> held tour_server (t_world t') frank_id = None"
proof -
  obtain t' files where "demodata_main tour_server tour_io tour_start = (Inr (), t')" "t_files t' = t_files tour_start @ files"
      "length files = 6" "held tour_server (t_world t') = [bob_id \<mapsto> (''bob'', AlgRS256, 2), carol_id \<mapsto> (''carol'', AlgEdDSA, 2),
      dave_id \<mapsto> (''dave-packed-self'', AlgES256, 1), erin_id \<mapsto> (''erin-packed-full'', AlgES256, 1),
      grace_id \<mapsto> (''grace'', AlgES256, 2)]"
    using demo_tour_completes [OF tour_ok tour_start_ok(1,2,5,6)] by (force dest: list_all2_lengthD)
  then show ?thesis using distinct_ids by (auto simp add: tour_start_ok(3) simp del: held_None)
qed

text \<open>
  C20: Listing and revoking, as the client sees them: whatever else the server holds, as long as
  nothing of frank, the transcript shows exactly the one credential that frank registered, with
  the nickname that was sent, then status 204 for its deletion, then the empty list; and the
  server holds what it held before.
\<close>

theorem demo_lists_and_revokes:
  assumes "tool_ok cr tt s io" and "world_ok s io (t_world t)"
    and "held s (t_world t) frank_id = None" and "\<forall>i a n. held s (t_world t) i \<noteq> Some (''frank'', a, n)"
  shows "\<exists>cred t'. credentialManagement s io t = (Inr (), t') \<and> t_buf t' = t_buf t @ management_text tt cred \<and>
    cred_ID cred = frank_id \<and> cred_Algorithm cred = AlgES256 \<and> cred_Nickname cred = ''YubiKey on desk'' \<and>
    world_ok s io (t_world t') \<and> held s (t_world t') = held s (t_world t)"
  using credentialManagement_writes [OF assms] unfolding writes_def by blast

theorem demo_lists_and_revokes_witness:
  "\<exists>(cred :: Credential) (t' :: tool). credentialManagement tour_server tour_io tour_start = (Inr (), t') \<and>
    t_buf t' = management_text decimal_text cred \<and> cred_ID cred = frank_id"
  using demo_lists_and_revokes [OF tour_ok tour_start_ok(1)] tour_start_ok(2,4) by (simp del: held_None) blast

section \<open>Two observations\<close>

text \<open>
  The key parser does not compare the declared algorithm with the type of the key.  An
  Ed25519 key that declares ES256 is accepted, and no signature ever verifies under it.
\<close>

lemma algorithm_not_checked_against_key:
  "\<exists>key. cose_Parse (VMap [(VUint 1, VUint 1), (VUint 3, VNegInt AlgES256), (VNegInt (-1), VUint 6),
       (VNegInt (-2), VBytes (replicate 32 7))]) = Inr key \<and>
     (\<forall>cr m sig. verifySignature cr (Alg key) (Public key) m sig = Inl UnsupportedAlgorithm)"
  by (simp add: cose_Parse_def parseOKP_def getInt_def getBytes_def MapGetInt_def failIf_def someOr_def
      AlgES256_def AlgRS256_def AlgEdDSA_def verifySignature_def Ed25519_PublicKeySize_def is_int_value_def)

text \<open>A listen address without a host is every interface, and gives no warning.\<close>

lemma no_warning_on_all_interfaces:
  "loopbackWarning '':8080'' = [] \<and> loopbackWarning ''0.0.0.0:8080'' = loopback_text"
  by code_simp

end
